(* ===== verification/Prelude.thy ===== *)
theory Prelude
  imports Main "HOL-Library.Word"
begin


text \<open>
  Shared vocabulary of the development: the C types of the cache/proxy code
  (\<open>size_t\<close> and \<open>ssize_t\<close> as 64-bit words on the LP64 target, bytes as 8-bit
  words), C strings, and the list lemmas about chunking a byte sequence that
  both halves of the shared-memory transfer use.
\<close>

type_synonym byte = "8 word"

type_synonym size_t = "64 word"

text \<open>A C string as the program sees it: the characters before the first NUL.\<close>

definition cstr :: "string \<Rightarrow> string" where
  "cstr s = takeWhile (\<lambda>c. c \<noteq> CHR 0x00) s"

named_theorems chunk_simps "list facts about splitting a byte sequence into chunks"

text \<open>
  \<open>strncpy(dst, src, n)\<close> into a \<open>char[n]\<close> array: the first \<open>n\<close> characters of
  \<open>src\<close>, padded with NULs; no terminator is written when \<open>src\<close> has \<open>n\<close> or
  more characters.
\<close>

definition strncpy :: "nat \<Rightarrow> string \<Rightarrow> string" where
  "strncpy n s = take n s @ replicate (n - length s) CHR 0x00"

text \<open>
  Decimal printing, as \<open>printf\<close>'s \<open>%d\<close> and \<open>%zu\<close> do for a non-negative
  value, and the value of a digit string.
\<close>

definition digit_char :: "nat \<Rightarrow> char" where
  "digit_char d = char_of (48 + d)"

fun decimal :: "nat \<Rightarrow> string" where
  "decimal n = (if n < 10 then [digit_char n] else decimal (n div 10) @ [digit_char (n mod 10)])"

declare decimal.simps [simp del]

definition is_digit :: "char \<Rightarrow> bool" where
  "is_digit c \<longleftrightarrow> (48::nat) \<le> of_char c \<and> of_char c \<le> (57::nat)"

definition digit_val :: "char \<Rightarrow> nat" where
  "digit_val c = of_char c - 48"

definition digits_val :: "string \<Rightarrow> nat" where
  "digits_val s = foldl (\<lambda>acc c. 10 * acc + digit_val c) 0 s"

subsection \<open>Lemmas\<close>

lemma cstr_no_nul [simp]: "CHR 0x00 \<notin> set s \<Longrightarrow> cstr s = s"
  by (simp add: cstr_def) blast

lemma length_strncpy [simp]: "length (strncpy n s) = n"
  by (simp add: strncpy_def)

lemma cstr_strncpy:
  assumes "length s < n" and "CHR 0x00 \<notin> set s"
  shows "cstr (strncpy n s) = s"
proof -
  from assms(1) obtain k where k: "n - length s = Suc k"
    by (metis Suc_diff_Suc)
  from assms(2) have "\<forall>c \<in> set s. c \<noteq> CHR 0x00" by blast
  with k show ?thesis by (simp add: strncpy_def cstr_def)
qed

lemma take_drop_add [chunk_simps]:
  "take n (drop m xs) @ drop (m + n) xs = drop m xs"
  by (metis add.commute append_take_drop_id drop_drop)

lemma length_take_drop_min [chunk_simps]:
  "length (take n (drop m xs)) = min n (length xs - m)"
  by simp

lemma digit_char_is_digit: "d < 10 \<Longrightarrow> is_digit (digit_char d)"
  by (simp add: digit_char_def is_digit_def)

lemma digit_val_char [simp]: "d < 10 \<Longrightarrow> digit_val (digit_char d) = d"
  by (simp add: digit_char_def digit_val_def)

lemma decimal_nonempty [simp]: "decimal n \<noteq> []"
  by (subst decimal.simps) simp

lemma decimal_digits: "c \<in> set (decimal n) \<Longrightarrow> is_digit c"
proof (induction n rule: decimal.induct)
  case (1 n)
  then show ?case
    by (cases "n < 10") (auto simp: decimal.simps [of n] digit_char_is_digit)
qed

lemma digits_val_decimal [simp]: "digits_val (decimal n) = n"
proof (induction n rule: decimal.induct)
  case (1 n)
  then show ?case
    by (cases "n < 10") (simp_all add: decimal.simps [of n] digits_val_def)
qed

lemma is_digit_not_nul: "is_digit c \<Longrightarrow> c \<noteq> CHR 0x00"
  by (auto simp: is_digit_def)

lemma decimal_inj: "decimal m = decimal n \<Longrightarrow> m = n"
  by (metis digits_val_decimal)

lemma length_decimal_le: "n < 10 ^ Suc k \<Longrightarrow> length (decimal n) \<le> Suc k"
proof (induction n arbitrary: k rule: decimal.induct)
  case (1 n)
  show ?case
  proof (cases "n < 10")
    case True
    then show ?thesis by (simp add: decimal.simps [of n])
  next
    case False
    then obtain j where k: "k = Suc j"
      using "1.prems" by (cases k) auto
    with "1.prems" have "n div 10 < 10 ^ Suc j"
      by (simp add: div_less_iff_less_mult mult.commute)
    with False "1.IH" have "length (decimal (n div 10)) \<le> Suc j" by blast
    with False k show ?thesis by (simp add: decimal.simps [of n])
  qed
qed

end
