(* ===== verification/ShmChannel.thy ===== *)
theory ShmChannel
  imports Prelude
begin

text \<open>
  The shared channel of \<open>src/cache/shm_channel.h\<close> and \<open>src/cache/shm_channel.c\<close>.
  The operating system's POSIX shared-memory namespace is explicit state
  (\<open>shm_os\<close>): the named objects with the payload they hold, the number of file
  descriptors the process has open against its limit, and the number of live
  mappings. A segment (\<open>shm_segment_t\<close>) is a record; its mapping is the name of
  the object it maps, so two processes that map the same name share one payload.
  \<open>shm_segment_create\<close>, \<open>shm_segment_attach\<close>, \<open>shm_segment_destroy\<close> and
  \<open>create_n_segments\<close> are state transformers returning the C return value.
\<close>

subsection \<open>Layout\<close>

definition SHM_NAME_LEN :: nat where
  "SHM_NAME_LEN = 64"

definition SHM_SEGMENT_SIZE :: size_t where
  "SHM_SEGMENT_SIZE = 5712"

text \<open>
  \<open>sizeof(shm_payload_t)\<close> on the LP64 glibc target: two 32-byte \<open>sem_t\<close>, the
  8-byte \<open>datalen\<close>, the 4-byte \<open>is_last_chunk\<close> padded to 8, the 8-byte
  \<open>total_file_size\<close>; the flexible array \<open>data\<close> adds nothing.
\<close>

definition payload_header_size :: size_t where
  "payload_header_size = 88"

text \<open>The payload in shared memory; the semaphores are their counts.\<close>

record shm_payload =
  sem_proxy_ready :: nat
  sem_cache_ready :: nat
  datalen :: size_t
  is_last_chunk :: int
  total_file_size :: size_t
  pdata :: "byte list"

record shm_segment =
  shm_name :: string
  seg_size :: size_t
  seg_addr :: "string option"
  seg_fd :: int

text \<open>The process's view of the POSIX shared-memory namespace.\<close>

record shm_os =
  shm_objs :: "string \<rightharpoonup> shm_payload"
  open_fds :: nat
  fd_limit :: nat
  live_maps :: nat

text \<open>
  The object \<open>ftruncate\<close> makes of a new name: zero-filled, so both semaphore
  counts and all fields are 0 and the data area holds \<open>size - header\<close> zero bytes.
\<close>

definition zero_payload :: "size_t \<Rightarrow> shm_payload" where
  "zero_payload sz =
     \<lparr>sem_proxy_ready = 0, sem_cache_ready = 0, datalen = 0, is_last_chunk = 0,
      total_file_size = 0, pdata = replicate (unat sz - unat payload_header_size) 0\<rparr>"

text \<open>
  \<open>shm_open(name, flags, 0666)\<close>: fails with \<open>EMFILE\<close> when the descriptor table
  is full and with \<open>ENOENT\<close> when the name does not exist and \<open>O_CREAT\<close> is not
  given. With \<open>O_CREAT\<close> (and no \<open>O_EXCL\<close>, as in the source) an existing object
  is opened as it is. The descriptor number is the lowest free one after the
  three standard streams.
\<close>

definition shm_open :: "string \<Rightarrow> bool \<Rightarrow> size_t \<Rightarrow> shm_os \<Rightarrow> int \<times> shm_os" where
  "shm_open name creat sz os =
     (if fd_limit os \<le> open_fds os then (-1, os)
      else if shm_objs os name = None \<and> \<not> creat then (-1, os)
      else (int (open_fds os) + 3,
            os\<lparr>open_fds := Suc (open_fds os),
               shm_objs := (if shm_objs os name = None
                            then (shm_objs os)(name \<mapsto> zero_payload sz)
                            else shm_objs os)\<rparr>))"

text \<open>\<open>mmap(NULL, size, \<dots>, MAP_SHARED, fd, 0)\<close> fails (\<open>EINVAL\<close>) for length 0.\<close>

definition shm_mmap :: "string \<Rightarrow> size_t \<Rightarrow> shm_os \<Rightarrow> string option \<times> shm_os" where
  "shm_mmap name sz os =
     (if sz = 0 then (None, os) else (Some name, os\<lparr>live_maps := Suc (live_maps os)\<rparr>))"

subsection \<open>Operations\<close>

text \<open>
  \<open>shm_segment_create\<close>: copy the name, open or create the object, size it,
  map it, then \<open>sem_init\<close> both semaphores to 0 and clear \<open>datalen\<close>. Every failure
  returns -1 at once, without closing a descriptor it already opened.
\<close>

definition shm_segment_create ::
  "shm_segment \<Rightarrow> string \<Rightarrow> size_t \<Rightarrow> shm_os \<Rightarrow> int \<times> shm_segment \<times> shm_os" where
  "shm_segment_create seg name sz os =
     (let seg1 = seg\<lparr>shm_name := strncpy SHM_NAME_LEN name, seg_size := sz\<rparr>;
          (fd, os1) = shm_open name True sz os;
          seg2 = seg1\<lparr>seg_fd := fd\<rparr>
      in if fd < 0 then (-1, seg2, os1)
         else let (addr, os2) = shm_mmap name sz os1;
                  seg3 = seg2\<lparr>seg_addr := addr\<rparr>
              in case addr of
                   None \<Rightarrow> (-1, seg3, os2)
                 | Some a \<Rightarrow>
                     (0, seg3,
                      os2\<lparr>shm_objs := (shm_objs os2)(a \<mapsto>
                         (the (shm_objs os2 a))\<lparr>sem_proxy_ready := 0, sem_cache_ready := 0,
                                                 datalen := 0\<rparr>)\<rparr>))"

text \<open>\<open>shm_segment_attach\<close>: open an existing object and map it, touching nothing in it.\<close>

definition shm_segment_attach ::
  "shm_segment \<Rightarrow> string \<Rightarrow> size_t \<Rightarrow> shm_os \<Rightarrow> int \<times> shm_segment \<times> shm_os" where
  "shm_segment_attach seg name sz os =
     (let seg1 = seg\<lparr>shm_name := strncpy SHM_NAME_LEN name, seg_size := sz\<rparr>;
          (fd, os1) = shm_open name False sz os;
          seg2 = seg1\<lparr>seg_fd := fd\<rparr>
      in if fd < 0 then (-1, seg2, os1)
         else let (addr, os2) = shm_mmap name sz os1
              in (if addr = None then -1 else 0, seg2\<lparr>seg_addr := addr\<rparr>, os2))"

text \<open>
  \<open>shm_segment_destroy\<close>: \<open>sem_destroy\<close> twice (no effect on the counts),
  \<open>munmap\<close>, \<open>close\<close>, and \<open>shm_unlink\<close> of the name stored in the segment.
\<close>

definition shm_segment_destroy :: "shm_segment \<Rightarrow> shm_os \<Rightarrow> int \<times> shm_os" where
  "shm_segment_destroy seg os =
     (0, os\<lparr>live_maps := live_maps os - 1, open_fds := open_fds os - 1,
            shm_objs := (shm_objs os)(cstr (shm_name seg) := None)\<rparr>)"

text \<open>The name \<open>snprintf(shm_name, SHM_NAME_LEN, "/proxy_shm_%d", i)\<close> gives.\<close>

definition proxy_shm_name :: "nat \<Rightarrow> string" where
  "proxy_shm_name i = take (SHM_NAME_LEN - 1) (''/proxy_shm_'' @ decimal i)"

definition fresh_segment :: shm_segment where
  "fresh_segment = \<lparr>shm_name = [], seg_size = 0, seg_addr = None, seg_fd = -1\<rparr>"

text \<open>
  \<open>create_n_segments\<close>: for \<open>i = 0 .. n-1\<close> create \<open>/proxy_shm_i\<close>; on failure
  report, free the segment and \<open>continue\<close>; on success enqueue it at the back of
  the free list. The loop is a recursion on the count still to create, with
  \<open>i\<close> the next index.
\<close>

fun create_segments_from ::
  "nat \<Rightarrow> nat \<Rightarrow> size_t \<Rightarrow> shm_segment list \<Rightarrow> shm_os \<Rightarrow> shm_segment list \<times> shm_os" where
  "create_segments_from i 0 segsize free os = (free, os)"
| "create_segments_from i (Suc k) segsize free os =
     (let (r, seg, os1) = shm_segment_create fresh_segment (proxy_shm_name i) segsize os
      in if r < 0 then create_segments_from (Suc i) k segsize free os1
         else create_segments_from (Suc i) k segsize (free @ [seg]) os1)"

definition create_n_segments ::
  "nat \<Rightarrow> size_t \<Rightarrow> shm_segment list \<Rightarrow> shm_os \<Rightarrow> shm_segment list \<times> shm_os" where
  "create_n_segments n segsize free os = create_segments_from 0 n segsize free os"

text \<open>The payload a successful \<open>shm_segment_create\<close> leaves behind the name.\<close>

definition created_payload :: "shm_os \<Rightarrow> string \<Rightarrow> size_t \<Rightarrow> shm_payload" where
  "created_payload os name sz =
     (case shm_objs os name of None \<Rightarrow> zero_payload sz | Some p \<Rightarrow> p)
       \<lparr>sem_proxy_ready := 0, sem_cache_ready := 0, datalen := 0\<rparr>"

text \<open>A namespace with no objects, nothing open and a descriptor limit.\<close>

definition initial_os :: "nat \<Rightarrow> shm_os" where
  "initial_os lim = \<lparr>shm_objs = Map.empty, open_fds = 0, fd_limit = lim, live_maps = 0\<rparr>"

subsection \<open>Properties\<close>

lemma shm_segment_create_ok:
  assumes "open_fds os < fd_limit os" and "sz \<noteq> 0"
  shows "shm_segment_create seg name sz os =
     (0, seg\<lparr>shm_name := strncpy SHM_NAME_LEN name, seg_size := sz, seg_fd := int (open_fds os) + 3,
             seg_addr := Some name\<rparr>,
      os\<lparr>open_fds := Suc (open_fds os), live_maps := Suc (live_maps os),
         shm_objs := (shm_objs os)(name \<mapsto> created_payload os name sz)\<rparr>)"
  using assms
  by (auto simp: shm_segment_create_def shm_open_def shm_mmap_def created_payload_def Let_def
      split: option.splits)

lemma shm_segment_create_emfile:
  "fd_limit os \<le> open_fds os \<Longrightarrow> shm_segment_create seg name sz os = (-1, seg', os') \<Longrightarrow> os' = os"
  by (auto simp: shm_segment_create_def shm_open_def Let_def)

lemma shm_segment_create_zero_size:
  "open_fds os < fd_limit os \<Longrightarrow> shm_segment_create seg name 0 os = (r, seg', os') \<Longrightarrow>
   r = -1 \<and> open_fds os' = Suc (open_fds os) \<and> live_maps os' = live_maps os"
  by (auto simp: shm_segment_create_def shm_open_def shm_mmap_def Let_def)

text \<open>
  C35: attaching a name that no process created fails with -1 and leaves the
  namespace unchanged: the cache side cannot create a channel by attaching it.
\<close>

lemma shm_segment_attach_missing:
  "shm_objs os name = None \<Longrightarrow> shm_segment_attach seg name sz os = (r, seg', os') \<Longrightarrow> r = -1 \<and> os' = os"
  by (cases "fd_limit os \<le> open_fds os") (auto simp: shm_segment_attach_def shm_open_def Let_def)

lemma shm_segment_attach_ok:
  assumes "shm_objs os name \<noteq> None" and "open_fds os < fd_limit os" and "sz \<noteq> 0"
  shows "shm_segment_attach seg name sz os =
     (0, seg\<lparr>shm_name := strncpy SHM_NAME_LEN name, seg_size := sz, seg_fd := int (open_fds os) + 3,
             seg_addr := Some name\<rparr>,
      os\<lparr>open_fds := Suc (open_fds os), live_maps := Suc (live_maps os)\<rparr>)"
  using assms by (auto simp: shm_segment_attach_def shm_open_def shm_mmap_def Let_def)

text \<open>
  C34: after the proxy's \<open>shm_segment_create\<close> succeeds, the daemon's
  \<open>shm_segment_attach\<close> of the same name (with descriptors left and a non-zero
  size) succeeds, maps the same object, leaves every object unchanged, and sees
  both semaphores at 0.
\<close>

lemma create_then_attach:
  assumes "shm_segment_create seg name sz os = (0, seg1, os1)"
    and "open_fds os1 < fd_limit os1" and "sz' \<noteq> 0"
    and "shm_segment_attach seg2 name sz' os1 = (r, seg3, os2)"
  shows "r = 0 \<and> seg_addr seg3 = seg_addr seg1 \<and> shm_objs os2 = shm_objs os1 \<and>
         (\<exists>p. shm_objs os2 name = Some p \<and> sem_proxy_ready p = 0 \<and> sem_cache_ready p = 0)"
proof -
  from assms(1) have fd: "open_fds os < fd_limit os" and sz: "sz \<noteq> 0"
    by (auto simp: shm_segment_create_def shm_open_def shm_mmap_def Let_def split: if_splits)
  have os1: "os1 = os\<lparr>open_fds := Suc (open_fds os), live_maps := Suc (live_maps os),
         shm_objs := (shm_objs os)(name \<mapsto> created_payload os name sz)\<rparr>"
    and a1: "seg_addr seg1 = Some name"
    using assms(1) shm_segment_create_ok [OF fd sz, of seg name] by auto
  then have "shm_objs os1 name \<noteq> None" by simp
  from shm_segment_attach_ok [OF this assms(2,3), of seg2] assms(4)
  have "r = 0" "seg_addr seg3 = Some name" "shm_objs os2 = shm_objs os1" by auto
  with a1 os1 show ?thesis by (simp add: created_payload_def)
qed

lemma shm_segment_destroy_unlinks:
  "shm_segment_destroy seg os = (r, os') \<Longrightarrow> shm_objs os' (cstr (shm_name seg)) = None"
  by (auto simp: shm_segment_destroy_def)
lemma proxy_shm_name_short: "length (proxy_shm_name i) < SHM_NAME_LEN"
  by (simp add: proxy_shm_name_def SHM_NAME_LEN_def)

lemma proxy_shm_name_no_nul: "CHR 0x00 \<notin> set (proxy_shm_name i)"
proof
  assume "CHR 0x00 \<in> set (proxy_shm_name i)"
  then have "CHR 0x00 \<in> set (''/proxy_shm_'' @ decimal i)"
    by (auto simp: proxy_shm_name_def dest: in_set_takeD)
  then show False
    using decimal_digits is_digit_not_nul by fastforce
qed

lemma cstr_proxy_shm_name [simp]: "cstr (strncpy SHM_NAME_LEN (proxy_shm_name i)) = proxy_shm_name i"
  by (rule cstr_strncpy [OF proxy_shm_name_short proxy_shm_name_no_nul])

lemma proxy_shm_name_eq: "i < 10 ^ 50 \<Longrightarrow> proxy_shm_name i = ''/proxy_shm_'' @ decimal i"
proof -
  assume "i < 10 ^ 50"
  then have "length (decimal i) \<le> 50"
    using length_decimal_le [of i 49] by simp
  then show ?thesis by (simp add: proxy_shm_name_def SHM_NAME_LEN_def)
qed

lemma proxy_shm_name_inj:
  "i < 10 ^ 50 \<Longrightarrow> j < 10 ^ 50 \<Longrightarrow> proxy_shm_name i = proxy_shm_name j \<Longrightarrow> i = j"
  by (simp add: proxy_shm_name_eq decimal_inj)


lemma create_segments_from_step:
  assumes "open_fds os < fd_limit os" and "segsize \<noteq> 0"
  shows "create_segments_from i (Suc k) segsize free os =
     create_segments_from (Suc i) k segsize
       (free @ [fresh_segment\<lparr>shm_name := strncpy SHM_NAME_LEN (proxy_shm_name i), seg_size := segsize,
                seg_fd := int (open_fds os) + 3, seg_addr := Some (proxy_shm_name i)\<rparr>])
       (os\<lparr>open_fds := Suc (open_fds os), live_maps := Suc (live_maps os),
         shm_objs := (shm_objs os)(proxy_shm_name i \<mapsto> created_payload os (proxy_shm_name i) segsize)\<rparr>)"
  by (simp add: shm_segment_create_ok [OF assms])


lemma create_segments_from_names:
  "open_fds os + k \<le> fd_limit os \<Longrightarrow> segsize \<noteq> 0 \<Longrightarrow>
   create_segments_from i k segsize free os = (free', os') \<Longrightarrow>
   map (\<lambda>s. cstr (shm_name s)) free' = map (\<lambda>s. cstr (shm_name s)) free @ map proxy_shm_name [i..<i+k]
   \<and> (\<forall>s \<in> set free' - set free. seg_size s = segsize) \<and> open_fds os' = open_fds os + k"
proof (induction k arbitrary: i free os)
  case 0
  then show ?case by auto
next
  case (Suc k)
  then have fd: "open_fds os < fd_limit os" by simp
  let ?seg = "fresh_segment\<lparr>shm_name := strncpy SHM_NAME_LEN (proxy_shm_name i), seg_size := segsize,
                seg_fd := int (open_fds os) + 3, seg_addr := Some (proxy_shm_name i)\<rparr>"
  let ?os1 = "os\<lparr>open_fds := Suc (open_fds os), live_maps := Suc (live_maps os),
         shm_objs := (shm_objs os)(proxy_shm_name i \<mapsto> created_payload os (proxy_shm_name i) segsize)\<rparr>"
  have rest: "create_segments_from (Suc i) k segsize (free @ [?seg]) ?os1 = (free', os')"
    using Suc.prems(3) by (simp only: create_segments_from_step [OF fd Suc.prems(2)])
  have "open_fds ?os1 + k \<le> fd_limit ?os1" using Suc.prems(1) by simp
  note IH = Suc.IH [OF this Suc.prems(2) rest]
  have "[i..<i + Suc k] = i # [Suc i..<Suc i + k]" by (simp add: upt_conv_Cons)
  with IH show ?case by auto
qed


lemma create_segments_from_objs:
  "open_fds os + k \<le> fd_limit os \<Longrightarrow> segsize \<noteq> 0 \<Longrightarrow>
   create_segments_from i k segsize free os = (free', os') \<Longrightarrow>
   (\<forall>n. n \<notin> proxy_shm_name ` {i..<i+k} \<longrightarrow> shm_objs os' n = shm_objs os n) \<and>
   (\<forall>j. i \<le> j \<and> j < i + k \<longrightarrow>
      (\<exists>p. shm_objs os' (proxy_shm_name j) = Some p \<and> sem_proxy_ready p = 0 \<and> sem_cache_ready p = 0))"
proof (induction k arbitrary: i free os)
  case 0
  then show ?case by auto
next
  case (Suc k)
  then have fd: "open_fds os < fd_limit os" by simp
  let ?seg = "fresh_segment\<lparr>shm_name := strncpy SHM_NAME_LEN (proxy_shm_name i), seg_size := segsize,
                seg_fd := int (open_fds os) + 3, seg_addr := Some (proxy_shm_name i)\<rparr>"
  let ?os1 = "os\<lparr>open_fds := Suc (open_fds os), live_maps := Suc (live_maps os),
         shm_objs := (shm_objs os)(proxy_shm_name i \<mapsto> created_payload os (proxy_shm_name i) segsize)\<rparr>"
  have rest: "create_segments_from (Suc i) k segsize (free @ [?seg]) ?os1 = (free', os')"
    using Suc.prems(3) by (simp only: create_segments_from_step [OF fd Suc.prems(2)])
  have "open_fds ?os1 + k \<le> fd_limit ?os1" using Suc.prems(1) by simp
  note IH = Suc.IH [OF this Suc.prems(2) rest]
  have range: "{i..<i + Suc k} = insert i {Suc i..<Suc i + k}" by auto
  show ?case
  proof (intro conjI allI impI)
    fix n
    assume "n \<notin> proxy_shm_name ` {i..<i + Suc k}"
    then have "n \<noteq> proxy_shm_name i" and "n \<notin> proxy_shm_name ` {Suc i..<Suc i + k}"
      by (auto simp: range)
    then show "shm_objs os' n = shm_objs os n"
      using IH by simp
  next
    fix j
    assume j: "i \<le> j \<and> j < i + Suc k"
    show "\<exists>p. shm_objs os' (proxy_shm_name j) = Some p \<and> sem_proxy_ready p = 0 \<and> sem_cache_ready p = 0"
    proof (cases "Suc i \<le> j \<or> proxy_shm_name j \<in> proxy_shm_name ` {Suc i..<Suc i + k}")
      case True
      then obtain j' where "Suc i \<le> j' \<and> j' < Suc i + k" and "proxy_shm_name j = proxy_shm_name j'"
        using j by auto
      with IH show ?thesis by metis
    next
      case False
      with j have "j = i" by simp
      with False IH show ?thesis by (simp add: created_payload_def)
    qed
  qed
qed

text \<open>
  C33: with enough free descriptors and a non-zero segment size, \<open>create_n_segments\<close>
  returns exactly the channels \<open>/proxy_shm_0\<close> .. \<open>/proxy_shm_(n-1)\<close> in order,
  under pairwise distinct names, each of the requested size, and each name holds
  a payload whose two semaphores are initialised to 0.
\<close>

theorem create_n_segments_ok:
  assumes "open_fds os + n \<le> fd_limit os" and "segsize \<noteq> 0" and "n \<le> 2 ^ 31"
    and "create_n_segments n segsize [] os = (pool, os')"
  shows "map (\<lambda>s. cstr (shm_name s)) pool = map proxy_shm_name [0..<n]
     \<and> distinct (map (\<lambda>s. cstr (shm_name s)) pool)
     \<and> (\<forall>s \<in> set pool. seg_size s = segsize)
     \<and> (\<forall>i < n. \<exists>p. shm_objs os' (proxy_shm_name i) = Some p \<and>
                     sem_proxy_ready p = 0 \<and> sem_cache_ready p = 0)"
proof -
  from assms(4) have c: "create_segments_from 0 n segsize [] os = (pool, os')"
    by (simp add: create_n_segments_def)
  note names = create_segments_from_names [OF assms(1,2) c]
  note objs = create_segments_from_objs [OF assms(1,2) c]
  have "inj_on proxy_shm_name {0..<n}"
  proof (rule inj_onI)
    fix i j
    assume "i \<in> {0..<n}" "j \<in> {0..<n}" "proxy_shm_name i = proxy_shm_name j"
    moreover have "(2::nat) ^ 31 < 10 ^ 50" by simp
    ultimately show "i = j" using assms(3) proxy_shm_name_inj by fastforce
  qed
  then have "distinct (map proxy_shm_name [0..<n])" by (simp add: distinct_map)
  with names objs show ?thesis by auto
qed

theorem create_n_segments_ok_witness:
  "map (\<lambda>s. cstr (shm_name s)) (fst (create_n_segments 2 5712 [] (initial_os 16)))
     = [''/proxy_shm_0'', ''/proxy_shm_1'']"
proof -
  obtain pool os' where c: "create_n_segments 2 5712 [] (initial_os 16) = (pool, os')"
    by (metis prod.exhaust)
  have "map (\<lambda>s. cstr (shm_name s)) pool = map proxy_shm_name [0..<2]"
    using create_n_segments_ok [OF _ _ _ c] by (simp add: initial_os_def)
  moreover have "map proxy_shm_name [0..<2] = [''/proxy_shm_0'', ''/proxy_shm_1'']"
    by code_simp
  ultimately show ?thesis using c by simp
qed

theorem create_then_attach_witness:
  "fst (shm_segment_attach fresh_segment ''/proxy_shm_0'' 5712
          (snd (snd (shm_segment_create fresh_segment ''/proxy_shm_0'' 5712 (initial_os 16))))) = 0"
proof -
  obtain r seg1 os1 where c: "shm_segment_create fresh_segment ''/proxy_shm_0'' 5712 (initial_os 16) = (r, seg1, os1)"
    by (metis prod_cases3)
  then have r: "r = 0" and fd: "open_fds os1 < fd_limit os1"
    by (auto simp: shm_segment_create_ok initial_os_def)
  obtain r' seg3 os2 where a: "shm_segment_attach fresh_segment ''/proxy_shm_0'' 5712 os1 = (r', seg3, os2)"
    by (metis prod_cases3)
  from create_then_attach [OF c [unfolded r] fd _ a] have "r' = 0" by simp
  with c a show ?thesis by simp
qed

theorem shm_segment_attach_missing_witness:
  "shm_segment_attach fresh_segment ''/proxy_shm_9'' 5712 (initial_os 16)
     = (-1, snd (shm_segment_attach fresh_segment ''/proxy_shm_9'' 5712 (initial_os 16)))
   \<and> snd (snd (shm_segment_attach fresh_segment ''/proxy_shm_9'' 5712 (initial_os 16))) = initial_os 16"
proof -
  obtain r seg' os' where a: "shm_segment_attach fresh_segment ''/proxy_shm_9'' 5712 (initial_os 16) = (r, seg', os')"
    by (metis prod_cases3)
  from shm_segment_attach_missing [OF _ a] have "r = -1 \<and> os' = initial_os 16"
    by (simp add: initial_os_def)
  with a show ?thesis by simp
qed
end
