(* ===== verification/Control.thy ===== *)
theory Control
  imports ShmChannel
begin

text \<open>
  The control-socket protocol: the request line the proxy formats in
  \<open>handle_with_cache\<close> (\<open>src/cache/handle_with_cache.c\<close>,
  \<open>snprintf(request, 1024, "%s %s %zu\n", ...)\<close>) and the boss loop of
  \<open>src/cache/simplecached.c\<close> that reads one connection, tokenises the line with
  \<open>strtok\<close>, converts the size with \<open>atol\<close> and builds a \<open>cache_task_t\<close>.
  The C library functions are modelled as glibc implements them: \<open>strtok\<close>
  skips leading delimiters and keeps its position in the string between calls;
  \<open>atol\<close> is \<open>strtol(s, NULL, 10)\<close>, which skips white space, reads an optional
  sign and the longest run of digits, and clamps to the range of \<open>long\<close>.
\<close>

record cache_task =
  task_shm_name :: string
  task_key :: string
  task_segment_size :: size_t

definition MAX_CACHE_REQUEST_LEN :: nat where
  "MAX_CACHE_REQUEST_LEN = 6100"

definition PROXY_REQUEST_LEN :: nat where
  "PROXY_REQUEST_LEN = 1024"

definition TASK_KEY_LEN :: nat where
  "TASK_KEY_LEN = 1024"

text \<open>
  The proxy's request: \<open>snprintf\<close> into \<open>char request[1024]\<close> writes at most 1023
  characters of the formatted line; \<open>%s\<close> prints a C string, \<open>%zu\<close> the decimal
  value of the \<open>size_t\<close>.
\<close>

definition format_request :: "string \<Rightarrow> string \<Rightarrow> size_t \<Rightarrow> string" where
  "format_request name path segsize =
     take (PROXY_REQUEST_LEN - 1)
       (cstr name @ '' '' @ cstr path @ '' '' @ decimal (unat segsize) @ ''\<newline>'')"

definition strtok :: "char list \<Rightarrow> string \<Rightarrow> string option \<times> string" where
  "strtok delims s =
     (let s1 = dropWhile (\<lambda>c. c \<in> set delims) s
      in if s1 = [] then (None, [])
         else (Some (takeWhile (\<lambda>c. c \<notin> set delims) s1),
               drop 1 (dropWhile (\<lambda>c. c \<notin> set delims) s1)))"

definition is_space :: "char \<Rightarrow> bool" where
  "is_space c \<longleftrightarrow> c \<in> set '' \<newline>'' \<or> c = CHR 0x09 \<or> c = CHR 0x0B \<or> c = CHR 0x0C \<or> c = CHR 0x0D"

definition LONG_MAX :: int where
  "LONG_MAX = 2 ^ 63 - 1"

definition atol :: "string \<Rightarrow> int" where
  "atol s =
     (let s1 = dropWhile is_space s;
          neg = (case s1 of c # _ \<Rightarrow> c = CHR ''-'' | [] \<Rightarrow> False);
          s2 = (case s1 of c # cs \<Rightarrow> if c = CHR ''-'' \<or> c = CHR ''+'' then cs else s1 | [] \<Rightarrow> []);
          v = int (digits_val (takeWhile is_digit s2))
      in if neg then max (- LONG_MAX - 1) (- v) else min LONG_MAX v)"

text \<open>
  What the boss does with one accepted connection, from the bytes it receives:
  \<open>read(client_fd, buf, sizeof(buf) - 1)\<close> (one read of at most 6099 bytes), skip
  when nothing was read, then three \<open>strtok\<close> calls, the size fallback, the
  newline trim of the key and only then the NULL check. The trim
  \<open>key[strcspn(key, "\n")] = '\0'\<close> dereferences \<open>key\<close> before it is checked, so
  a line with fewer than two tokens is a crash of the daemon (\<open>BossCrash\<close>),
  not a dropped request.
\<close>

text \<open>A token the protocol carries unchanged: non-empty, no blank, newline or NUL.\<close>

definition valid_token :: "string \<Rightarrow> bool" where
  "valid_token t \<longleftrightarrow> t \<noteq> [] \<and> (\<forall>c \<in> set t. c \<noteq> CHR '' '' \<and> c \<noteq> CHR ''\<newline>'' \<and> c \<noteq> CHR 0x00)"

datatype boss_outcome = BossSkip | BossCrash | BossTask cache_task

definition boss_handle :: "string \<Rightarrow> boss_outcome" where
  "boss_handle msg =
     (let buf = take (MAX_CACHE_REQUEST_LEN - 1) msg
      in if buf = [] then BossSkip
         else
           let (shm_name_tok, r1) = strtok '' '' (cstr buf);
               (key_tok, r2) = strtok '' '' r1;
               (size_tok, r3) = strtok '' \<newline>'' r2;
               segment_size = (case size_tok of None \<Rightarrow> SHM_SEGMENT_SIZE
                               | Some t \<Rightarrow> word_of_int (atol t))
           in case key_tok of
                None \<Rightarrow> BossCrash
              | Some k \<Rightarrow>
                  (case shm_name_tok of
                     None \<Rightarrow> BossSkip
                   | Some nm \<Rightarrow>
                       BossTask \<lparr>task_shm_name = strncpy SHM_NAME_LEN nm,
                                 task_key = strncpy TASK_KEY_LEN
                                              (takeWhile (\<lambda>c. c \<noteq> CHR ''\<newline>'') k),
                                 task_segment_size = segment_size\<rparr>))"

text \<open>
  Reference tokenisation, independent of \<open>strtok\<close>: split a line at every
  occurrence of the delimiter and drop the empty pieces.
\<close>

fun split_at :: "char \<Rightarrow> string \<Rightarrow> string list" where
  "split_at d [] = [[]]"
| "split_at d (x # xs) = (if x = d then [] # split_at d xs else (x # hd (split_at d xs)) # tl (split_at d xs))"

definition tokens :: "char \<Rightarrow> string \<Rightarrow> string list" where
  "tokens d s = filter (\<lambda>w. w \<noteq> []) (split_at d s)"

subsection \<open>Properties\<close>

lemma split_at_ne: "split_at d s \<noteq> []"
  by (induction s) auto

lemma split_at_word:
  "d \<notin> set w \<Longrightarrow> split_at d (w @ rest) = (w @ hd (split_at d rest)) # tl (split_at d rest)"
  by (induction w) (auto simp: split_at_ne)

lemma tokens_delim [simp]: "tokens d (d # r) = tokens d r"
  by (simp add: tokens_def)

lemma tokens_dropWhile: "tokens d (dropWhile (\<lambda>c. c = d) s) = tokens d s"
  by (induction s) auto

lemma tokens_word:
  assumes "d \<notin> set w" and "w \<noteq> []" and "rest = [] \<or> hd rest = d"
  shows "tokens d (w @ rest) = w # tokens d (drop 1 rest)"
proof (cases rest)
  case Nil
  then show ?thesis using assms(1,2) split_at_word [OF assms(1), of "[]"] by (simp add: tokens_def)
next
  case (Cons x r)
  with assms(3) have "rest = d # r" by simp
  then show ?thesis using assms(1,2) split_at_word [OF assms(1), of rest] by (simp add: tokens_def)
qed

text \<open>\<open>strtok\<close> with one delimiter enumerates the reference tokens, one per call.\<close>

lemma strtok_tokens:
  assumes "strtok [d] s = (t, r)"
  shows "t = None \<longleftrightarrow> tokens d s = []" and "t = Some w \<Longrightarrow> tokens d s = w # tokens d r"
proof -
  define s1 where "s1 = dropWhile (\<lambda>c. c = d) s"
  define w1 where "w1 = takeWhile (\<lambda>c. c \<noteq> d) s1"
  define rest where "rest = dropWhile (\<lambda>c. c \<noteq> d) s1"
  have tk: "tokens d s = tokens d s1" unfolding s1_def by (rule tokens_dropWhile [symmetric])
  have st: "strtok [d] s = (if s1 = [] then (None, []) else (Some w1, drop 1 rest))"
    unfolding strtok_def s1_def w1_def rest_def Let_def by simp
  show "t = None \<longleftrightarrow> tokens d s = []" and "t = Some w \<Longrightarrow> tokens d s = w # tokens d r"
  proof (atomize (full), cases "s1 = []")
    case True
    then have "t = None" "tokens d s = []" using assms st tk by (simp_all add: tokens_def)
    then show "(t = None \<longleftrightarrow> tokens d s = []) \<and> (t = Some w \<longrightarrow> tokens d s = w # tokens d r)" by simp
  next
    case False
    then have h: "\<not> hd s1 = d" unfolding s1_def by (rule hd_dropWhile)
    from False h have ne: "w1 \<noteq> []" unfolding w1_def by (cases s1) simp_all
    have dw: "d \<notin> set w1" unfolding w1_def by (blast dest: set_takeWhileD)
    have hr: "rest = [] \<or> hd rest = d"
    proof (cases "rest = []")
      case False
      then have "\<not> hd rest \<noteq> d" unfolding rest_def by (rule hd_dropWhile)
      then show ?thesis by simp
    qed simp
    have sp: "s1 = w1 @ rest" unfolding w1_def rest_def by (rule takeWhile_dropWhile_id [symmetric])
    have "tokens d s = w1 # tokens d (drop 1 rest)"
      unfolding tk sp by (rule tokens_word [OF dw ne hr])
    moreover have "t = Some w1" "r = drop 1 rest" using assms st False by simp_all
    ultimately show "(t = None \<longleftrightarrow> tokens d s = []) \<and> (t = Some w \<longrightarrow> tokens d s = w # tokens d r)" by simp
  qed
qed

lemma strtok_token_delim:
  assumes "tok \<noteq> []" and "\<forall>c \<in> set tok. c \<notin> set delims" and "d \<in> set delims"
  shows "strtok delims (tok @ d # rest) = (Some tok, rest)"
proof -
  from assms(1) obtain x xs where tok: "tok = x # xs" by (cases tok) auto
  have "takeWhile (\<lambda>c. c \<notin> set delims) (tok @ d # rest) = tok"
    using assms(2,3) by (simp add: takeWhile_append2)
  moreover have "dropWhile (\<lambda>c. c \<notin> set delims) (tok @ d # rest) = d # rest"
    using assms(2,3) by (simp add: dropWhile_append2)
  ultimately show ?thesis using assms(2) tok by (simp add: strtok_def)
qed

lemma strtok_token_end:
  assumes "tok \<noteq> []" and "\<forall>c \<in> set tok. c \<notin> set delims"
  shows "strtok delims tok = (Some tok, [])"
proof -
  from assms(1) obtain x xs where tok: "tok = x # xs" by (cases tok) auto
  have "dropWhile (\<lambda>c. c \<notin> set delims) tok = []"
    using assms(2) by (simp add: dropWhile_eq_Nil_conv)
  moreover have "takeWhile (\<lambda>c. c \<notin> set delims) tok = tok"
    using assms(2) by (simp add: takeWhile_eq_all_conv)
  moreover have "dropWhile (\<lambda>c. c \<in> set delims) tok = tok"
    using assms(2) tok by simp
  ultimately show ?thesis using assms(1)
    by (simp add: strtok_def del: dropWhile_eq_Nil_conv takeWhile_eq_all_conv)
qed

lemma is_digit_not_special:
  "is_digit c \<Longrightarrow> \<not> is_space c \<and> c \<noteq> CHR ''-'' \<and> c \<noteq> CHR ''+'' \<and> c \<noteq> CHR '' '' \<and> c \<noteq> CHR ''\<newline>''"
  by (auto simp: is_digit_def is_space_def)

lemma atol_decimal: "atol (decimal n) = min LONG_MAX (int n)"
proof -
  obtain x xs where d: "decimal n = x # xs" by (cases "decimal n") auto
  then have x: "is_digit x" using decimal_digits by (metis list.set_intros(1))
  have "takeWhile is_digit xs = xs"
    using decimal_digits d by (metis list.set_intros(2) takeWhile_eq_all_conv)
  moreover have "digits_val (x # xs) = n" using d digits_val_decimal by metis
  ultimately show ?thesis using x d is_digit_not_special [OF x]
    by (simp add: atol_def del: takeWhile_eq_all_conv)
qed


lemma valid_token_cstr: "valid_token t \<Longrightarrow> cstr t = t"
  by (auto simp: valid_token_def intro!: cstr_no_nul)

lemma decimal_no_special: "c \<in> set (decimal n) \<Longrightarrow> c \<noteq> CHR '' '' \<and> c \<noteq> CHR ''\<newline>'' \<and> c \<noteq> CHR 0x00"
  using decimal_digits is_digit_not_special is_digit_not_nul by blast

lemma unat_le_LONG_MAX: "unat (w::size_t) < 2 ^ 63 \<Longrightarrow> int (unat w) \<le> LONG_MAX"
  unfolding LONG_MAX_def by (metis int_ops(3) of_nat_less_iff of_nat_power zle_diff1_eq)

lemma boss_handle_format_request:
  assumes name: "valid_token name" and path: "valid_token path"
    and short_name: "length name < SHM_NAME_LEN"
    and fits: "length (name @ '' '' @ path @ '' '' @ decimal (unat segsize) @ ''\<newline>'') < PROXY_REQUEST_LEN"
    and small: "unat segsize < 2 ^ 63"
  shows "boss_handle (format_request name path segsize) =
           BossTask \<lparr>task_shm_name = strncpy SHM_NAME_LEN name,
                     task_key = strncpy TASK_KEY_LEN path, task_segment_size = segsize\<rparr>"
proof -
  let ?num = "decimal (unat segsize)"
  let ?line = "name @ CHR '' '' # path @ CHR '' '' # ?num @ ''\<newline>''"
  have fmt: "format_request name path segsize = ?line"
    using fits name path by (simp add: format_request_def valid_token_cstr)
  have buf: "take (MAX_CACHE_REQUEST_LEN - 1) ?line = ?line" and nonempty: "?line \<noteq> []"
    using fits by (simp_all add: MAX_CACHE_REQUEST_LEN_def PROXY_REQUEST_LEN_def)
  have "CHR 0x00 \<notin> set ?line"
    using name path decimal_no_special by (auto simp: valid_token_def)
  then have c: "cstr ?line = ?line" by simp
  have t1: "strtok '' '' ?line = (Some name, path @ CHR '' '' # ?num @ ''\<newline>'')"
    using name strtok_token_delim [of name "'' ''" "CHR '' ''"] by (simp add: valid_token_def)
  have t2: "strtok '' '' (path @ CHR '' '' # ?num @ ''\<newline>'') = (Some path, ?num @ ''\<newline>'')"
    using path strtok_token_delim [of path "'' ''" "CHR '' ''"] by (simp add: valid_token_def)
  have t3: "strtok '' \<newline>'' (?num @ ''\<newline>'') = (Some ?num, [])"
    using strtok_token_delim [of ?num "'' \<newline>''" "CHR ''\<newline>''" "[]"] decimal_no_special
    by auto
  have "atol ?num = int (unat segsize)"
    using unat_le_LONG_MAX [OF small] by (simp add: atol_decimal min_def)
  then have sz: "word_of_int (atol ?num) = segsize" by simp
  have k: "takeWhile (\<lambda>c. c \<noteq> CHR ''\<newline>'') path = path"
    using path by (simp add: valid_token_def)
  show ?thesis
    unfolding fmt boss_handle_def Let_def buf c
    using nonempty by (simp only: if_False t1 t2 t3 prod.case option.case sz k)
qed

text \<open>
  C4: round trip of the control message. For a channel name and a request path
  that are non-empty and free of blanks, newlines and NULs, a name that fits
  \<open>char shm_name[64]\<close>, a line that fits the proxy's 1024-byte buffer and a
  capacity below \<open>LONG_MAX\<close>, the task the boss builds from the proxy's request
  carries exactly that name, that path as key and that capacity.
\<close>

corollary request_roundtrip:
  assumes "valid_token name" and "valid_token path" and "length name < SHM_NAME_LEN"
    and "length (name @ '' '' @ path @ '' '' @ decimal (unat segsize) @ ''\<newline>'') < PROXY_REQUEST_LEN"
    and "unat segsize < 2 ^ 63"
  shows "boss_handle (format_request name path segsize) =
           BossTask \<lparr>task_shm_name = strncpy SHM_NAME_LEN name,
                     task_key = strncpy TASK_KEY_LEN path, task_segment_size = segsize\<rparr>"
  using assms by (rule boss_handle_format_request)


lemma strtok_None: "strtok d s = (None, r) \<Longrightarrow> r = []"
  by (auto simp: strtok_def Let_def split: if_splits)

lemma strtok_Nil [simp]: "strtok d [] = (None, [])"
  by (simp add: strtok_def)

text \<open>
  C36: the guard \<open>if (!shm_name || !key) continue;\<close> never fires: the boss skips a
  connection only when nothing was read.
\<close>

theorem boss_skip_iff: "boss_handle msg = BossSkip \<longleftrightarrow> msg = []"
proof
  assume skip: "boss_handle msg = BossSkip"
  show "msg = []"
  proof (rule ccontr)
    assume "msg \<noteq> []"
    then have ne: "take (MAX_CACHE_REQUEST_LEN - 1) msg \<noteq> []"
      by (simp add: MAX_CACHE_REQUEST_LEN_def)
    obtain t1 r1 where s1: "strtok '' '' (cstr (take (MAX_CACHE_REQUEST_LEN - 1) msg)) = (t1, r1)"
      by fastforce
    obtain t2 r2 where s2: "strtok '' '' r1 = (t2, r2)" by fastforce
    obtain t3 r3 where s3: "strtok '' \<newline>'' r2 = (t3, r3)" by fastforce
    from skip ne s1 s2 s3 have "t2 \<noteq> None" and "t1 = None"
      by (auto simp: boss_handle_def split: option.splits)
    with s1 s2 show False using strtok_None by fastforce
  qed
next
  assume "msg = []"
  then show "boss_handle msg = BossSkip" by (simp add: boss_handle_def)
qed

lemma boss_crash_strtok:
  "boss_handle msg = BossCrash \<longleftrightarrow>
     msg \<noteq> [] \<and> fst (strtok '' '' (snd (strtok '' '' (cstr (take (MAX_CACHE_REQUEST_LEN - 1) msg))))) = None"
proof -
  obtain t1 r1 where s1: "strtok '' '' (cstr (take (MAX_CACHE_REQUEST_LEN - 1) msg)) = (t1, r1)"
    by fastforce
  obtain t2 r2 where s2: "strtok '' '' r1 = (t2, r2)" by fastforce
  obtain t3 r3 where s3: "strtok '' \<newline>'' r2 = (t3, r3)" by fastforce
  have ne: "msg \<noteq> [] \<Longrightarrow> take (MAX_CACHE_REQUEST_LEN - 1) msg \<noteq> []"
    by (simp add: MAX_CACHE_REQUEST_LEN_def)
  show ?thesis
    using s1 s2 s3 ne by (auto simp: boss_handle_def split: option.splits)
qed

text \<open>
  C29: the boss crashes (dereferences a NULL key in \<open>key[strcspn(key, "\n")]\<close>) on
  exactly the non-empty messages whose line (the bytes read, up to the first NUL)
  has fewer than two blank-separated tokens, counted by the reference
  tokenisation \<open>tokens\<close>; the spec says such a malformed line is dropped
  silently.
\<close>

theorem boss_crash_iff:
  "boss_handle msg = BossCrash \<longleftrightarrow>
     msg \<noteq> [] \<and> length (tokens CHR '' '' (cstr (take (MAX_CACHE_REQUEST_LEN - 1) msg))) < 2"
proof -
  let ?line = "cstr (take (MAX_CACHE_REQUEST_LEN - 1) msg)"
  obtain t1 r1 where s1: "strtok [CHR '' ''] ?line = (t1, r1)" by fastforce
  obtain t2 r2 where s2: "strtok [CHR '' ''] r1 = (t2, r2)" by fastforce
  have "t2 = None \<longleftrightarrow> length (tokens CHR '' '' ?line) < 2"
  proof (cases t1)
    case None
    then have "r1 = []" using s1 strtok_None by blast
    then show ?thesis using s1 s2 None strtok_tokens(1) [OF s1] by simp
  next
    case (Some w)
    then show ?thesis using strtok_tokens(2) [OF s1 Some] strtok_tokens(1) [OF s2] by simp
  qed
  then show ?thesis using s1 s2 boss_crash_strtok [of msg] by simp
qed

theorem boss_crash_iff_witness: "boss_handle ''/proxy_shm_0\<newline>'' = BossCrash"
  by (subst boss_crash_iff) code_simp


theorem request_roundtrip_witness:
  "boss_handle (format_request ''/proxy_shm_0'' ''/a.txt'' 4088) =
     BossTask \<lparr>task_shm_name = strncpy SHM_NAME_LEN ''/proxy_shm_0'',
               task_key = strncpy TASK_KEY_LEN ''/a.txt'', task_segment_size = 4088\<rparr>"
  by (rule request_roundtrip;
      simp add: valid_token_def SHM_NAME_LEN_def PROXY_REQUEST_LEN_def decimal.simps)

end
