(* ===== verification/CacheWorker.thy ===== *)
theory CacheWorker
  imports Control
begin

text \<open>
  The worker threads of the cache daemon (\<open>_worker_thread\<close> in
  \<open>src/cache/simplecached.c\<close>). One task is split in two as the code is:
  \<open>worker_task\<close> is the set-up (attach the named channel, look the key up in the
  content store, \<open>dup\<close> the file descriptor, store the file size) and ends in one
  of the outcomes of \<open>worker_result\<close>; \<open>worker_stream\<close> is the chunk loop, seen
  from the producer: the sequence of payload states it publishes with
  \<open>sem_post(&payload->sem_proxy_ready)\<close>, under the assumption that each of its
  \<open>sem_wait(&payload->sem_cache_ready)\<close> returns. The semaphore counts are
  not part of this view; the interleaving with the proxy, semaphores included,
  is the theory \<open>Handshake\<close>. The content store (\<open>simplecache_get\<close>, a library
  outside \<open>src/\<close>) is a map from keys to file contents.
\<close>

type_synonym content_store = "string \<rightharpoonup> byte list"

text \<open>
  \<open>pread(fd, buf, count, offset)\<close> on a regular file: the bytes from
  \<open>offset\<close> on, at most \<open>count\<close> of them; none at or past the end.
\<close>

definition pread :: "byte list \<Rightarrow> size_t \<Rightarrow> nat \<Rightarrow> byte list" where
  "pread content count off = take (unat count) (drop off content)"

text \<open>\<open>size_t max_chunk_size = task->segment_size - sizeof(*payload)\<close>, wrapping.\<close>

definition max_chunk_size :: "size_t \<Rightarrow> size_t" where
  "max_chunk_size segment_size = segment_size - payload_header_size"

text \<open>
  The loop body: read the next slice into \<open>payload->data\<close>; on a zero-byte read
  publish an empty last chunk and stop; otherwise advance the offset, set
  \<open>datalen\<close>, set \<open>is_last_chunk = (n < (ssize_t)max_chunk_size)\<close> (a signed
  comparison), publish, and continue unless the chunk was the last.
\<close>

function worker_stream :: "size_t \<Rightarrow> byte list \<Rightarrow> nat \<Rightarrow> shm_payload \<Rightarrow> shm_payload list" where
  "worker_stream maxc content off p =
     (let buf = pread content maxc off; n = length buf
      in if n = 0 then [p\<lparr>datalen := 0, is_last_chunk := 1\<rparr>]
         else
           let p' = p\<lparr>pdata := buf @ drop n (pdata p), datalen := word_of_nat n,
                      is_last_chunk := (if int n < sint maxc then 1 else 0)\<rparr>
           in p' # (if is_last_chunk p' \<noteq> 0 then [] else worker_stream maxc content (off + n) p'))"
  by pat_completeness auto
termination
  by (relation "measure (\<lambda>(maxc, content, off, p). length content - off)") (auto simp: pread_def)

declare worker_stream.simps [simp del]

text \<open>
  The set-up of one task. \<open>AttachFailed\<close>: the channel could not be mapped; the
  task is freed and nothing is posted. \<open>CacheMiss\<close>: the key is not in the store;
  an empty last chunk is posted. \<open>DupFailed\<close>: no descriptor left for \<open>dup\<close>;
  nothing is posted. \<open>WorkerStream maxc content p\<close>: the loop runs with this
  chunk size, this content and this initial payload (the file size stored).
  The returned namespace is the one after the task: \<open>dup\<close>'s descriptor is
  closed again at the end of the loop, but the segment attached for the task
  is never unmapped nor its descriptor closed. \<open>fstat\<close> of the descriptor just
  duplicated from a file of the store does not fail, so its error branch
  (lines 97-102) is not modelled.
\<close>

datatype worker_result =
    AttachFailed
  | CacheMiss
  | DupFailed
  | WorkerStream size_t "byte list" shm_payload

definition worker_task :: "content_store \<Rightarrow> cache_task \<Rightarrow> shm_os \<Rightarrow> worker_result \<times> shm_os" where
  "worker_task store task os =
     (let name = cstr (task_shm_name task);
          sz = task_segment_size task;
          (r, seg, os1) = shm_segment_attach fresh_segment name sz os
      in if r < 0 then (AttachFailed, os1)
         else
           let p = the (shm_objs os1 name)
           in case store (cstr (task_key task)) of
                None \<Rightarrow>
                  (CacheMiss,
                   os1\<lparr>shm_objs := (shm_objs os1)(name \<mapsto>
                     p\<lparr>datalen := 0, is_last_chunk := 1,
                       sem_proxy_ready := Suc (sem_proxy_ready p)\<rparr>)\<rparr>)
              | Some content \<Rightarrow>
                  if fd_limit os1 \<le> open_fds os1 then (DupFailed, os1)
                  else
                    let p1 = p\<lparr>total_file_size := word_of_nat (length content)\<rparr>
                    in (WorkerStream (max_chunk_size sz) content p1,
                        os1\<lparr>shm_objs := (shm_objs os1)(name \<mapsto> p1)\<rparr>))"

text \<open>A worker serving tasks one after another (the loop \<open>while (1)\<close>).\<close>

fun worker_run ::
  "content_store \<Rightarrow> cache_task list \<Rightarrow> shm_os \<Rightarrow> worker_result list \<times> shm_os" where
  "worker_run store [] os = ([], os)"
| "worker_run store (t # ts) os =
     (let (r, os1) = worker_task store t os;
          (rs, os2) = worker_run store ts os1
      in (r # rs, os2))"

text \<open>The bytes a published chunk carries: the first \<open>datalen\<close> bytes of \<open>data\<close>.\<close>

definition chunk_bytes :: "shm_payload \<Rightarrow> byte list" where
  "chunk_bytes p = take (unat (datalen p)) (pdata p)"

text \<open>A daemon namespace holding one channel and room for two descriptors.\<close>

definition leak_os :: shm_os where
  "leak_os = \<lparr>shm_objs = [''/proxy_shm_0'' \<mapsto> zero_payload 4088], open_fds = 0, fd_limit = 2, live_maps = 0\<rparr>"

definition miss_task :: cache_task where
  "miss_task = \<lparr>task_shm_name = strncpy SHM_NAME_LEN ''/proxy_shm_0'', task_key = strncpy TASK_KEY_LEN ''/missing.bin'',
                task_segment_size = 4088\<rparr>"

text \<open>
  A reference chunking of a file for a buffer of \<open>M\<close> bytes, written as a plain
  list function: full pieces of \<open>M\<close> bytes, then the remainder, which is
  empty when \<open>M\<close> divides the length (the zero-length read ends the stream).
\<close>

function chunks_ref :: "nat \<Rightarrow> 'a list \<Rightarrow> 'a list list" where
  "chunks_ref M xs = (if M = 0 \<or> length xs < M then [xs] else take M xs # chunks_ref M (drop M xs))"
  by pat_completeness auto
termination
  by (relation "measure (\<lambda>(M, xs). length xs)") auto

declare chunks_ref.simps [simp del]

text \<open>
  A payload fits its segment when its data area has the \<open>M\<close> bytes the segment
  leaves after the header and its \<open>datalen\<close> does not exceed them.
\<close>

definition payload_wf :: "size_t \<Rightarrow> shm_payload \<Rightarrow> bool" where
  "payload_wf maxc p \<longleftrightarrow> length (pdata p) = unat maxc \<and> unat (datalen p) \<le> unat maxc"

subsection \<open>The chunk loop\<close>

lemma sint_small: "unat (w::size_t) < 2 ^ 63 \<Longrightarrow> sint w = int (unat w)"
proof -
  assume a: "unat w < 2 ^ 63"
  have "uint w < 2 ^ 63"
    using a by (metis int_ops(3) of_nat_less_iff of_nat_power unat_eq_nat_uint uint_nonnegative nat_less_iff)
  moreover have "0 \<le> uint w" by simp
  moreover have "(0::int) \<le> 2 ^ 63" by simp
  ultimately have "signed_take_bit 63 (uint w) = uint w"
    by (intro signed_take_bit_int_eq_self) linarith+
  then show ?thesis by (simp add: sint_uint)
qed

lemma worker_stream_unfold:
  assumes "0 < unat maxc" and "unat maxc < 2 ^ 63"
  shows "worker_stream maxc content off p =
    (if length content \<le> off then [p\<lparr>datalen := 0, is_last_chunk := 1\<rparr>]
     else let n = min (unat maxc) (length content - off);
              p' = p\<lparr>pdata := take n (drop off content) @ drop n (pdata p), datalen := word_of_nat n,
                     is_last_chunk := (if n < unat maxc then 1 else 0)\<rparr>
          in p' # (if n < unat maxc then [] else worker_stream maxc content (off + n) p'))"
proof -
  have s: "sint maxc = int (unat maxc)" using assms(2) by (rule sint_small)
  have lt: "\<And>n. (int n < sint maxc) = (n < unat maxc)"
    by (simp only: s of_nat_less_iff)
  show ?thesis
    using assms(1)
    by (subst worker_stream.simps) (auto simp: pread_def lt Let_def min_def)
qed

lemma unat_of_nat_chunk: "n \<le> unat (maxc::size_t) \<Longrightarrow> unat (word_of_nat n :: size_t) = n"
  by (rule le_unat_uoi)

lemma unat_max_chunk_size:
  assumes "payload_header_size < segsize"
  shows "unat (max_chunk_size segsize) = unat segsize - 88"
proof -
  have "(88::size_t) \<le> segsize" using assms by (simp add: payload_header_size_def)
  then show ?thesis by (simp add: max_chunk_size_def payload_header_size_def unat_sub)
qed

lemma max_chunk_size_bounds:
  assumes "payload_header_size < segsize" and "unat segsize < 2 ^ 63"
  shows "0 < unat (max_chunk_size segsize)" and "unat (max_chunk_size segsize) < 2 ^ 63"
proof -
  have "88 < unat segsize" using assms(1) by (simp add: payload_header_size_def word_less_nat_alt)
  then show "0 < unat (max_chunk_size segsize)" "unat (max_chunk_size segsize) < 2 ^ 63"
    using assms(2) by (simp_all add: unat_max_chunk_size [OF assms(1)])
qed

lemma worker_stream_rule:
  assumes pos: "0 < unat maxc" and small: "unat maxc < 2 ^ 63"
    and fin: "\<And>off p. length content \<le> off \<Longrightarrow> Q off p [p\<lparr>datalen := 0, is_last_chunk := 1\<rparr>]"
    and last: "\<And>off p. off < length content \<Longrightarrow> length content - off < unat maxc \<Longrightarrow>
       Q off p [p\<lparr>pdata := drop off content @ drop (length content - off) (pdata p),
                  datalen := word_of_nat (length content - off), is_last_chunk := 1\<rparr>]"
    and full: "\<And>off p xs. off < length content \<Longrightarrow> unat maxc \<le> length content - off \<Longrightarrow>
       Q (off + unat maxc) (p\<lparr>pdata := take (unat maxc) (drop off content) @ drop (unat maxc) (pdata p),
                              datalen := maxc, is_last_chunk := 0\<rparr>) xs \<Longrightarrow>
       Q off p (p\<lparr>pdata := take (unat maxc) (drop off content) @ drop (unat maxc) (pdata p),
                  datalen := maxc, is_last_chunk := 0\<rparr> # xs)"
  shows "Q off p (worker_stream maxc content off p)"
proof (induction "length content - off" arbitrary: off p rule: less_induct)
  case less
  note u = worker_stream_unfold [OF pos small, of content off p]
  show ?case
  proof (cases "length content \<le> off")
    case True
    then show ?thesis by (simp add: u fin)
  next
    case False
    show ?thesis
    proof (cases "length content - off < unat maxc")
      case True
      with False show ?thesis by (simp add: u Let_def last min_def del: of_nat_diff)
    next
      case notlast: False
      have "length content - (off + unat maxc) < length content - off" using False pos by simp
      note IH = less [OF this]
      from False notlast show ?thesis by (simp add: u Let_def min_def full IH)
    qed
  qed
qed

text \<open>
  C26: chunk sizes. With a usable buffer of \<open>M\<close> bytes (\<open>0 < M < 2^63\<close>), the worker
  publishes, for the \<open>R\<close> bytes from the offset on, \<open>R div M\<close> full chunks of
  \<open>M\<close> bytes followed by exactly one chunk of \<open>R mod M\<close> bytes. When \<open>M\<close> divides
  a non-empty file this final chunk is empty: the file is sent in
  \<open>R div M + 1\<close> chunks, not in the \<open>ceil(R / M)\<close> chunks, the last one full,
  that the spec's round-trip property describes.
\<close>

lemma worker_stream_sizes:
  assumes "0 < unat maxc" and "unat maxc < 2 ^ 63"
  shows "map (\<lambda>q. unat (datalen q)) (worker_stream maxc content off p) =
           replicate ((length content - off) div unat maxc) (unat maxc) @ [(length content - off) mod unat maxc]"
proof (rule worker_stream_rule [OF assms, where Q = "\<lambda>off p xs. map (\<lambda>q. unat (datalen q)) xs =
           replicate ((length content - off) div unat maxc) (unat maxc) @ [(length content - off) mod unat maxc]"])
  fix off p
  assume "off < length content" and lt: "length content - off < unat maxc"
  then have "unat (word_of_nat (length content - off) :: size_t) = length content - off"
    by (intro unat_of_nat_chunk [of _ maxc]) simp
  with lt show "map (\<lambda>q. unat (datalen q))
      [p\<lparr>pdata := drop off content @ drop (length content - off) (pdata p),
          datalen := word_of_nat (length content - off), is_last_chunk := 1\<rparr>] =
    replicate ((length content - off) div unat maxc) (unat maxc) @ [(length content - off) mod unat maxc]"
    by (simp del: of_nat_diff)
next
  fix off p xs
  assume ge: "unat maxc \<le> length content - off"
    and IH: "map (\<lambda>q. unat (datalen q)) xs =
      replicate ((length content - (off + unat maxc)) div unat maxc) (unat maxc) @
      [(length content - (off + unat maxc)) mod unat maxc]"
  have d: "(length content - off) div unat maxc = Suc ((length content - (off + unat maxc)) div unat maxc)"
    and m: "(length content - off) mod unat maxc = (length content - (off + unat maxc)) mod unat maxc"
    using ge assms(1) by (simp_all add: le_div_geq le_mod_geq diff_diff_left)
  show "map (\<lambda>q. unat (datalen q))
      (p\<lparr>pdata := take (unat maxc) (drop off content) @ drop (unat maxc) (pdata p), datalen := maxc,
          is_last_chunk := 0\<rparr> # xs) =
    replicate ((length content - off) div unat maxc) (unat maxc) @ [(length content - off) mod unat maxc]"
    using IH by (simp add: d m)
qed simp

text \<open>
  C27: the last-chunk flag is 0 on every published chunk but the final one and 1
  on the final one.
\<close>

lemma worker_stream_flags:
  assumes "0 < unat maxc" and "unat maxc < 2 ^ 63"
  shows "map is_last_chunk (worker_stream maxc content off p) =
           replicate ((length content - off) div unat maxc) 0 @ [1]"
proof (rule worker_stream_rule [OF assms, where Q = "\<lambda>off p xs. map is_last_chunk xs =
           replicate ((length content - off) div unat maxc) 0 @ [1]"])
  fix off p xs
  assume ge: "unat maxc \<le> length content - off"
    and IH: "map is_last_chunk xs = replicate ((length content - (off + unat maxc)) div unat maxc) 0 @ [1]"
  have d: "(length content - off) div unat maxc = Suc ((length content - (off + unat maxc)) div unat maxc)"
    using ge assms(1) by (simp add: le_div_geq diff_diff_left)
  show "map is_last_chunk
      (p\<lparr>pdata := take (unat maxc) (drop off content) @ drop (unat maxc) (pdata p), datalen := maxc,
          is_last_chunk := 0\<rparr> # xs) =
    replicate ((length content - off) div unat maxc) 0 @ [1]"
    using IH by (simp add: d)
qed simp_all

lemma worker_stream_concat:
  assumes "0 < unat maxc" and "unat maxc < 2 ^ 63"
  shows "concat (map chunk_bytes (worker_stream maxc content off p)) = drop off content"
proof (rule worker_stream_rule [OF assms, where Q = "\<lambda>off p xs. concat (map chunk_bytes xs) = drop off content"])
  fix off p
  assume "off < length content" and lt: "length content - off < unat maxc"
  then have "unat (word_of_nat (length content - off) :: size_t) = length content - off"
    by (intro unat_of_nat_chunk [of _ maxc]) simp
  then show "concat (map chunk_bytes
      [p\<lparr>pdata := drop off content @ drop (length content - off) (pdata p),
          datalen := word_of_nat (length content - off), is_last_chunk := 1\<rparr>]) = drop off content"
    by (simp add: chunk_bytes_def del: of_nat_diff)
next
  fix off p xs
  assume ge: "unat maxc \<le> length content - off"
    and IH: "concat (map chunk_bytes xs) = drop (off + unat maxc) content"
  show "concat (map chunk_bytes
      (p\<lparr>pdata := take (unat maxc) (drop off content) @ drop (unat maxc) (pdata p), datalen := maxc,
          is_last_chunk := 0\<rparr> # xs)) = drop off content"
    using IH ge by (simp add: chunk_bytes_def take_drop_add)
qed (simp add: chunk_bytes_def)

text \<open>
  C3: round trip of the content through the channel: the bytes of the published
  chunks, each the first \<open>datalen\<close> bytes of the data area, concatenate to the
  file from the offset on.
\<close>

corollary worker_stream_bytes:
  assumes "0 < unat maxc" and "unat maxc < 2 ^ 63"
  shows "concat (map chunk_bytes (worker_stream maxc content off p)) = drop off content"
  using assms by (rule worker_stream_concat)

theorem worker_stream_sizes_witness:
  "map (\<lambda>q. unat (datalen q)) (worker_stream (max_chunk_size 4088) (replicate 10000 7) 0 (zero_payload 4088))
     = [4000, 4000, 2000]"
proof -
  have m: "unat (max_chunk_size 4088) = 4000"
    by (simp add: max_chunk_size_def payload_header_size_def)
  have "map (\<lambda>q. unat (datalen q)) (worker_stream (max_chunk_size 4088) (replicate 10000 7) 0 (zero_payload 4088))
     = replicate (10000 div 4000) 4000 @ [10000 mod 4000]"
    using worker_stream_sizes [of "max_chunk_size 4088" "replicate 10000 7" 0 "zero_payload 4088"] m
    by simp
  also have "\<dots> = [4000, 4000, 2000]" by code_simp
  finally show ?thesis .
qed

theorem worker_stream_flags_witness:
  "map is_last_chunk (worker_stream (max_chunk_size 4088) (replicate 10000 7) 0 (zero_payload 4088)) = [0, 0, 1]"
proof -
  have m: "unat (max_chunk_size 4088) = 4000"
    by (simp add: max_chunk_size_def payload_header_size_def)
  have "map is_last_chunk (worker_stream (max_chunk_size 4088) (replicate 10000 7) 0 (zero_payload 4088))
     = replicate (10000 div 4000) 0 @ [1]"
    using worker_stream_flags [of "max_chunk_size 4088" "replicate 10000 7" 0 "zero_payload 4088"] m
    by simp
  also have "\<dots> = [0, 0, 1]" by code_simp
  finally show ?thesis .
qed

theorem worker_stream_bytes_witness:
  "concat (map chunk_bytes (worker_stream (max_chunk_size 4088) (replicate 10000 7) 0 (zero_payload 4088)))
     = replicate 10000 7"
proof -
  have m: "unat (max_chunk_size 4088) = 4000"
    by (simp add: max_chunk_size_def payload_header_size_def)
  show ?thesis
    using worker_stream_bytes [of "max_chunk_size 4088" "replicate 10000 7" 0 "zero_payload 4088"] m
    by simp
qed

lemma chunks_ref_step:
  "0 < M \<Longrightarrow> M \<le> length xs \<Longrightarrow> chunks_ref M xs = take M xs # chunks_ref M (drop M xs)"
  by (subst chunks_ref.simps) simp

text \<open>
  C14: the worker's loop, which reads into the shared data area and publishes a
  length, computes the reference chunking: the bytes of its chunks are exactly
  the pieces of the file as \<open>chunks_ref\<close> cuts them.
\<close>

theorem worker_stream_chunks:
  assumes "0 < unat maxc" and "unat maxc < 2 ^ 63"
  shows "map chunk_bytes (worker_stream maxc content off p) = chunks_ref (unat maxc) (drop off content)"
proof (rule worker_stream_rule [OF assms, where Q = "\<lambda>off p xs. map chunk_bytes xs = chunks_ref (unat maxc) (drop off content)"])
  fix off and p :: shm_payload
  assume "length content \<le> off"
  then show "map chunk_bytes [p\<lparr>datalen := 0, is_last_chunk := 1\<rparr>] = chunks_ref (unat maxc) (drop off content)"
    using assms(1) by (simp add: chunk_bytes_def chunks_ref.simps)
next
  fix off and p :: shm_payload
  assume "off < length content" and lt: "length content - off < unat maxc"
  then have "unat (word_of_nat (length content - off) :: size_t) = length content - off"
    by (intro unat_of_nat_chunk [of _ maxc]) simp
  with lt show "map chunk_bytes [p\<lparr>pdata := drop off content @ drop (length content - off) (pdata p),
          datalen := word_of_nat (length content - off), is_last_chunk := 1\<rparr>] =
        chunks_ref (unat maxc) (drop off content)"
    by (simp add: chunk_bytes_def chunks_ref.simps del: of_nat_diff)
next
  fix off and p :: shm_payload and xs
  assume ge: "unat maxc \<le> length content - off"
    and IH: "map chunk_bytes xs = chunks_ref (unat maxc) (drop (off + unat maxc) content)"
  show "map chunk_bytes (p\<lparr>pdata := take (unat maxc) (drop off content) @ drop (unat maxc) (pdata p),
          datalen := maxc, is_last_chunk := 0\<rparr> # xs) = chunks_ref (unat maxc) (drop off content)"
    using IH ge assms(1) by (simp add: chunk_bytes_def chunks_ref_step drop_drop add.commute)
qed

theorem worker_stream_chunks_witness:
  "map chunk_bytes (worker_stream (max_chunk_size 4088) (replicate 10000 7) 0 (zero_payload 4088)) =
     [replicate 4000 7, replicate 4000 7, replicate 2000 7]"
proof -
  have m: "unat (max_chunk_size 4088) = 4000" by (simp add: max_chunk_size_def payload_header_size_def)
  have "chunks_ref 4000 (replicate 10000 (7::byte)) = [replicate 4000 7, replicate 4000 7, replicate 2000 7]"
    by (simp add: chunks_ref_step chunks_ref.simps)
  then show ?thesis
    using worker_stream_chunks [of "max_chunk_size 4088" "replicate 10000 7" 0 "zero_payload 4088"] m by simp
qed

text \<open>
  C15: the worker never writes outside the data area of the segment: if the
  payload it starts from fits the segment, so does every payload it publishes
  (its data area keeps its length and \<open>datalen\<close> stays within it).
\<close>

theorem worker_stream_wf:
  assumes "0 < unat maxc" and "unat maxc < 2 ^ 63" and "payload_wf maxc p"
  shows "\<forall>q \<in> set (worker_stream maxc content off p). payload_wf maxc q"
proof -
  have "payload_wf maxc p \<longrightarrow> (\<forall>q \<in> set (worker_stream maxc content off p). payload_wf maxc q)"
  proof (rule worker_stream_rule [OF assms(1,2), where Q = "\<lambda>off p xs. payload_wf maxc p \<longrightarrow>
           (\<forall>q \<in> set xs. payload_wf maxc q)"])
    fix off and p :: shm_payload
    assume "off < length content" and lt: "length content - off < unat maxc"
    then have "unat (word_of_nat (length content - off) :: size_t) = length content - off"
      by (intro unat_of_nat_chunk [of _ maxc]) simp
    with lt show "payload_wf maxc p \<longrightarrow> (\<forall>q \<in> set [p\<lparr>pdata := drop off content @ drop (length content - off) (pdata p),
          datalen := word_of_nat (length content - off), is_last_chunk := 1\<rparr>]. payload_wf maxc q)"
      by (simp add: payload_wf_def del: of_nat_diff)
  next
    fix off and p :: shm_payload and xs
    assume ge: "unat maxc \<le> length content - off"
      and IH: "payload_wf maxc (p\<lparr>pdata := take (unat maxc) (drop off content) @ drop (unat maxc) (pdata p),
                  datalen := maxc, is_last_chunk := 0\<rparr>) \<longrightarrow> (\<forall>q \<in> set xs. payload_wf maxc q)"
    show "payload_wf maxc p \<longrightarrow> (\<forall>q \<in> set (p\<lparr>pdata := take (unat maxc) (drop off content) @ drop (unat maxc) (pdata p),
          datalen := maxc, is_last_chunk := 0\<rparr> # xs). payload_wf maxc q)"
      using IH ge by (simp add: payload_wf_def)
  qed (simp add: payload_wf_def)
  with assms(3) show ?thesis by blast
qed

theorem worker_stream_wf_witness:
  "list_all (payload_wf (max_chunk_size 4088))
     (worker_stream (max_chunk_size 4088) (replicate 10000 7) 0 (zero_payload 4088))"
proof -
  have b: "0 < unat (max_chunk_size 4088)" "unat (max_chunk_size 4088) < 2 ^ 63"
    by (simp_all add: max_chunk_size_def payload_header_size_def)
  have "payload_wf (max_chunk_size 4088) (zero_payload 4088)"
    by (simp add: payload_wf_def zero_payload_def max_chunk_size_def payload_header_size_def)
  with worker_stream_wf [OF b] show ?thesis by (simp add: list_all_iff)
qed

subsection \<open>The task set-up and the descriptor leak\<close>

lemma worker_task_attach_ok:
  assumes "shm_objs os (cstr (task_shm_name t)) \<noteq> None" and "task_segment_size t \<noteq> 0"
    and "open_fds os < fd_limit os" and "worker_task store t os = (r, os')"
  shows "r \<noteq> AttachFailed \<and> open_fds os' = Suc (open_fds os) \<and> live_maps os' = Suc (live_maps os)
         \<and> fd_limit os' = fd_limit os \<and> dom (shm_objs os') = dom (shm_objs os)"
  using assms
  by (auto simp: worker_task_def shm_segment_attach_ok Let_def split: option.splits if_splits)

lemma worker_task_fds_full:
  assumes "fd_limit os \<le> open_fds os" and "worker_task store t os = (r, os')"
  shows "r = AttachFailed \<and> os' = os"
  using assms
  by (auto simp: worker_task_def shm_segment_attach_def shm_open_def Let_def)

text \<open>
  C28: descriptor exhaustion of the daemon. Every task whose channel attaches
  leaves one descriptor and one mapping behind (the worker never calls
  \<open>munmap\<close> or \<open>close\<close> on the attached segment), so a worker serving tasks that
  name existing channels succeeds in attaching for exactly the first
  \<open>fd_limit - open_fds\<close> tasks and fails for every later one; a failed attach
  posts nothing, so each later transfer leaves its proxy waiting forever.
\<close>

theorem worker_run_fd_exhaustion:
  assumes "\<forall>t \<in> set ts. shm_objs os (cstr (task_shm_name t)) \<noteq> None \<and> task_segment_size t \<noteq> 0"
    and "open_fds os \<le> fd_limit os"
    and "worker_run store ts os = (rs, os')"
  shows "length rs = length ts \<and>
         (\<forall>i < length rs. rs ! i = AttachFailed \<longleftrightarrow> fd_limit os - open_fds os \<le> i)"
  using assms
proof (induction ts arbitrary: os rs os')
  case Nil
  then show ?case by simp
next
  case (Cons t ts)
  obtain r os1 where w: "worker_task store t os = (r, os1)" by fastforce
  obtain rs' where rest: "worker_run store ts os1 = (rs', os')" and rs: "rs = r # rs'"
    using Cons.prems(3) w by (auto split: prod.splits)
  show ?case
  proof (cases "open_fds os < fd_limit os")
    case True
    note ok = worker_task_attach_ok [OF _ _ True w]
    have "\<forall>t \<in> set ts. shm_objs os1 (cstr (task_shm_name t)) \<noteq> None \<and> task_segment_size t \<noteq> 0"
      using Cons.prems(1) ok by (simp add: dom_def) blast
    moreover have "open_fds os1 \<le> fd_limit os1" using ok Cons.prems(1) True by simp
    ultimately have IH: "length rs' = length ts \<and>
         (\<forall>i < length rs'. rs' ! i = AttachFailed \<longleftrightarrow> fd_limit os1 - open_fds os1 \<le> i)"
      using Cons.IH rest by blast
    have "fd_limit os1 - open_fds os1 = fd_limit os - open_fds os - 1"
      using ok Cons.prems(1) by simp
    with IH ok Cons.prems(1) True rs show ?thesis
      by (auto simp: nth_Cons split: nat.splits)
  next
    case False
    with Cons.prems(2) have full: "fd_limit os \<le> open_fds os" by simp
    note fail = worker_task_fds_full [OF full w]
    have "length rs' = length ts \<and>
         (\<forall>i < length rs'. rs' ! i = AttachFailed \<longleftrightarrow> fd_limit os - open_fds os \<le> i)"
      using Cons.IH [of os1 rs' os'] Cons.prems(1,2) rest fail by simp
    with fail full rs show ?thesis
      by (auto simp: nth_Cons split: nat.splits)
  qed
qed
theorem worker_run_fd_exhaustion_witness:
  "length (fst (worker_run Map.empty [miss_task, miss_task, miss_task] leak_os)) = 3 \<and>
   fst (worker_run Map.empty [miss_task, miss_task, miss_task] leak_os) ! 1 \<noteq> AttachFailed \<and>
   fst (worker_run Map.empty [miss_task, miss_task, miss_task] leak_os) ! 2 = AttachFailed"
proof -
  obtain rs os' where w: "worker_run Map.empty [miss_task, miss_task, miss_task] leak_os = (rs, os')"
    by fastforce
  have n: "cstr (task_shm_name miss_task) = ''/proxy_shm_0''"
    unfolding miss_task_def by code_simp
  have "\<forall>t \<in> set [miss_task, miss_task, miss_task].
          shm_objs leak_os (cstr (task_shm_name t)) \<noteq> None \<and> task_segment_size t \<noteq> 0"
    using n by (simp add: leak_os_def) (simp add: miss_task_def)
  from worker_run_fd_exhaustion [OF this _ w]
  have "length rs = 3 \<and> (\<forall>i < length rs. rs ! i = AttachFailed \<longleftrightarrow> 2 \<le> i)"
    by (simp add: leak_os_def)
  with w show ?thesis by simp
qed

end
