(* ===== verification/ProxyHandler.thy ===== *)
theory ProxyHandler
  imports CacheWorker "HOL-Library.Sublist"
begin

text \<open>
  The proxy's transfer handler \<open>handle_with_cache\<close>
  (\<open>src/cache/handle_with_cache.c\<close>), the consumer half of the transfer, and the
  two pool operations it performs under the pool lock: \<open>steque_pop\<close> of a free
  channel and \<open>steque_enqueue\<close> of it on return. The free list is a list whose
  head is the front of the \<open>steque\<close>: pop takes the head, enqueue appends at
  the back.

  Everything the handler does not compute itself is an input, \<open>proxy_env\<close>:
  which of the control-socket \<open>connect\<close> attempts succeed and whether the
  \<open>write\<close> does, what the request-serving framework's \<open>gfs_sendheader\<close> and
  \<open>gfs_send\<close> return, and what each \<open>sem_wait(&payload->sem_proxy_ready)\<close>
  yields: the payload as the handler then reads it (\<open>Posted\<close>) or a failed
  wait (\<open>WaitFailed\<close>). When the waits run out the handler is blocked for
  ever (\<open>Blocked\<close>): the wait has no timeout. The client-side effects are the
  list of \<open>client_event\<close>s in the order the handler issues them.
\<close>

datatype gf_status = GF_OK | GF_FILE_NOT_FOUND | GF_ERROR

datatype client_event = SendHeader gf_status size_t | SendBody "byte list"

datatype wait_result = Posted shm_payload | WaitFailed

record proxy_env =
  connect_ok :: "nat \<Rightarrow> bool"
  write_ok :: bool
  header_ret :: "gf_status \<Rightarrow> int"
  send_ret :: "nat \<Rightarrow> nat \<Rightarrow> int"
  waits :: "wait_result list"

datatype handler_outcome = Returned int | Blocked

record handler_result =
  h_pool :: "shm_segment list"
  h_events :: "client_event list"
  h_request :: "string option"
  h_posts :: nat
  h_outcome :: handler_outcome

definition MAX_RETRIES :: nat where
  "MAX_RETRIES = 5"

text \<open>
  The connect loop \<open>for (i = 0; i < 5; ++i)\<close>: attempt \<open>i\<close>, stop at the first
  success, otherwise sleep and try again; \<open>k\<close> attempts are left.
\<close>

fun connect_retry :: "(nat \<Rightarrow> bool) \<Rightarrow> nat \<Rightarrow> nat \<Rightarrow> bool" where
  "connect_retry ok i 0 = False"
| "connect_retry ok i (Suc k) = (ok i \<or> connect_retry ok (Suc i) k)"

text \<open>
  The chunk loop \<open>while (1)\<close>. \<open>p\<close> is the payload the last wait returned, \<open>i\<close>
  the number of \<open>gfs_send\<close> calls so far, \<open>tot\<close> the bytes sent. In order:
  reject a \<open>datalen\<close> above \<open>segsize - sizeof(*payload)\<close> (an unsigned \<open>size_t\<close>
  comparison), send the chunk, add what was sent, \<open>sem_post(&payload->sem_cache_ready)\<close>,
  stop on the last chunk, otherwise wait for the next. The result is how the loop
  ended, the body events it issued and the number of posts it made.
\<close>

datatype loop_end = LoopDone int | LoopError | LoopBlocked

fun proxy_loop ::
  "proxy_env \<Rightarrow> size_t \<Rightarrow> nat \<Rightarrow> int \<Rightarrow> shm_payload \<Rightarrow> wait_result list \<Rightarrow>
   loop_end \<times> client_event list \<times> nat" where
  "proxy_loop env segsize i tot p ws =
     (if segsize - payload_header_size < datalen p then (LoopError, [], 0)
      else
        let ev = SendBody (chunk_bytes p);
            sent = send_ret env i (unat (datalen p))
        in if sent < 0 then (LoopError, [ev], 0)
           else if is_last_chunk p \<noteq> 0 then (LoopDone (tot + sent), [ev], 1)
           else case ws of
                  [] \<Rightarrow> (LoopBlocked, [ev], 1)
                | WaitFailed # _ \<Rightarrow> (LoopError, [ev], 1)
                | Posted p' # ws' \<Rightarrow>
                    (case proxy_loop env segsize (Suc i) (tot + sent) p' ws' of
                       (e, evs, k) \<Rightarrow> (e, ev # evs, Suc k)))"

text \<open>
  The label \<open>error:\<close>: return the channel to the back of the free list and
  report \<open>GF_ERROR\<close> to the client, returning what \<open>gfs_sendheader\<close> returns.
\<close>

definition handler_error ::
  "proxy_env \<Rightarrow> shm_segment list \<Rightarrow> shm_segment \<Rightarrow> client_event list \<Rightarrow> string option \<Rightarrow> nat \<Rightarrow>
   handler_result" where
  "handler_error env pool seg evs req posts =
     \<lparr>h_pool = pool @ [seg], h_events = evs @ [SendHeader GF_ERROR 0], h_request = req,
      h_posts = posts, h_outcome = Returned (header_ret env GF_ERROR)\<rparr>"

definition handle_with_cache ::
  "proxy_env \<Rightarrow> size_t \<Rightarrow> string \<Rightarrow> shm_segment list \<Rightarrow> handler_result" where
  "handle_with_cache env segsize path pool =
     (case pool of
        [] \<Rightarrow> \<lparr>h_pool = [], h_events = [SendHeader GF_ERROR 0], h_request = None, h_posts = 0,
               h_outcome = Returned (header_ret env GF_ERROR)\<rparr>
      | seg # pool1 \<Rightarrow>
          (let req = format_request (shm_name seg) path segsize
           in if \<not> connect_retry (connect_ok env) 0 MAX_RETRIES then handler_error env pool1 seg [] None 0
              else if \<not> write_ok env then handler_error env pool1 seg [] None 0
              else
                (case waits env of
                   [] \<Rightarrow> \<lparr>h_pool = pool1, h_events = [], h_request = Some req, h_posts = 0,
                          h_outcome = Blocked\<rparr>
                 | WaitFailed # _ \<Rightarrow> handler_error env pool1 seg [] (Some req) 0
                 | Posted p # ws \<Rightarrow>
                     (if datalen p = 0 then handler_error env pool1 seg [] (Some req) 0
                      else
                        let hdr = SendHeader GF_OK (total_file_size p)
                        in if header_ret env GF_OK < 0 then handler_error env pool1 seg [hdr] (Some req) 0
                           else
                             (case proxy_loop env segsize 0 0 p ws of
                                (LoopDone tot, evs, k) \<Rightarrow>
                                  \<lparr>h_pool = pool1 @ [seg], h_events = hdr # evs, h_request = Some req,
                                   h_posts = k, h_outcome = Returned tot\<rparr>
                              | (LoopError, evs, k) \<Rightarrow> handler_error env pool1 seg (hdr # evs) (Some req) k
                              | (LoopBlocked, evs, k) \<Rightarrow>
                                  \<lparr>h_pool = pool1, h_events = hdr # evs, h_request = Some req,
                                   h_posts = k, h_outcome = Blocked\<rparr>)))))"

text \<open>The payloads a list of wait results delivers before the first failed wait.\<close>

fun posted :: "wait_result list \<Rightarrow> shm_payload list" where
  "posted [] = []"
| "posted (Posted p # ws) = p # posted ws"
| "posted (WaitFailed # ws) = []"

text \<open>A framework that accepts everything and one posted chunk larger than the buffer.\<close>

definition overflow_env :: proxy_env where
  "overflow_env = \<lparr>connect_ok = (\<lambda>_. True), write_ok = True, header_ret = (\<lambda>_. 0),
     send_ret = (\<lambda>_ n. int n),
     waits = [Posted ((zero_payload 4088)\<lparr>datalen := 5000, total_file_size := 5000\<rparr>)]\<rparr>"

text \<open>A framework that accepts everything and one posted last chunk of three bytes.\<close>

definition small_env :: proxy_env where
  "small_env = \<lparr>connect_ok = (\<lambda>_. True), write_ok = True, header_ret = (\<lambda>_. 0),
     send_ret = (\<lambda>_ n. int n),
     waits = [Posted ((zero_payload 4088)\<lparr>datalen := 3, is_last_chunk := 1, total_file_size := 3,
                                          pdata := [1, 2, 3]\<rparr>)]\<rparr>"

subsection \<open>Properties\<close>

declare proxy_loop.simps [simp del]

lemma handler_error_pool [simp]: "h_pool (handler_error env pool seg evs req k) = pool @ [seg]"
  and handler_error_outcome [simp]: "h_outcome (handler_error env pool seg evs req k) = Returned (header_ret env GF_ERROR)"
  and handler_error_events [simp]: "h_events (handler_error env pool seg evs req k) = evs @ [SendHeader GF_ERROR 0]"
  and handler_error_request [simp]: "h_request (handler_error env pool seg evs req k) = req"
  by (simp_all add: handler_error_def)

lemma handle_with_cache_pool:
  "(h_pool (handle_with_cache env segsize path (seg # pool)) = pool @ [seg] \<and>
    h_outcome (handle_with_cache env segsize path (seg # pool)) \<noteq> Blocked) \<or>
   (h_pool (handle_with_cache env segsize path (seg # pool)) = pool \<and>
    h_outcome (handle_with_cache env segsize path (seg # pool)) = Blocked)"
  by (simp add: handle_with_cache_def Let_def split: list.split wait_result.split prod.split loop_end.split)

text \<open>
  C1: the channel a handler pops is pushed back exactly once, at the back of the
  free list, on every path on which the handler returns (success and every error
  path alike); on the only path on which it does not return, a wait that is never
  posted, it stays checked out.
\<close>

theorem handle_with_cache_release:
  "h_pool (handle_with_cache env segsize path (seg # pool)) =
     (if h_outcome (handle_with_cache env segsize path (seg # pool)) = Blocked then pool else pool @ [seg])"
  using handle_with_cache_pool [of env segsize path seg pool] by auto

lemma handle_with_cache_exhausted:
  "handle_with_cache env segsize path [] =
     \<lparr>h_pool = [], h_events = [SendHeader GF_ERROR 0], h_request = None, h_posts = 0,
      h_outcome = Returned (header_ret env GF_ERROR)\<rparr>"
  by (simp add: handle_with_cache_def)

lemma handle_with_cache_miss:
  assumes "connect_retry (connect_ok env) 0 MAX_RETRIES" and "write_ok env"
    and "waits env = Posted p # ws" and "datalen p = 0"
  shows "handle_with_cache env segsize path (seg # pool) =
           handler_error env pool seg [] (Some (format_request (shm_name seg) path segsize)) 0"
  using assms by (simp add: handle_with_cache_def)

lemma proxy_loop_bodies:
  "proxy_loop env segsize i tot p ws = (e, evs, k) \<Longrightarrow>
   \<exists>qs. prefix qs (p # posted ws) \<and> evs = map (\<lambda>q. SendBody (chunk_bytes q)) qs \<and>
        (\<forall>q \<in> set qs. datalen q \<le> segsize - payload_header_size)"
proof (induction env segsize i tot p ws arbitrary: e evs k rule: proxy_loop.induct)
  case (1 env segsize i tot p ws)
  show ?case
  proof (cases "segsize - payload_header_size < datalen p")
    case True
    with "1.prems" show ?thesis by (auto simp: proxy_loop.simps)
  next
    case ok: False
    then have okle: "datalen p \<le> segsize - payload_header_size" by (simp add: not_less)
    show ?thesis
    proof (cases "send_ret env i (unat (datalen p)) < 0 \<or> is_last_chunk p \<noteq> 0")
      case True
      with ok "1.prems" have "evs = [SendBody (chunk_bytes p)]"
        by (auto simp: proxy_loop.simps Let_def split: if_splits)
      with okle show ?thesis
        by (intro exI [of _ "[p]"]) simp
    next
      case False
      show ?thesis
      proof (cases ws)
        case Nil
        with ok okle False "1.prems" show ?thesis
          by (intro exI [of _ "[p]"]) (auto simp: proxy_loop.simps Let_def)
      next
        case (Cons w ws')
        show ?thesis
        proof (cases w)
          case WaitFailed
          with Cons ok okle False "1.prems" show ?thesis
            by (intro exI [of _ "[p]"]) (auto simp: proxy_loop.simps Let_def)
        next
          case (Posted p')
          obtain e' evs' k' where r: "proxy_loop env segsize (Suc i) (tot + send_ret env i (unat (datalen p))) p' ws' = (e', evs', k')"
            by (metis prod_cases3)
          with Cons Posted ok False "1.prems"
          have evs: "evs = SendBody (chunk_bytes p) # evs'"
            by (auto simp: proxy_loop.simps Let_def)
          from "1.IH" [OF _ _ _ _ _ Cons Posted r] ok False obtain qs where
            "prefix qs (p' # posted ws')" "evs' = map (\<lambda>q. SendBody (chunk_bytes q)) qs"
            "\<forall>q \<in> set qs. datalen q \<le> segsize - payload_header_size"
            by (auto simp: Let_def)
          with evs okle Cons Posted show ?thesis
            by (intro exI [of _ "p # qs"]) auto
        qed
      qed
    qed
  qed
qed


lemma handle_with_cache_events_posted:
  assumes "waits env = Posted p # ws" and "proxy_loop env segsize 0 0 p ws = (e, evs, k)"
  shows "set (h_events (handle_with_cache env segsize path (seg # pool))) \<subseteq>
           {SendHeader GF_OK (total_file_size p), SendHeader GF_ERROR 0} \<union> set evs"
  using assms by (cases e) (auto simp: handle_with_cache_def Let_def)

lemma handle_with_cache_events_no_wait:
  assumes "\<forall>p ws. waits env \<noteq> Posted p # ws"
  shows "set (h_events (handle_with_cache env segsize path pool)) \<subseteq> {SendHeader GF_ERROR 0}"
  using assms
  by (simp add: handle_with_cache_def Let_def split: list.split wait_result.split)

text \<open>
  C2: the handler never forwards a chunk whose length exceeds the usable buffer:
  every body it sends is the data of a payload that one of its waits returned and
  whose \<open>datalen\<close> passed the check against \<open>segsize - sizeof(*payload)\<close>; an
  oversize chunk ends the transfer with an error instead.
\<close>

theorem handle_with_cache_forwards_checked:
  assumes "SendBody b \<in> set (h_events (handle_with_cache env segsize path pool))"
  shows "\<exists>q \<in> set (posted (waits env)). b = chunk_bytes q \<and> datalen q \<le> segsize - payload_header_size"
proof (cases "\<exists>p ws. waits env = Posted p # ws")
  case False
  with assms handle_with_cache_events_no_wait [of env segsize path pool] show ?thesis by auto
next
  case True
  then obtain p ws where w: "waits env = Posted p # ws" by blast
  obtain e evs k where L: "proxy_loop env segsize 0 0 p ws = (e, evs, k)" by (metis prod_cases3)
  from proxy_loop_bodies [OF L] obtain qs where
    qs: "prefix qs (p # posted ws)" "evs = map (\<lambda>q. SendBody (chunk_bytes q)) qs"
        "\<forall>q \<in> set qs. datalen q \<le> segsize - payload_header_size"
    by blast
  show ?thesis
  proof (cases pool)
    case Nil
    with assms show ?thesis by (simp add: handle_with_cache_def)
  next
    case (Cons seg pool1)
    with assms handle_with_cache_events_posted [OF w L] have "SendBody b \<in> set evs" by auto
    with qs obtain q where "q \<in> set qs" "b = chunk_bytes q" by auto
    moreover have "set qs \<subseteq> set (posted (waits env))"
      using set_mono_prefix [OF qs(1)] w by simp
    ultimately show ?thesis using qs(3) by blast
  qed
qed


lemma connect_retry_iff: "connect_retry ok i k \<longleftrightarrow> (\<exists>j < k. ok (i + j))"
proof (induction k arbitrary: i)
  case 0
  then show ?case by simp
next
  case (Suc k)
  show ?case
  proof
    assume "connect_retry ok i (Suc k)"
    then show "\<exists>j < Suc k. ok (i + j)"
      using Suc.IH [of "Suc i"] by auto
  next
    assume "\<exists>j < Suc k. ok (i + j)"
    then obtain j where "j < Suc k" "ok (i + j)" by blast
    then show "connect_retry ok i (Suc k)"
      using Suc.IH [of "Suc i"] by (cases j) auto
  qed
qed

text \<open>
  C31: when a transfer fails after its \<open>GF_OK\<close> header has gone out (an oversize
  chunk, a failed send or wait), the handler sends a second header, \<open>GF_ERROR\<close>;
  the framework's contract (spec, External interfaces) asks for exactly one
  header per response.
\<close>

lemma connect_retry_first: "ok i \<Longrightarrow> 0 < k \<Longrightarrow> connect_retry ok i k"
  by (cases k) simp_all

lemma connect_retry_always [simp]: "connect_retry (\<lambda>_. True) i MAX_RETRIES"
  by (rule connect_retry_first) (simp_all add: MAX_RETRIES_def)

theorem handle_with_cache_second_header:
  assumes "connect_retry (connect_ok env) 0 MAX_RETRIES" and "write_ok env"
    and "waits env = Posted p # ws" and "datalen p \<noteq> 0" and "0 \<le> header_ret env GF_OK"
    and "fst (proxy_loop env segsize 0 0 p ws) = LoopError"
  shows "hd (h_events (handle_with_cache env segsize path (seg # pool))) = SendHeader GF_OK (total_file_size p)
       \<and> last (h_events (handle_with_cache env segsize path (seg # pool))) = SendHeader GF_ERROR 0"
proof -
  obtain evs k where L: "proxy_loop env segsize 0 0 p ws = (LoopError, evs, k)"
    using assms(6) by (metis prod.collapse)
  with assms(1-5) show ?thesis by (simp add: handle_with_cache_def Let_def)
qed

theorem handle_with_cache_second_header_witness:
  "h_events (handle_with_cache overflow_env 4088 ''/big.bin'' [fresh_segment]) =
     [SendHeader GF_OK 5000, SendHeader GF_ERROR 0]"
proof -
  let ?p = "(zero_payload 4088)\<lparr>datalen := 5000, total_file_size := 5000\<rparr>"
  have c: "connect_retry (connect_ok overflow_env) 0 MAX_RETRIES"
    unfolding connect_retry_iff by (rule exI [of _ 0]) (simp add: overflow_env_def MAX_RETRIES_def)
  have w: "write_ok overflow_env" and ws: "waits overflow_env = [Posted ?p]"
    and h: "0 \<le> header_ret overflow_env GF_OK"
    by (simp_all add: overflow_env_def)
  have l: "fst (proxy_loop overflow_env 4088 0 0 ?p []) = LoopError"
    by (simp add: proxy_loop.simps payload_header_size_def)
  note hdrs = handle_with_cache_second_header [OF c w ws _ h l, of "''/big.bin''" fresh_segment "[]"]
  have "length (h_events (handle_with_cache overflow_env 4088 ''/big.bin'' [fresh_segment])) = 2"
    using c by (simp add: handle_with_cache_def overflow_env_def proxy_loop.simps
        payload_header_size_def Let_def)
  with hdrs show ?thesis
    by (cases "h_events (handle_with_cache overflow_env 4088 ''/big.bin'' [fresh_segment])"
        rule: list.exhaust) (auto simp: length_Suc_conv)
qed

theorem handle_with_cache_forwards_checked_witness:
  "\<exists>q \<in> set (posted (waits small_env)). [1, 2, 3] = chunk_bytes q \<and> datalen q \<le> 4088 - payload_header_size"
proof -
  have "SendBody [1, 2, 3] \<in> set (h_events (handle_with_cache small_env 4088 ''/a.txt'' [fresh_segment]))"
    by (simp add: handle_with_cache_def small_env_def proxy_loop.simps chunk_bytes_def
        payload_header_size_def Let_def)
  then show ?thesis by (rule handle_with_cache_forwards_checked)
qed

end
