(* ===== verification/Delivery.thy ===== *)
theory Delivery
  imports ProxyHandler
begin

text \<open>
  One transfer end to end, in the synchronous schedule of the handshake: each
  side runs while the other waits, which is the schedule the semaphore pair is
  meant to enforce (the theory \<open>Handshake\<close> studies the others). The proxy's
  request line is parsed by the boss (\<open>boss_handle\<close>), the task is set up by a
  worker (\<open>worker_task\<close>), and the payloads the worker publishes
  (\<open>worker_stream\<close>) are what the handler's waits return (\<open>daemon_waits\<close>).
  The client side of the framework is a \<open>client\<close>: the values its
  \<open>gfs_sendheader\<close> and \<open>gfs_send\<close> return.
\<close>

record client =
  cl_header_ret :: "gf_status \<Rightarrow> int"
  cl_send_ret :: "nat \<Rightarrow> nat \<Rightarrow> int"

definition full_client :: client where
  "full_client = \<lparr>cl_header_ret = (\<lambda>_. 0), cl_send_ret = (\<lambda>_ n. int n)\<rparr>"

text \<open>
  What the proxy's waits return when the daemon serves its request line: the
  chunks of the stream, the single empty last chunk of a miss, or nothing at
  all (a dropped or crashing request, a failed attach or \<open>dup\<close>), in which case
  the first wait never returns.
\<close>

definition daemon_waits :: "content_store \<Rightarrow> shm_os \<Rightarrow> string \<Rightarrow> wait_result list" where
  "daemon_waits store os line =
     (case boss_handle line of
        BossTask t \<Rightarrow>
          (case worker_task store t os of
             (WorkerStream maxc content p1, _) \<Rightarrow> map Posted (worker_stream maxc content 0 p1)
           | (CacheMiss, os') \<Rightarrow> [Posted (the (shm_objs os' (cstr (task_shm_name t))))]
           | _ \<Rightarrow> [])
      | _ \<Rightarrow> [])"

definition serve_env ::
  "content_store \<Rightarrow> client \<Rightarrow> shm_os \<Rightarrow> size_t \<Rightarrow> string \<Rightarrow> shm_segment list \<Rightarrow> proxy_env" where
  "serve_env store cl os segsize path pool =
     \<lparr>connect_ok = (\<lambda>_. True), write_ok = True, header_ret = cl_header_ret cl,
      send_ret = cl_send_ret cl,
      waits = (case pool of [] \<Rightarrow> []
               | seg # _ \<Rightarrow> daemon_waits store os (format_request (shm_name seg) path segsize))\<rparr>"

definition serve ::
  "content_store \<Rightarrow> client \<Rightarrow> shm_os \<Rightarrow> size_t \<Rightarrow> string \<Rightarrow> shm_segment list \<Rightarrow> handler_result" where
  "serve store cl os segsize path pool =
     handle_with_cache (serve_env store cl os segsize path pool) segsize path pool"

text \<open>
  The scenario of the specification: the proxy's first channel \<open>/proxy_shm_0\<close>
  of capacity 4088 (a 4000-byte buffer), a daemon with descriptors to spare, and
  a store holding a 10000-byte \<open>/a.txt\<close>, an 8000-byte \<open>/b.txt\<close> and an empty
  \<open>/empty.txt\<close>.
\<close>

definition seg0 :: shm_segment where
  "seg0 = fresh_segment\<lparr>shm_name := strncpy SHM_NAME_LEN ''/proxy_shm_0'', seg_size := 4088\<rparr>"

definition daemon_os :: shm_os where
  "daemon_os = \<lparr>shm_objs = [''/proxy_shm_0'' \<mapsto> zero_payload 4088], open_fds = 0, fd_limit = 16,
                live_maps = 0\<rparr>"

definition spec_store :: content_store where
  "spec_store = [''/a.txt'' \<mapsto> replicate 10000 7, ''/b.txt'' \<mapsto> replicate 8000 7, ''/empty.txt'' \<mapsto> []]"

lemma chunk_fits:
  assumes "n < unat (maxc::size_t)"
  shows "\<not> maxc < word_of_nat n"
  using assms by (simp add: word_less_nat_alt not_less unat_of_nat_chunk [of n maxc])

lemma proxy_loop_stream:
  assumes pos: "0 < unat maxc" and small: "unat maxc < 2 ^ 63"
    and seg: "segsize - payload_header_size = maxc"
    and full: "\<forall>i n. send_ret env i n = int n"
  shows "worker_stream maxc content off p \<noteq> [] \<and>
         (\<forall>i tot. proxy_loop env segsize i tot (hd (worker_stream maxc content off p))
                     (map Posted (tl (worker_stream maxc content off p))) =
                   (LoopDone (tot + int (length content - off)),
                    map (\<lambda>q. SendBody (chunk_bytes q)) (worker_stream maxc content off p),
                    length (worker_stream maxc content off p)))"
proof (rule worker_stream_rule [OF pos small, where Q = "\<lambda>off p xs. xs \<noteq> [] \<and>
         (\<forall>i tot. proxy_loop env segsize i tot (hd xs) (map Posted (tl xs)) =
                   (LoopDone (tot + int (length content - off)),
                    map (\<lambda>q. SendBody (chunk_bytes q)) xs, length xs))"])
  fix off and p :: shm_payload
  assume "length content \<le> off"
  then show "[p\<lparr>datalen := 0, is_last_chunk := 1\<rparr>] \<noteq> [] \<and>
      (\<forall>i tot. proxy_loop env segsize i tot (hd [p\<lparr>datalen := 0, is_last_chunk := 1\<rparr>])
                 (map Posted (tl [p\<lparr>datalen := 0, is_last_chunk := 1\<rparr>])) =
               (LoopDone (tot + int (length content - off)),
                map (\<lambda>q. SendBody (chunk_bytes q)) [p\<lparr>datalen := 0, is_last_chunk := 1\<rparr>],
                length [p\<lparr>datalen := 0, is_last_chunk := 1\<rparr>]))"
    using full by (simp add: proxy_loop.simps)
next
  fix off and p :: shm_payload
  assume lt: "length content - off < unat maxc"
  let ?q = "p\<lparr>pdata := drop off content @ drop (length content - off) (pdata p),
                  datalen := word_of_nat (length content - off), is_last_chunk := 1\<rparr>"
  have u: "unat (word_of_nat (length content - off) :: size_t) = length content - off"
    using lt by (intro unat_of_nat_chunk [of _ maxc]) simp
  have "\<not> maxc < word_of_nat (length content - off)" using lt by (rule chunk_fits)
  then show "[?q] \<noteq> [] \<and> (\<forall>i tot. proxy_loop env segsize i tot (hd [?q]) (map Posted (tl [?q])) =
        (LoopDone (tot + int (length content - off)), map (\<lambda>q. SendBody (chunk_bytes q)) [?q], length [?q]))"
    using full seg u by (simp add: proxy_loop.simps del: of_nat_diff)
next
  fix off and p :: shm_payload and xs
  assume ge: "unat maxc \<le> length content - off"
    and IH: "xs \<noteq> [] \<and> (\<forall>i tot. proxy_loop env segsize i tot (hd xs) (map Posted (tl xs)) =
        (LoopDone (tot + int (length content - (off + unat maxc))), map (\<lambda>q. SendBody (chunk_bytes q)) xs,
         length xs))"
  let ?q = "p\<lparr>pdata := take (unat maxc) (drop off content) @ drop (unat maxc) (pdata p),
               datalen := maxc, is_last_chunk := 0\<rparr>"
  from IH obtain x xs' where xs: "xs = x # xs'" by (cases xs) auto
  have a0: "unat maxc + (length content - (off + unat maxc)) = length content - off"
    using ge by simp
  have arith: "\<And>tot. tot + uint maxc + int (length content - (off + unat maxc)) =
                       tot + int (length content - off)"
    by (simp only: add.assoc uint_nat of_nat_add [symmetric] a0)
  show "?q # xs \<noteq> [] \<and> (\<forall>i tot. proxy_loop env segsize i tot (hd (?q # xs)) (map Posted (tl (?q # xs))) =
        (LoopDone (tot + int (length content - off)), map (\<lambda>q. SendBody (chunk_bytes q)) (?q # xs),
         length (?q # xs)))"
    using IH full seg xs arith by (simp add: proxy_loop.simps)
qed

lemma format_request_cstr: "format_request (cstr s) path segsize = format_request s path segsize"
  by (simp add: format_request_def cstr_def)

lemma daemon_waits_request:
  assumes name: "valid_token name" and path: "valid_token path"
    and short: "length name < SHM_NAME_LEN"
    and fits: "length (name @ '' '' @ path @ '' '' @ decimal (unat segsize) @ ''\<newline>'') < PROXY_REQUEST_LEN"
    and small: "unat segsize < 2 ^ 63" and nz: "segsize \<noteq> 0"
    and obj: "shm_objs os name = Some q" and fds: "Suc (open_fds os) < fd_limit os"
  shows "daemon_waits store os (format_request name path segsize) =
     (case store path of
        None \<Rightarrow> [Posted (q\<lparr>datalen := 0, is_last_chunk := 1, sem_proxy_ready := Suc (sem_proxy_ready q)\<rparr>)]
      | Some content \<Rightarrow>
          map Posted (worker_stream (max_chunk_size segsize) content 0
                        (q\<lparr>total_file_size := word_of_nat (length content)\<rparr>)))"
proof -
  have t: "boss_handle (format_request name path segsize) =
           BossTask \<lparr>task_shm_name = strncpy SHM_NAME_LEN name,
                     task_key = strncpy TASK_KEY_LEN path, task_segment_size = segsize\<rparr>"
    by (rule boss_handle_format_request [OF name path short fits small])
  have cn: "cstr (strncpy SHM_NAME_LEN name) = name"
    using short name by (intro cstr_strncpy) (auto simp: valid_token_def)
  have ck: "cstr (strncpy TASK_KEY_LEN path) = path"
    using fits path by (intro cstr_strncpy) (auto simp: valid_token_def TASK_KEY_LEN_def PROXY_REQUEST_LEN_def)
  have a: "shm_segment_attach fresh_segment name segsize os =
     (0, fresh_segment\<lparr>shm_name := strncpy SHM_NAME_LEN name, seg_size := segsize,
                       seg_fd := int (open_fds os) + 3, seg_addr := Some name\<rparr>,
      os\<lparr>open_fds := Suc (open_fds os), live_maps := Suc (live_maps os)\<rparr>)"
    using obj fds nz by (intro shm_segment_attach_ok) simp_all
  show ?thesis
    using obj fds by (cases "store path") (simp_all add: daemon_waits_def t worker_task_def cn ck a Let_def)
qed

lemma worker_stream_first:
  assumes pos: "0 < unat maxc" and small: "unat maxc < 2 ^ 63" and off: "off < length content"
  shows "datalen (hd (worker_stream maxc content off p)) \<noteq> 0 \<and>
         total_file_size (hd (worker_stream maxc content off p)) = total_file_size p"
proof -
  let ?n = "min (unat maxc) (length content - off)"
  have "unat (word_of_nat ?n :: size_t) = ?n"
    by (rule unat_of_nat_chunk [of _ maxc]) simp
  moreover have "0 < ?n" using pos off by simp
  ultimately have "(word_of_nat ?n :: size_t) \<noteq> 0" by (metis less_irrefl unat_0)
  then show ?thesis
    using off by (simp add: worker_stream_unfold [OF pos small] Let_def del: of_nat_min)
qed

lemma serve_hit:
  assumes tok: "valid_token (cstr (shm_name seg))" and short: "length (cstr (shm_name seg)) < SHM_NAME_LEN"
    and path: "valid_token path"
    and fits: "length (cstr (shm_name seg) @ '' '' @ path @ '' '' @ decimal (unat segsize) @ ''\<newline>'')
                 < PROXY_REQUEST_LEN"
    and big: "payload_header_size < segsize" and small: "unat segsize < 2 ^ 63"
    and obj: "shm_objs os (cstr (shm_name seg)) = Some q" and fds: "Suc (open_fds os) < fd_limit os"
    and hit: "store path = Some content" and ne: "content \<noteq> []"
  defines "S \<equiv> worker_stream (max_chunk_size segsize) content 0 (q\<lparr>total_file_size := word_of_nat (length content)\<rparr>)"
  shows "serve store full_client os segsize path (seg # pool) =
    \<lparr>h_pool = pool @ [seg],
     h_events = SendHeader GF_OK (word_of_nat (length content)) # map (\<lambda>q. SendBody (chunk_bytes q)) S,
     h_request = Some (format_request (shm_name seg) path segsize), h_posts = length S,
     h_outcome = Returned (int (length content))\<rparr>"
proof -
  let ?env = "serve_env store full_client os segsize path (seg # pool)"
  have pos: "0 < unat (max_chunk_size segsize)" and sm: "unat (max_chunk_size segsize) < 2 ^ 63"
    using max_chunk_size_bounds [OF big small] by simp_all
  have nz: "segsize \<noteq> 0" using big by auto
  have w: "daemon_waits store os (format_request (cstr (shm_name seg)) path segsize) = map Posted S"
    by (simp add: daemon_waits_request [OF tok path short fits small nz obj fds] hit S_def)
  have ws: "waits ?env = map Posted S"
    using w by (simp add: serve_env_def format_request_cstr)
  have full: "\<forall>i n. send_ret ?env i n = int n" by (simp add: serve_env_def full_client_def)
  have seq: "segsize - payload_header_size = max_chunk_size segsize" by (simp add: max_chunk_size_def)
  note L = proxy_loop_stream [OF pos sm seq full, of content 0 "q\<lparr>total_file_size := word_of_nat (length content)\<rparr>",
                              folded S_def]
  then obtain s0 ss where S: "S = s0 # ss" by (cases S) auto
  have first: "datalen s0 \<noteq> 0 \<and> total_file_size s0 = word_of_nat (length content)"
    using worker_stream_first [OF pos sm, of 0 content "q\<lparr>total_file_size := word_of_nat (length content)\<rparr>"] ne
    by (simp add: S_def [symmetric] S)
  have loop: "proxy_loop ?env segsize 0 0 s0 (map Posted ss) =
                (LoopDone (int (length content)), map (\<lambda>q. SendBody (chunk_bytes q)) S, length S)"
    using L by (simp add: S)
  show ?thesis
    using ws first loop
    by (simp add: serve_def handle_with_cache_def S Let_def)
       (simp add: serve_env_def full_client_def)
qed

lemma serve_unserved:
  assumes tok: "valid_token (cstr (shm_name seg))" and short: "length (cstr (shm_name seg)) < SHM_NAME_LEN"
    and path: "valid_token path"
    and fits: "length (cstr (shm_name seg) @ '' '' @ path @ '' '' @ decimal (unat segsize) @ ''\<newline>'')
                 < PROXY_REQUEST_LEN"
    and big: "payload_header_size < segsize" and small: "unat segsize < 2 ^ 63"
    and obj: "shm_objs os (cstr (shm_name seg)) = Some q" and fds: "Suc (open_fds os) < fd_limit os"
    and none: "store path = None \<or> store path = Some []"
  shows "serve store cl os segsize path (seg # pool) =
           handler_error (serve_env store cl os segsize path (seg # pool)) pool seg []
             (Some (format_request (shm_name seg) path segsize)) 0"
proof -
  let ?env = "serve_env store cl os segsize path (seg # pool)"
  have pos: "0 < unat (max_chunk_size segsize)" and sm: "unat (max_chunk_size segsize) < 2 ^ 63"
    using max_chunk_size_bounds [OF big small] by simp_all
  have nz: "segsize \<noteq> 0" using big by auto
  note w = daemon_waits_request [OF tok path short fits small nz obj fds, of store]
  have "\<exists>p. waits ?env = [Posted p] \<and> datalen p = 0"
    using none
  proof
    assume "store path = None"
    then show ?thesis using w by (simp add: serve_env_def format_request_cstr)
  next
    assume "store path = Some []"
    then show ?thesis
      using w by (simp add: serve_env_def format_request_cstr worker_stream_unfold [OF pos sm])
  qed
  then obtain p where "waits ?env = [Posted p]" and "datalen p = 0" by blast
  then show ?thesis by (simp add: serve_def handle_with_cache_def serve_env_def Let_def)
qed

lemma worker_stream_last_empty:
  assumes pos: "0 < unat maxc" and small: "unat maxc < 2 ^ 63"
  shows "worker_stream maxc content off p \<noteq> [] \<and>
         ((length content - off) mod unat maxc = 0 \<longrightarrow> chunk_bytes (last (worker_stream maxc content off p)) = [])"
proof (rule worker_stream_rule [OF pos small, where Q = "\<lambda>off p xs. xs \<noteq> [] \<and>
         ((length content - off) mod unat maxc = 0 \<longrightarrow> chunk_bytes (last xs) = [])"])
  fix off and p :: shm_payload
  assume "off < length content" and "length content - off < unat maxc"
  then show "[p\<lparr>pdata := drop off content @ drop (length content - off) (pdata p),
               datalen := word_of_nat (length content - off), is_last_chunk := 1\<rparr>] \<noteq> [] \<and>
    ((length content - off) mod unat maxc = 0 \<longrightarrow>
     chunk_bytes (last [p\<lparr>pdata := drop off content @ drop (length content - off) (pdata p),
                         datalen := word_of_nat (length content - off), is_last_chunk := 1\<rparr>]) = [])"
    by simp
next
  fix off and p :: shm_payload and xs
  assume ge: "unat maxc \<le> length content - off"
    and IH: "xs \<noteq> [] \<and> ((length content - (off + unat maxc)) mod unat maxc = 0 \<longrightarrow> chunk_bytes (last xs) = [])"
  have "(length content - off) mod unat maxc = (length content - (off + unat maxc)) mod unat maxc"
    using ge by (simp add: le_mod_geq diff_diff_left)
  with IH show "p\<lparr>pdata := take (unat maxc) (drop off content) @ drop (unat maxc) (pdata p),
                  datalen := maxc, is_last_chunk := 0\<rparr> # xs \<noteq> [] \<and>
    ((length content - off) mod unat maxc = 0 \<longrightarrow>
     chunk_bytes (last (p\<lparr>pdata := take (unat maxc) (drop off content) @ drop (unat maxc) (pdata p),
                           datalen := maxc, is_last_chunk := 0\<rparr> # xs)) = [])"
    by simp
qed (simp add: chunk_bytes_def)

lemma seg0_name: "cstr (shm_name seg0) = ''/proxy_shm_0''"
  by (simp add: seg0_def fresh_segment_def cstr_strncpy SHM_NAME_LEN_def)

lemma scenario_channel:
  "valid_token (cstr (shm_name seg0)) \<and> length (cstr (shm_name seg0)) < SHM_NAME_LEN \<and>
   payload_header_size < (4088::size_t) \<and> unat (4088::size_t) < 2 ^ 63 \<and>
   shm_objs daemon_os (cstr (shm_name seg0)) = Some (zero_payload 4088) \<and>
   Suc (open_fds daemon_os) < fd_limit daemon_os"
  by (simp add: seg0_name valid_token_def SHM_NAME_LEN_def payload_header_size_def daemon_os_def)

lemma scenario_fits:
  assumes "length path < 1000"
  shows "length (cstr (shm_name seg0) @ '' '' @ path @ '' '' @ decimal (unat (4088::size_t)) @ ''\<newline>'')
           < PROXY_REQUEST_LEN"
  using assms by (simp add: seg0_name PROXY_REQUEST_LEN_def decimal.simps)

text \<open>
  C6: end-to-end delivery. When the proxy's channel exists in the daemon's
  namespace, the request line fits, the capacity leaves a buffer, and the store
  holds a non-empty file under the path, the client receives the \<open>GF_OK\<close>
  header with the file's size followed by bodies whose concatenation is exactly
  the file, the handler reports as many bytes as the header announced, and the
  channel goes back to the pool.
\<close>

theorem serve_delivers:
  assumes tok: "valid_token (cstr (shm_name seg))" and short: "length (cstr (shm_name seg)) < SHM_NAME_LEN"
    and path: "valid_token path"
    and fits: "length (cstr (shm_name seg) @ '' '' @ path @ '' '' @ decimal (unat segsize) @ ''\<newline>'')
                 < PROXY_REQUEST_LEN"
    and big: "payload_header_size < segsize" and small: "unat segsize < 2 ^ 63"
    and obj: "shm_objs os (cstr (shm_name seg)) = Some q" and fds: "Suc (open_fds os) < fd_limit os"
    and hit: "store path = Some content" and ne: "content \<noteq> []"
  shows "\<exists>bs. h_events (serve store full_client os segsize path (seg # pool)) =
                SendHeader GF_OK (word_of_nat (length content)) # map SendBody bs \<and> concat bs = content \<and>
              h_pool (serve store full_client os segsize path (seg # pool)) = pool @ [seg] \<and>
              h_outcome (serve store full_client os segsize path (seg # pool)) = Returned (int (length content))"
proof -
  let ?S = "worker_stream (max_chunk_size segsize) content 0 (q\<lparr>total_file_size := word_of_nat (length content)\<rparr>)"
  have "concat (map chunk_bytes ?S) = content"
    using max_chunk_size_bounds [OF big small] by (simp add: worker_stream_concat)
  then show ?thesis
    by (intro exI [of _ "map chunk_bytes ?S"])
       (simp add: serve_hit [where store = store, OF tok short path fits big small obj fds hit ne] comp_def)
qed

theorem serve_delivers_witness:
  "\<exists>bs. h_events (serve spec_store full_client daemon_os 4088 ''/a.txt'' [seg0]) =
          SendHeader GF_OK 10000 # map SendBody bs \<and> concat bs = replicate 10000 7 \<and>
        h_pool (serve spec_store full_client daemon_os 4088 ''/a.txt'' [seg0]) = [seg0] \<and>
        h_outcome (serve spec_store full_client daemon_os 4088 ''/a.txt'' [seg0]) = Returned 10000"
proof -
  have p: "valid_token ''/a.txt''" by (simp add: valid_token_def)
  have f: "length (cstr (shm_name seg0) @ '' '' @ ''/a.txt'' @ '' '' @ decimal (unat (4088::size_t)) @ ''\<newline>'')
             < PROXY_REQUEST_LEN" by (rule scenario_fits) simp
  have h: "spec_store ''/a.txt'' = Some (replicate 10000 7)" by (simp add: spec_store_def)
  note c = scenario_channel
  show ?thesis
    using serve_delivers [where pool = "[]" and store = spec_store and path = "''/a.txt''", OF conjunct1 [OF c] conjunct1 [OF conjunct2 [OF c]] p f
            conjunct1 [OF conjunct2 [OF conjunct2 [OF c]]] conjunct1 [OF conjunct2 [OF conjunct2 [OF conjunct2 [OF c]]]]
            conjunct1 [OF conjunct2 [OF conjunct2 [OF conjunct2 [OF conjunct2 [OF c]]]]]
            conjunct2 [OF conjunct2 [OF conjunct2 [OF conjunct2 [OF conjunct2 [OF c]]]]] h]
    by simp
qed

text \<open>
  C30: a request the cache cannot serve, because the path is not in the store or
  names an empty file, is answered with a single \<open>GF_ERROR\<close> header (never
  \<open>GF_FILE_NOT_FOUND\<close>, and never an \<open>OK\<close> header of size 0), the handler
  returns what \<open>gfs_sendheader\<close> returned, and the channel goes back to the pool.
\<close>

theorem serve_miss_or_empty:
  assumes tok: "valid_token (cstr (shm_name seg))" and short: "length (cstr (shm_name seg)) < SHM_NAME_LEN"
    and path: "valid_token path"
    and fits: "length (cstr (shm_name seg) @ '' '' @ path @ '' '' @ decimal (unat segsize) @ ''\<newline>'')
                 < PROXY_REQUEST_LEN"
    and big: "payload_header_size < segsize" and small: "unat segsize < 2 ^ 63"
    and obj: "shm_objs os (cstr (shm_name seg)) = Some q" and fds: "Suc (open_fds os) < fd_limit os"
    and none: "store path = None \<or> store path = Some []"
  shows "h_events (serve store cl os segsize path (seg # pool)) = [SendHeader GF_ERROR 0] \<and>
         h_pool (serve store cl os segsize path (seg # pool)) = pool @ [seg] \<and>
         h_outcome (serve store cl os segsize path (seg # pool)) = Returned (cl_header_ret cl GF_ERROR)"
  by (simp add: serve_unserved [where store = store, OF tok short path fits big small obj fds none])
     (simp add: serve_env_def)

theorem serve_miss_or_empty_witness:
  "h_events (serve spec_store full_client daemon_os 4088 ''/missing.bin'' [seg0]) = [SendHeader GF_ERROR 0] \<and>
   h_events (serve spec_store full_client daemon_os 4088 ''/empty.txt'' [seg0]) = [SendHeader GF_ERROR 0] \<and>
   h_pool (serve spec_store full_client daemon_os 4088 ''/missing.bin'' [seg0]) = [seg0]"
proof -
  have p: "valid_token ''/missing.bin''" by (simp add: valid_token_def)
  have f: "length (cstr (shm_name seg0) @ '' '' @ ''/missing.bin'' @ '' '' @ decimal (unat (4088::size_t)) @ ''\<newline>'')
             < PROXY_REQUEST_LEN" by (rule scenario_fits) simp
  note c = scenario_channel
  have f2: "length (cstr (shm_name seg0) @ '' '' @ ''/empty.txt'' @ '' '' @ decimal (unat (4088::size_t)) @ ''\<newline>'')
             < PROXY_REQUEST_LEN" by (rule scenario_fits) simp
  have p2: "valid_token ''/empty.txt''" by (simp add: valid_token_def)
  have m: "spec_store ''/missing.bin'' = None \<or> spec_store ''/missing.bin'' = Some []"
    and e: "spec_store ''/empty.txt'' = None \<or> spec_store ''/empty.txt'' = Some []"
    by (simp_all add: spec_store_def)
  note M = serve_miss_or_empty [where pool = "[]" and cl = full_client and store = spec_store
      and path = "''/missing.bin''", OF conjunct1 [OF c] conjunct1 [OF conjunct2 [OF c]] p f
            conjunct1 [OF conjunct2 [OF conjunct2 [OF c]]] conjunct1 [OF conjunct2 [OF conjunct2 [OF conjunct2 [OF c]]]]
            conjunct1 [OF conjunct2 [OF conjunct2 [OF conjunct2 [OF conjunct2 [OF c]]]]]
            conjunct2 [OF conjunct2 [OF conjunct2 [OF conjunct2 [OF conjunct2 [OF c]]]]] m]
  note E = serve_miss_or_empty [where pool = "[]" and cl = full_client and store = spec_store
      and path = "''/empty.txt''", OF conjunct1 [OF c] conjunct1 [OF conjunct2 [OF c]] p2 f2
            conjunct1 [OF conjunct2 [OF conjunct2 [OF c]]] conjunct1 [OF conjunct2 [OF conjunct2 [OF conjunct2 [OF c]]]]
            conjunct1 [OF conjunct2 [OF conjunct2 [OF conjunct2 [OF conjunct2 [OF c]]]]]
            conjunct2 [OF conjunct2 [OF conjunct2 [OF conjunct2 [OF conjunct2 [OF c]]]]] e]
  from M E show ?thesis by simp
qed

text \<open>
  C32: when the buffer size divides the size of the file, the worker's loop
  publishes one more, empty, chunk flagged last after the full ones, and the
  proxy forwards it: the last thing the client is sent is a zero-length body.
\<close>

theorem serve_trailing_empty_send:
  assumes tok: "valid_token (cstr (shm_name seg))" and short: "length (cstr (shm_name seg)) < SHM_NAME_LEN"
    and path: "valid_token path"
    and fits: "length (cstr (shm_name seg) @ '' '' @ path @ '' '' @ decimal (unat segsize) @ ''\<newline>'')
                 < PROXY_REQUEST_LEN"
    and big: "payload_header_size < segsize" and small: "unat segsize < 2 ^ 63"
    and obj: "shm_objs os (cstr (shm_name seg)) = Some q" and fds: "Suc (open_fds os) < fd_limit os"
    and hit: "store path = Some content" and ne: "content \<noteq> []"
    and dvd: "unat (max_chunk_size segsize) dvd length content"
  shows "last (h_events (serve store full_client os segsize path (seg # pool))) = SendBody []"
proof -
  let ?S = "worker_stream (max_chunk_size segsize) content 0 (q\<lparr>total_file_size := word_of_nat (length content)\<rparr>)"
  have "?S \<noteq> [] \<and> chunk_bytes (last ?S) = []"
    using worker_stream_last_empty [OF max_chunk_size_bounds [OF big small], of content 0] dvd by simp
  then show ?thesis
    by (simp add: serve_hit [where store = store, OF tok short path fits big small obj fds hit ne] last_map)
qed

theorem serve_trailing_empty_send_witness:
  "last (h_events (serve spec_store full_client daemon_os 4088 ''/b.txt'' [seg0])) = SendBody []"
proof -
  have p: "valid_token ''/b.txt''" by (simp add: valid_token_def)
  have f: "length (cstr (shm_name seg0) @ '' '' @ ''/b.txt'' @ '' '' @ decimal (unat (4088::size_t)) @ ''\<newline>'')
             < PROXY_REQUEST_LEN" by (rule scenario_fits) simp
  note c = scenario_channel
  have h: "spec_store ''/b.txt'' = Some (replicate 8000 7)" by (simp add: spec_store_def)
  have d: "unat (max_chunk_size 4088) dvd length (replicate 8000 (7::byte))"
    by (simp add: max_chunk_size_def payload_header_size_def)
  show ?thesis
    by (rule serve_trailing_empty_send [where pool = "[]" and store = spec_store, OF conjunct1 [OF c] conjunct1 [OF conjunct2 [OF c]] p f
            conjunct1 [OF conjunct2 [OF conjunct2 [OF c]]] conjunct1 [OF conjunct2 [OF conjunct2 [OF conjunct2 [OF c]]]]
            conjunct1 [OF conjunct2 [OF conjunct2 [OF conjunct2 [OF conjunct2 [OF c]]]]]
            conjunct2 [OF conjunct2 [OF conjunct2 [OF conjunct2 [OF conjunct2 [OF c]]]]] h _ d]) simp
qed

end
