(* ===== verification/Handshake.thy ===== *)
theory Handshake
  imports ProxyHandler
begin

text \<open>
  One channel shared by a cache worker and a proxy handler, as an interleaving
  step relation. The worker's side is the \<open>pread\<close> loop of \<open>_worker_thread\<close>
  (\<open>src/cache/simplecached.c\<close>), the proxy's side the chunk loop of
  \<open>handle_with_cache\<close> (\<open>src/cache/handle_with_cache.c\<close>) from its first
  \<open>sem_wait\<close> on. Both sides act on the payload of the channel, whose two
  semaphore counts are fields of \<open>shm_payload\<close>. Each step is one statement of
  the code that reads or writes shared state; a \<open>sem_wait\<close> is enabled only on a
  positive count. Environment failures (\<open>sem_wait\<close> interrupted, a failed
  \<open>gfs_sendheader\<close> or \<open>gfs_send\<close>) are steps to the proxy's error label; a
  successful \<open>gfs_send\<close> sends the whole chunk, and \<open>pread\<close> of the regular
  file does not fail.
\<close>

datatype worker_pc = WFill | WWait | WCheck | WExit

datatype proxy_pc = PWait0 | PFirst | PLoop | PPost | PCheck | PWait | PDone | PError

text \<open>
  The state: both program counters, the worker's file offset, the payload, and
  two observations of the client: the bytes it has been sent and the header.
\<close>

record hs_state =
  wpc :: worker_pc
  ppc :: proxy_pc
  hs_off :: nat
  hs_pay :: shm_payload
  hs_fwd :: "byte list"
  hs_hdr :: "size_t option"

inductive hs_step :: "size_t \<Rightarrow> byte list \<Rightarrow> hs_state \<Rightarrow> hs_state \<Rightarrow> bool"
  for segsize :: size_t and content :: "byte list" where
  worker_fill:
    "wpc s = WFill \<Longrightarrow> buf = pread content (max_chunk_size segsize) (hs_off s) \<Longrightarrow> buf \<noteq> [] \<Longrightarrow>
     hs_step segsize content s
       (s\<lparr>wpc := WWait, hs_off := hs_off s + length buf,
          hs_pay := (hs_pay s)\<lparr>pdata := buf @ drop (length buf) (pdata (hs_pay s)),
                     datalen := word_of_nat (length buf),
                     is_last_chunk := (if int (length buf) < sint (max_chunk_size segsize) then 1 else 0),
                     sem_proxy_ready := Suc (sem_proxy_ready (hs_pay s))\<rparr>\<rparr>)"
| worker_eof:
    "wpc s = WFill \<Longrightarrow> pread content (max_chunk_size segsize) (hs_off s) = [] \<Longrightarrow>
     hs_step segsize content s
       (s\<lparr>wpc := WExit,
          hs_pay := (hs_pay s)\<lparr>datalen := 0, is_last_chunk := 1,
                     sem_proxy_ready := Suc (sem_proxy_ready (hs_pay s))\<rparr>\<rparr>)"
| worker_wait:
    "wpc s = WWait \<Longrightarrow> sem_cache_ready (hs_pay s) = Suc k \<Longrightarrow>
     hs_step segsize content s (s\<lparr>wpc := WCheck, hs_pay := (hs_pay s)\<lparr>sem_cache_ready := k\<rparr>\<rparr>)"
| worker_last:
    "wpc s = WCheck \<Longrightarrow> is_last_chunk (hs_pay s) \<noteq> 0 \<Longrightarrow> hs_step segsize content s (s\<lparr>wpc := WExit\<rparr>)"
| worker_more:
    "wpc s = WCheck \<Longrightarrow> is_last_chunk (hs_pay s) = 0 \<Longrightarrow> hs_step segsize content s (s\<lparr>wpc := WFill\<rparr>)"
| proxy_wait_first:
    "ppc s = PWait0 \<Longrightarrow> sem_proxy_ready (hs_pay s) = Suc k \<Longrightarrow>
     hs_step segsize content s (s\<lparr>ppc := PFirst, hs_pay := (hs_pay s)\<lparr>sem_proxy_ready := k\<rparr>\<rparr>)"
| proxy_wait_first_fail:
    "ppc s = PWait0 \<Longrightarrow> hs_step segsize content s (s\<lparr>ppc := PError\<rparr>)"
| proxy_empty:
    "ppc s = PFirst \<Longrightarrow> datalen (hs_pay s) = 0 \<Longrightarrow> hs_step segsize content s (s\<lparr>ppc := PError\<rparr>)"
| proxy_header:
    "ppc s = PFirst \<Longrightarrow> datalen (hs_pay s) \<noteq> 0 \<Longrightarrow>
     hs_step segsize content s (s\<lparr>ppc := PLoop, hs_hdr := Some (total_file_size (hs_pay s))\<rparr>)"
| proxy_header_fail:
    "ppc s = PFirst \<Longrightarrow> datalen (hs_pay s) \<noteq> 0 \<Longrightarrow> hs_step segsize content s (s\<lparr>ppc := PError\<rparr>)"
| proxy_overflow:
    "ppc s = PLoop \<Longrightarrow> segsize - payload_header_size < datalen (hs_pay s) \<Longrightarrow>
     hs_step segsize content s (s\<lparr>ppc := PError\<rparr>)"
| proxy_send:
    "ppc s = PLoop \<Longrightarrow> \<not> segsize - payload_header_size < datalen (hs_pay s) \<Longrightarrow>
     hs_step segsize content s (s\<lparr>ppc := PPost, hs_fwd := hs_fwd s @ chunk_bytes (hs_pay s)\<rparr>)"
| proxy_send_fail:
    "ppc s = PLoop \<Longrightarrow> \<not> segsize - payload_header_size < datalen (hs_pay s) \<Longrightarrow>
     hs_step segsize content s (s\<lparr>ppc := PError\<rparr>)"
| proxy_post:
    "ppc s = PPost \<Longrightarrow>
     hs_step segsize content s
       (s\<lparr>ppc := PCheck, hs_pay := (hs_pay s)\<lparr>sem_cache_ready := Suc (sem_cache_ready (hs_pay s))\<rparr>\<rparr>)"
| proxy_last:
    "ppc s = PCheck \<Longrightarrow> is_last_chunk (hs_pay s) \<noteq> 0 \<Longrightarrow> hs_step segsize content s (s\<lparr>ppc := PDone\<rparr>)"
| proxy_more:
    "ppc s = PCheck \<Longrightarrow> is_last_chunk (hs_pay s) = 0 \<Longrightarrow> hs_step segsize content s (s\<lparr>ppc := PWait\<rparr>)"
| proxy_wait:
    "ppc s = PWait \<Longrightarrow> sem_proxy_ready (hs_pay s) = Suc k \<Longrightarrow>
     hs_step segsize content s (s\<lparr>ppc := PLoop, hs_pay := (hs_pay s)\<lparr>sem_proxy_ready := k\<rparr>\<rparr>)"
| proxy_wait_fail:
    "ppc s = PWait \<Longrightarrow> hs_step segsize content s (s\<lparr>ppc := PError\<rparr>)"

text \<open>
  The start of a transfer: the worker has set the file size in the payload and
  is about to read, the proxy has written its request and is about to wait.
\<close>

definition hs_start :: "byte list \<Rightarrow> shm_payload \<Rightarrow> hs_state" where
  "hs_start content p =
     \<lparr>wpc = WFill, ppc = PWait0, hs_off = 0,
      hs_pay = p\<lparr>total_file_size := word_of_nat (length content)\<rparr>, hs_fwd = [], hs_hdr = None\<rparr>"

text \<open>
  The invariant of a transfer started on a fresh channel, in three parts.
  \<open>hs_sync\<close>: the semaphore counts and who may run; at most one count is
  positive, the worker is blocked while the proxy reads the chunk, and it has
  consumed the proxy's post before it reads again. \<open>hs_data\<close>: what the client
  has been sent against the worker's offset; a chunk is \<open>pending\<close> between the
  worker's fill and the proxy's send, and then the sent bytes followed by the
  chunk are the file up to the offset, otherwise the sent bytes are. The
  last-chunk flag, the divisibility of the offset by the buffer size and the
  length of the final chunk are tracked for the residual counts.
  \<open>hs_hdr_ok\<close>: the header, once sent, announces the file size.
\<close>

definition hs_sync :: "hs_state \<Rightarrow> bool" where
  "hs_sync s \<longleftrightarrow>
     (let p = hs_pay s; W = wpc s; P = ppc s; L = (is_last_chunk p \<noteq> 0) in
      sem_proxy_ready p + sem_cache_ready p \<le> 1 \<and>
      ((P = PFirst \<or> P = PLoop \<or> P = PPost) \<longrightarrow>
         (W = WWait \<or> W = WExit) \<and> sem_proxy_ready p = 0 \<and> sem_cache_ready p = 0) \<and>
      (sem_proxy_ready p \<noteq> 0 \<longrightarrow> W = WWait \<or> W = WExit) \<and>
      ((W = WFill \<or> W = WCheck) \<longrightarrow> sem_cache_ready p = 0) \<and>
      (W = WFill \<and> P \<noteq> PWait0 \<and> P \<noteq> PError \<longrightarrow> \<not> L) \<and>
      (P = PWait0 \<longrightarrow> sem_cache_ready p = 0) \<and>
      (P = PDone \<longrightarrow> L \<and> W \<noteq> WFill))"

definition hs_data :: "size_t \<Rightarrow> byte list \<Rightarrow> hs_state \<Rightarrow> bool" where
  "hs_data segsize content s \<longleftrightarrow>
     (let p = hs_pay s; W = wpc s; P = ppc s; L = (is_last_chunk p \<noteq> 0);
          M = unat (max_chunk_size segsize); off = hs_off s; fwd = hs_fwd s;
          pending = ((W = WWait \<or> W = WExit) \<and> (sem_proxy_ready p \<noteq> 0 \<or> P = PFirst \<or> P = PLoop)) in
      off \<le> length content \<and>
      prefix fwd (take off content) \<and>
      ((W = WFill \<or> W = WCheck) \<longrightarrow> fwd = take off content) \<and>
      (pending \<longrightarrow> fwd @ chunk_bytes p = take off content \<and> unat (datalen p) \<le> M) \<and>
      (\<not> pending \<and> (W = WWait \<or> W = WExit) \<and>
         (sem_cache_ready p \<noteq> 0 \<or> P \<noteq> PError \<and> P \<noteq> PWait0) \<longrightarrow> fwd = take off content) \<and>
      (W \<noteq> WFill \<longrightarrow> L \<longrightarrow> off = length content) \<and>
      (W = WFill \<longrightarrow> M dvd off) \<and>
      ((W = WWait \<or> W = WCheck) \<longrightarrow>
         0 < unat (datalen p) \<and> (L \<longleftrightarrow> unat (datalen p) < M) \<and> (L \<longrightarrow> \<not> M dvd off) \<and>
         (\<not> L \<longrightarrow> M dvd off)) \<and>
      (W = WExit \<longrightarrow> L \<and> (datalen p = 0 \<longleftrightarrow> M dvd length content)) \<and>
      (W = WExit \<and> datalen p \<noteq> 0 \<longrightarrow>
         sem_proxy_ready p = 0 \<and> sem_cache_ready p = 0 \<and> P \<noteq> PFirst \<and> P \<noteq> PLoop \<and> P \<noteq> PPost) \<and>
      (W = WExit \<and> datalen p = 0 \<and> P \<noteq> PFirst \<and> P \<noteq> PLoop \<and> P \<noteq> PPost \<and> P \<noteq> PError \<longrightarrow>
         sem_proxy_ready p + sem_cache_ready p = 1))"

definition hs_hdr_ok :: "byte list \<Rightarrow> hs_state \<Rightarrow> bool" where
  "hs_hdr_ok content s \<longleftrightarrow>
     total_file_size (hs_pay s) = word_of_nat (length content) \<and>
     (ppc s \<noteq> PWait0 \<and> ppc s \<noteq> PFirst \<and> ppc s \<noteq> PError \<longrightarrow>
        hs_hdr s = Some (word_of_nat (length content)))"

definition hs_inv :: "size_t \<Rightarrow> byte list \<Rightarrow> hs_state \<Rightarrow> bool" where
  "hs_inv segsize content s \<longleftrightarrow> hs_sync s \<and> hs_data segsize content s \<and> hs_hdr_ok content s"

text \<open>A channel whose two semaphore counts are zero, as \<open>shm_segment_create\<close> leaves it.\<close>

definition hs_fresh :: "shm_payload \<Rightarrow> bool" where
  "hs_fresh p \<longleftrightarrow> sem_proxy_ready p = 0 \<and> sem_cache_ready p = 0"

subsection \<open>A scheduler\<close>

text \<open>
  \<open>hs_next\<close> runs one statement of the chosen side when it can proceed, taking
  the success branch of every call that can fail; \<open>hs_exec\<close> runs a schedule.
  Every run of the scheduler is a run of \<open>hs_step\<close> (\<open>hs_exec_reach\<close>), so
  concrete interleavings are evaluated by \<open>simp\<close>.
\<close>

datatype actor = Worker | Proxy

fun hs_next :: "size_t \<Rightarrow> byte list \<Rightarrow> actor \<Rightarrow> hs_state \<Rightarrow> hs_state option" where
  "hs_next segsize content Worker s =
     (let p = hs_pay s in
      case wpc s of
        WFill \<Rightarrow>
          (let buf = pread content (max_chunk_size segsize) (hs_off s) in
           if buf = [] then
             Some (s\<lparr>wpc := WExit,
                     hs_pay := p\<lparr>datalen := 0, is_last_chunk := 1, sem_proxy_ready := Suc (sem_proxy_ready p)\<rparr>\<rparr>)
           else
             Some (s\<lparr>wpc := WWait, hs_off := hs_off s + length buf,
                     hs_pay := p\<lparr>pdata := buf @ drop (length buf) (pdata p),
                                datalen := word_of_nat (length buf),
                                is_last_chunk := (if int (length buf) < sint (max_chunk_size segsize) then 1 else 0),
                                sem_proxy_ready := Suc (sem_proxy_ready p)\<rparr>\<rparr>))
      | WWait \<Rightarrow>
          (case sem_cache_ready p of 0 \<Rightarrow> None
           | Suc k \<Rightarrow> Some (s\<lparr>wpc := WCheck, hs_pay := p\<lparr>sem_cache_ready := k\<rparr>\<rparr>))
      | WCheck \<Rightarrow> Some (s\<lparr>wpc := (if is_last_chunk p \<noteq> 0 then WExit else WFill)\<rparr>)
      | WExit \<Rightarrow> None)"
| "hs_next segsize content Proxy s =
     (let p = hs_pay s in
      case ppc s of
        PWait0 \<Rightarrow>
          (case sem_proxy_ready p of 0 \<Rightarrow> None
           | Suc k \<Rightarrow> Some (s\<lparr>ppc := PFirst, hs_pay := p\<lparr>sem_proxy_ready := k\<rparr>\<rparr>))
      | PFirst \<Rightarrow>
          Some (if datalen p = 0 then s\<lparr>ppc := PError\<rparr>
                else s\<lparr>ppc := PLoop, hs_hdr := Some (total_file_size p)\<rparr>)
      | PLoop \<Rightarrow>
          Some (if segsize - payload_header_size < datalen p then s\<lparr>ppc := PError\<rparr>
                else s\<lparr>ppc := PPost, hs_fwd := hs_fwd s @ chunk_bytes p\<rparr>)
      | PPost \<Rightarrow> Some (s\<lparr>ppc := PCheck, hs_pay := p\<lparr>sem_cache_ready := Suc (sem_cache_ready p)\<rparr>\<rparr>)
      | PCheck \<Rightarrow> Some (s\<lparr>ppc := (if is_last_chunk p \<noteq> 0 then PDone else PWait)\<rparr>)
      | PWait \<Rightarrow>
          (case sem_proxy_ready p of 0 \<Rightarrow> None
           | Suc k \<Rightarrow> Some (s\<lparr>ppc := PLoop, hs_pay := p\<lparr>sem_proxy_ready := k\<rparr>\<rparr>))
      | PDone \<Rightarrow> None
      | PError \<Rightarrow> None)"

fun hs_exec :: "size_t \<Rightarrow> byte list \<Rightarrow> actor list \<Rightarrow> hs_state \<Rightarrow> hs_state option" where
  "hs_exec segsize content [] s = Some s"
| "hs_exec segsize content (a # as) s =
     (case hs_next segsize content a s of None \<Rightarrow> None | Some s' \<Rightarrow> hs_exec segsize content as s')"

text \<open>Two concrete interleavings: the \<open>is_last_chunk\<close> race, and a channel reused after a file whose size the buffer divides.\<close>

definition race_schedule :: "actor list" where
  "race_schedule = [Worker, Proxy, Proxy, Proxy, Proxy, Worker, Worker, Worker, Proxy]"

definition race_final :: hs_state where
  "race_final =
     \<lparr>wpc = WWait, ppc = PDone, hs_off = 3,
      hs_pay = \<lparr>sem_proxy_ready = 1, sem_cache_ready = 0, datalen = 1, is_last_chunk = 1,
                total_file_size = 3, pdata = [3, 2]\<rparr>,
      hs_fwd = [1, 2], hs_hdr = Some 3\<rparr>"

definition reuse_first_schedule :: "actor list" where
  "reuse_first_schedule =
     [Worker, Proxy, Proxy, Proxy, Proxy, Proxy, Worker, Worker, Worker, Proxy, Proxy, Proxy, Proxy]"

definition reuse_first_final :: hs_state where
  "reuse_first_final =
     \<lparr>wpc = WExit, ppc = PDone, hs_off = 1,
      hs_pay = \<lparr>sem_proxy_ready = 0, sem_cache_ready = 1, datalen = 0, is_last_chunk = 1,
                total_file_size = 1, pdata = [7]\<rparr>,
      hs_fwd = [7], hs_hdr = Some 1\<rparr>"

definition reuse_second_schedule :: "actor list" where
  "reuse_second_schedule = [Worker, Worker, Worker, Worker, Proxy, Proxy, Proxy]"

definition reuse_second_final :: hs_state where
  "reuse_second_final =
     \<lparr>wpc = WWait, ppc = PPost, hs_off = 2,
      hs_pay = \<lparr>sem_proxy_ready = 1, sem_cache_ready = 0, datalen = 1, is_last_chunk = 0,
                total_file_size = 2, pdata = [9]\<rparr>,
      hs_fwd = [9], hs_hdr = Some 2\<rparr>"


subsection \<open>Properties\<close>

lemma pread_chunk:
  assumes pos: "0 < unat maxc" and small: "unat maxc < 2 ^ 63"
    and buf: "buf = pread content maxc off" and ne: "buf \<noteq> []"
  shows "off < length content" and "length buf \<le> unat maxc" and "off + length buf \<le> length content"
    and "take off content @ buf = take (off + length buf) content"
    and "length buf < unat maxc \<Longrightarrow> off + length buf = length content"
    and "unat (word_of_nat (length buf) :: size_t) = length buf"
    and "(int (length buf) < sint maxc) = (length buf < unat maxc)"
proof -
  show "off < length content" using buf ne by (auto simp: pread_def)
  show le: "length buf \<le> unat maxc" using buf by (simp add: pread_def)
  show "off + length buf \<le> length content" using buf ne by (auto simp: pread_def)
  show "take off content @ buf = take (off + length buf) content"
    using buf by (simp add: pread_def take_add min_def)
  show "length buf < unat maxc \<Longrightarrow> off + length buf = length content"
    using buf ne by (auto simp: pread_def min_def split: if_splits)
  show "unat (word_of_nat (length buf) :: size_t) = length buf"
    using le by (rule unat_of_nat_chunk)
  show "(int (length buf) < sint maxc) = (length buf < unat maxc)"
    by (simp only: sint_small [OF small] of_nat_less_iff)
qed

lemma chunk_bytes_fill:
  "unat (word_of_nat (length buf) :: size_t) = length buf \<Longrightarrow>
   chunk_bytes (p\<lparr>pdata := buf @ drop (length buf) (pdata p), datalen := word_of_nat (length buf),
                  is_last_chunk := l, sem_proxy_ready := r\<rparr>) = buf"
  by (simp add: chunk_bytes_def)

lemma chunk_bytes_empty: "datalen p = 0 \<Longrightarrow> chunk_bytes p = []"
  by (simp add: chunk_bytes_def)

lemma chunk_bytes_sems [simp]:
  "chunk_bytes (p\<lparr>sem_proxy_ready := r\<rparr>) = chunk_bytes p"
  "chunk_bytes (p\<lparr>sem_cache_ready := c\<rparr>) = chunk_bytes p"
  by (simp_all add: chunk_bytes_def)

lemma prefix_take_mono: "a \<le> b \<Longrightarrow> prefix (take a xs) (take b xs)"
  by (metis min.absorb1 prefix_def take_add le_add_diff_inverse)

lemma dvd_short_chunk: "(M::nat) dvd a \<Longrightarrow> 0 < b \<Longrightarrow> b < M \<Longrightarrow> \<not> M dvd (a + b)"
  by (simp add: dvd_add_right_iff nat_dvd_not_less)


lemmas hs_defs = hs_inv_def hs_sync_def hs_data_def hs_hdr_ok_def Let_def


lemma hs_inv_worker_wait: "hs_inv segsize content s \<Longrightarrow> wpc s = WWait \<Longrightarrow> sem_cache_ready (hs_pay s) = Suc k \<Longrightarrow>
  hs_inv segsize content (s\<lparr>wpc := WCheck, hs_pay := (hs_pay s)\<lparr>sem_cache_ready := k\<rparr>\<rparr>)"
  by (cases "ppc s") (auto simp: hs_defs)

lemma hs_inv_worker_more: "hs_inv segsize content s \<Longrightarrow> wpc s = WCheck \<Longrightarrow> is_last_chunk (hs_pay s) = 0 \<Longrightarrow> hs_inv segsize content (s\<lparr>wpc := WFill\<rparr>)"
  by (cases "ppc s") (auto simp: hs_defs)

lemma hs_inv_proxy_wait_first: "hs_inv segsize content s \<Longrightarrow> ppc s = PWait0 \<Longrightarrow> sem_proxy_ready (hs_pay s) = Suc k \<Longrightarrow>
     hs_inv segsize content (s\<lparr>ppc := PFirst, hs_pay := (hs_pay s)\<lparr>sem_proxy_ready := k\<rparr>\<rparr>)"
  by (cases "wpc s") (auto simp: hs_defs)

lemma hs_inv_worker_fill:
  assumes inv: "hs_inv segsize content s" and w: "wpc s = WFill"
    and pos: "0 < unat (max_chunk_size segsize)" and small: "unat (max_chunk_size segsize) < 2 ^ 63"
    and buf: "buf = pread content (max_chunk_size segsize) (hs_off s)" and ne: "buf \<noteq> []"
  shows "hs_inv segsize content
       (s\<lparr>wpc := WWait, hs_off := hs_off s + length buf,
          hs_pay := (hs_pay s)\<lparr>pdata := buf @ drop (length buf) (pdata (hs_pay s)),
                     datalen := word_of_nat (length buf),
                     is_last_chunk := (if int (length buf) < sint (max_chunk_size segsize) then 1 else 0),
                     sem_proxy_ready := Suc (sem_proxy_ready (hs_pay s))\<rparr>\<rparr>)"
proof -
  note f = pread_chunk [OF pos small buf ne]
  let ?M = "unat (max_chunk_size segsize)" and ?n = "length buf" and ?off = "hs_off s"
  have dv: "?M dvd ?off" and fw: "hs_fwd s = take ?off content"
    and sems: "sem_proxy_ready (hs_pay s) = 0" "sem_cache_ready (hs_pay s) = 0"
    and tfs: "total_file_size (hs_pay s) = word_of_nat (length content)"
    and P: "ppc s \<noteq> PFirst" "ppc s \<noteq> PLoop" "ppc s \<noteq> PPost"
    using inv w by (auto simp: hs_defs)
  have cb: "chunk_bytes ((hs_pay s)\<lparr>pdata := buf @ drop ?n (pdata (hs_pay s)),
              datalen := word_of_nat ?n, is_last_chunk := l, sem_proxy_ready := r\<rparr>) = buf" for l r
    using f(6) by (rule chunk_bytes_fill)
  have pre: "prefix (take ?off content) (take (?off + ?n) content)"
    by (rule prefix_take_mono) simp
  have ifeq: "(if int ?n < sint (max_chunk_size segsize) then 1 else 0) = (if ?n < ?M then 1 else (0::int))"
    using f(7) by simp
  have PD: "ppc s \<noteq> PDone" and cr0: "ppc s = PWait0 \<longrightarrow> sem_cache_ready (hs_pay s) = 0"
    using inv w by (auto simp: hs_defs)
  have hdr: "ppc s \<noteq> PWait0 \<and> ppc s \<noteq> PFirst \<and> ppc s \<noteq> PError \<longrightarrow>
             hs_hdr s = Some (word_of_nat (length content))"
    using inv by (simp add: hs_defs)
  let ?L = "if ?n < ?M then 1 else (0::int)"
  let ?s' = "s\<lparr>wpc := WWait, hs_off := ?off + ?n,
          hs_pay := (hs_pay s)\<lparr>pdata := buf @ drop ?n (pdata (hs_pay s)), datalen := word_of_nat ?n,
                     is_last_chunk := ?L, sem_proxy_ready := Suc (sem_proxy_ready (hs_pay s))\<rparr>\<rparr>"
  have sync: "hs_sync ?s'"
    using sems P PD by (simp add: hs_sync_def)
  have hd: "hs_hdr_ok content ?s'"
    using tfs hdr by (simp add: hs_hdr_ok_def)
  have ldvd: "(?n < ?M \<longrightarrow> \<not> ?M dvd (?off + ?n)) \<and> (\<not> ?n < ?M \<longrightarrow> ?M dvd (?off + ?n))"
  proof (cases "?n < ?M")
    case True
    moreover have "0 < ?n" using ne by simp
    ultimately show ?thesis using dvd_short_chunk [OF dv] by simp
  next
    case False
    then have "?n = ?M" using f(2) by simp
    then show ?thesis using dv by simp
  qed
  have data: "hs_data segsize content ?s'"
    unfolding hs_data_def Let_def
    using f(2) f(3) f(4) f(5) f(6) ne cb [where l = ?L and r = "Suc (sem_proxy_ready (hs_pay s))"] pre fw ldvd
    by simp
  show ?thesis
    unfolding hs_inv_def ifeq using sync hd data by simp
qed


lemma hs_inv_worker_eof:
  assumes inv: "hs_inv segsize content s" and w: "wpc s = WFill"
    and eof: "pread content (max_chunk_size segsize) (hs_off s) = []"
    and pos: "0 < unat (max_chunk_size segsize)"
  shows "hs_inv segsize content
       (s\<lparr>wpc := WExit,
          hs_pay := (hs_pay s)\<lparr>datalen := 0, is_last_chunk := 1,
                     sem_proxy_ready := Suc (sem_proxy_ready (hs_pay s))\<rparr>\<rparr>)"
proof -
  have "length content \<le> hs_off s" using eof pos by (simp add: pread_def)
  then show ?thesis
    using inv w by (cases "ppc s") (auto simp: hs_defs chunk_bytes_empty [of "(hs_pay s)\<lparr>datalen := 0, is_last_chunk := 1\<rparr>"])
qed

lemma hs_inv_no_overflow:
  assumes inv: "hs_inv segsize content s" and p: "ppc s = PLoop"
    and ov: "segsize - payload_header_size < datalen (hs_pay s)"
  shows False
proof -
  have "unat (datalen (hs_pay s)) \<le> unat (max_chunk_size segsize)"
    using inv p by (auto simp: hs_defs)
  with ov show False by (simp add: max_chunk_size_def word_less_nat_alt)
qed

lemma hs_inv_proxy_send:
  "hs_inv segsize content s \<Longrightarrow> ppc s = PLoop \<Longrightarrow>
   hs_inv segsize content (s\<lparr>ppc := PPost, hs_fwd := hs_fwd s @ chunk_bytes (hs_pay s)\<rparr>)"
  by (cases "wpc s") (auto simp: hs_defs)
lemma hs_inv_proxy_wait: "hs_inv segsize content s \<Longrightarrow> ppc s = PWait \<Longrightarrow> sem_proxy_ready (hs_pay s) = Suc k \<Longrightarrow>
     hs_inv segsize content (s\<lparr>ppc := PLoop, hs_pay := (hs_pay s)\<lparr>sem_proxy_ready := k\<rparr>\<rparr>)"
  by (cases "wpc s") (auto simp: hs_defs)
lemma hs_inv_proxy_post: "hs_inv segsize content s \<Longrightarrow> ppc s = PPost \<Longrightarrow>
     hs_inv segsize content (s\<lparr>ppc := PCheck, hs_pay := (hs_pay s)\<lparr>sem_cache_ready := Suc (sem_cache_ready (hs_pay s))\<rparr>\<rparr>)"
  by (cases "wpc s") (auto simp: hs_defs)
lemma hs_inv_proxy_last: "hs_inv segsize content s \<Longrightarrow> ppc s = PCheck \<Longrightarrow> is_last_chunk (hs_pay s) \<noteq> 0 \<Longrightarrow>
     hs_inv segsize content (s\<lparr>ppc := PDone\<rparr>)"
  by (cases "wpc s") (auto simp: hs_defs)
lemma hs_inv_proxy_more: "hs_inv segsize content s \<Longrightarrow> ppc s = PCheck \<Longrightarrow> is_last_chunk (hs_pay s) = 0 \<Longrightarrow>
     hs_inv segsize content (s\<lparr>ppc := PWait\<rparr>)"
  by (cases "wpc s") (auto simp: hs_defs)
lemma hs_inv_proxy_header: "hs_inv segsize content s \<Longrightarrow> ppc s = PFirst \<Longrightarrow> datalen (hs_pay s) \<noteq> 0 \<Longrightarrow>
     hs_inv segsize content (s\<lparr>ppc := PLoop, hs_hdr := Some (total_file_size (hs_pay s))\<rparr>)"
  by (cases "wpc s") (auto simp: hs_defs)
lemma hs_inv_proxy_error: "hs_inv segsize content s \<Longrightarrow> ppc s \<noteq> PCheck \<Longrightarrow> ppc s \<noteq> PPost \<Longrightarrow> ppc s \<noteq> PDone \<Longrightarrow>
     hs_inv segsize content (s\<lparr>ppc := PError\<rparr>)"
  by (cases "wpc s"; cases "ppc s") (auto simp: hs_defs)
lemma hs_inv_worker_last: "hs_inv segsize content s \<Longrightarrow> wpc s = WCheck \<Longrightarrow> is_last_chunk (hs_pay s) \<noteq> 0 \<Longrightarrow>
     hs_inv segsize content (s\<lparr>wpc := WExit\<rparr>)"
  by (cases "ppc s") (auto simp: hs_defs)

lemma hs_inv_step:
  assumes step: "hs_step segsize content s s'" and inv: "hs_inv segsize content s"
    and pos: "0 < unat (max_chunk_size segsize)" and small: "unat (max_chunk_size segsize) < 2 ^ 63"
  shows "hs_inv segsize content s'"
  using step
proof cases
  case (worker_fill buf)
  then show ?thesis using hs_inv_worker_fill [OF inv _ pos small] by simp
next
  case worker_eof
  then show ?thesis using hs_inv_worker_eof [OF inv _ _ pos] by simp
next
  case (worker_wait k)
  then show ?thesis using hs_inv_worker_wait [OF inv] by simp
next
  case worker_last
  then show ?thesis using hs_inv_worker_last [OF inv] by simp
next
  case worker_more
  then show ?thesis using hs_inv_worker_more [OF inv] by simp
next
  case (proxy_wait_first k)
  then show ?thesis using hs_inv_proxy_wait_first [OF inv] by simp
next
  case proxy_overflow
  then show ?thesis using hs_inv_no_overflow [OF inv] by simp
next
  case proxy_send
  then show ?thesis using hs_inv_proxy_send [OF inv] by simp
next
  case proxy_post
  then show ?thesis using hs_inv_proxy_post [OF inv] by simp
next
  case proxy_last
  then show ?thesis using hs_inv_proxy_last [OF inv] by simp
next
  case proxy_more
  then show ?thesis using hs_inv_proxy_more [OF inv] by simp
next
  case (proxy_wait k)
  then show ?thesis using hs_inv_proxy_wait [OF inv] by simp
next
  case proxy_header
  then show ?thesis using hs_inv_proxy_header [OF inv] by simp
qed (use hs_inv_proxy_error [OF inv] in simp)+

lemma hs_inv_start: "hs_fresh p \<Longrightarrow> hs_inv segsize content (hs_start content p)"
  by (simp add: hs_defs hs_start_def hs_fresh_def)

lemma hs_inv_reach:
  assumes reach: "(hs_step segsize content)\<^sup>*\<^sup>* (hs_start content p) s" and fresh: "hs_fresh p"
    and big: "payload_header_size < segsize" and small: "unat segsize < 2 ^ 63"
  shows "hs_inv segsize content s"
  using reach
proof (induction rule: rtranclp_induct)
  case base
  then show ?case using fresh by (rule hs_inv_start)
next
  case (step s s')
  then show ?case using hs_inv_step max_chunk_size_bounds [OF big small] by blast
qed

lemma hs_next_step:
  assumes "hs_next segsize content a s = Some s'"
  shows "hs_step segsize content s s'"
proof (cases a)
  case Worker
  show ?thesis
  proof (cases "wpc s")
    case WFill
    show ?thesis
    proof (cases "pread content (max_chunk_size segsize) (hs_off s) = []")
      case True
      with assms Worker WFill show ?thesis by (auto simp: Let_def intro: hs_step.worker_eof)
    next
      case False
      with assms Worker WFill hs_step.worker_fill [OF WFill refl False] show ?thesis
        by (simp add: Let_def split del: if_split)
    qed
  qed (use assms Worker in \<open>auto simp: Let_def intro: hs_step.intros split: if_splits nat.splits\<close>)
next
  case Proxy
  with assms show ?thesis
    by (cases "ppc s") (auto simp: Let_def intro: hs_step.intros split: if_splits nat.splits)
qed

lemma hs_exec_reach: "hs_exec segsize content as s = Some s' \<Longrightarrow> (hs_step segsize content)\<^sup>*\<^sup>* s s'"
proof (induction as arbitrary: s)
  case Nil
  then show ?case by simp
next
  case (Cons a as)
  then obtain s1 where "hs_next segsize content a s = Some s1" and "hs_exec segsize content as s1 = Some s'"
    by (auto split: option.splits)
  then show ?case using Cons.IH hs_next_step by (meson converse_rtranclp_into_rtranclp)
qed


lemmas hs_eval = hs_start_def zero_payload_def pread_def max_chunk_size_def payload_header_size_def
  chunk_bytes_def

lemma race_reach: "(hs_step 90 [1, 2, 3])\<^sup>*\<^sup>* (hs_start [1, 2, 3] (zero_payload 90)) race_final"
proof -
  have "hs_exec 90 [1, 2, 3] race_schedule (hs_start [1, 2, 3] (zero_payload 90)) = Some race_final"
    by (simp add: race_schedule_def race_final_def hs_eval)
  then show ?thesis by (rule hs_exec_reach)
qed

lemma reuse_first_reach: "(hs_step 89 [7])\<^sup>*\<^sup>* (hs_start [7] (zero_payload 89)) reuse_first_final"
proof -
  have "hs_exec 89 [7] reuse_first_schedule (hs_start [7] (zero_payload 89)) = Some reuse_first_final"
    by (simp add: reuse_first_schedule_def reuse_first_final_def hs_eval)
  then show ?thesis by (rule hs_exec_reach)
qed

lemma reuse_second_run:
  "hs_exec 89 [8, 9] reuse_second_schedule (hs_start [8, 9] (hs_pay reuse_first_final)) =
     Some reuse_second_final"
  by (simp add: reuse_second_schedule_def reuse_first_final_def reuse_second_final_def hs_eval)

lemma hs_stuck:
  "wpc s = WWait \<Longrightarrow> sem_cache_ready (hs_pay s) = 0 \<Longrightarrow> ppc s = PDone \<or> ppc s = PError \<Longrightarrow>
   \<not> (\<exists>s'. hs_step segsize content s s')"
  by (auto elim: hs_step.cases)

lemma fresh_zero_payload: "hs_fresh (zero_payload sz)"
  by (simp add: hs_fresh_def zero_payload_def)

text \<open>
  C5: safety of the handshake on a fresh channel, under every interleaving of
  worker and proxy (and every environment failure): the client has been sent a
  prefix of the file, at most one of the two semaphores is positive, and while
  the proxy reads the payload (first-chunk check, length check, send, post) the
  worker is blocked on \<open>sem_cache_ready\<close> or gone, so the data it forwards is
  never overwritten under it.
\<close>

theorem hs_safe:
  assumes "(hs_step segsize content)\<^sup>*\<^sup>* (hs_start content p) s" and "hs_fresh p"
    and "payload_header_size < segsize" and "unat segsize < 2 ^ 63"
  shows "prefix (hs_fwd s) content \<and> sem_proxy_ready (hs_pay s) + sem_cache_ready (hs_pay s) \<le> 1 \<and>
         ((ppc s = PFirst \<or> ppc s = PLoop \<or> ppc s = PPost) \<longrightarrow> wpc s = WWait \<or> wpc s = WExit)"
proof -
  have inv: "hs_inv segsize content s" using assms by (rule hs_inv_reach)
  then have "prefix (hs_fwd s) (take (hs_off s) content)" by (simp add: hs_defs)
  then have "prefix (hs_fwd s) content" using take_is_prefix by (rule prefix_order.trans)
  moreover have "sem_proxy_ready (hs_pay s) + sem_cache_ready (hs_pay s) \<le> 1 \<and>
         ((ppc s = PFirst \<or> ppc s = PLoop \<or> ppc s = PPost) \<longrightarrow> wpc s = WWait \<or> wpc s = WExit)"
    using inv by (simp add: hs_defs)
  ultimately show ?thesis by blast
qed

text \<open>
  C9: when the proxy leaves its loop normally, the client got the \<open>GF_OK\<close>
  header with the file size, and either the whole file, or (the race of the
  \<open>is_last_chunk\<close> read after \<open>sem_post\<close>) everything but the chunk the worker
  had already published, with that chunk's post still pending.
\<close>

theorem hs_done:
  assumes "(hs_step segsize content)\<^sup>*\<^sup>* (hs_start content p) s" and "hs_fresh p"
    and "payload_header_size < segsize" and "unat segsize < 2 ^ 63" and fin: "ppc s = PDone"
  shows "hs_hdr s = Some (word_of_nat (length content)) \<and>
         (hs_fwd s = content \<or>
          wpc s = WWait \<and> sem_proxy_ready (hs_pay s) = 1 \<and> hs_fwd s @ chunk_bytes (hs_pay s) = content)"
proof -
  have "hs_inv segsize content s" using assms(1-4) by (rule hs_inv_reach)
  with fin show ?thesis
    by (cases "wpc s") (auto simp: hs_defs chunk_bytes_empty)
qed

text \<open>
  C12: when both sides are done, the semaphore counts left on the channel add up
  to 1 exactly when the buffer size divides the file size (the empty last chunk
  is posted without a wait on the worker's side, and its post is left over),
  and to 0 otherwise.
\<close>

theorem hs_residual:
  assumes "(hs_step segsize content)\<^sup>*\<^sup>* (hs_start content p) s" and "hs_fresh p"
    and "payload_header_size < segsize" and "unat segsize < 2 ^ 63"
    and "wpc s = WExit" and "ppc s = PDone"
  shows "sem_proxy_ready (hs_pay s) + sem_cache_ready (hs_pay s) =
           (if unat (max_chunk_size segsize) dvd length content then 1 else 0)"
proof -
  have "hs_inv segsize content s" using assms(1-4) by (rule hs_inv_reach)
  with assms(5,6) show ?thesis by (auto simp: hs_defs)
qed

text \<open>
  C11: the race is reachable: for a 3-byte file through a 2-byte buffer, the worker
  publishes the final 1-byte chunk between the proxy's \<open>sem_post\<close> and its read
  of \<open>is_last_chunk\<close>; the proxy returns after 2 bytes and the worker blocks on
  \<open>sem_cache_ready\<close> for ever.
\<close>

theorem hs_race_truncates:
  "\<exists>s. (hs_step 90 [1, 2, 3])\<^sup>*\<^sup>* (hs_start [1, 2, 3] (zero_payload 90)) s \<and>
       ppc s = PDone \<and> hs_fwd s = [1, 2] \<and> wpc s = WWait \<and> \<not> (\<exists>s'. hs_step 90 [1, 2, 3] s s')"
proof (intro exI conjI)
  show "(hs_step 90 [1, 2, 3])\<^sup>*\<^sup>* (hs_start [1, 2, 3] (zero_payload 90)) race_final" by (rule race_reach)
  show "\<not> (\<exists>s'. hs_step 90 [1, 2, 3] race_final s')" by (rule hs_stuck) (simp_all add: race_final_def)
qed (simp_all add: race_final_def)

text \<open>
  C13: the residual count corrupts the next transfer on the channel: after a
  1-byte file through a 1-byte buffer completes, the next worker's first
  \<open>sem_wait\<close> returns at once, it overwrites the first chunk with the second
  before the proxy forwards it, and the client receives bytes that are not a
  prefix of the file.
\<close>

theorem hs_reuse_corrupts:
  "\<exists>s1 s2. (hs_step 89 [7])\<^sup>*\<^sup>* (hs_start [7] (zero_payload 89)) s1 \<and>
           wpc s1 = WExit \<and> ppc s1 = PDone \<and> hs_fwd s1 = [7] \<and>
           (hs_step 89 [8, 9])\<^sup>*\<^sup>* (hs_start [8, 9] (hs_pay s1)) s2 \<and> \<not> prefix (hs_fwd s2) [8, 9]"
proof (intro exI conjI)
  show "(hs_step 89 [7])\<^sup>*\<^sup>* (hs_start [7] (zero_payload 89)) reuse_first_final"
    by (rule reuse_first_reach)
  show "(hs_step 89 [8, 9])\<^sup>*\<^sup>* (hs_start [8, 9] (hs_pay reuse_first_final)) reuse_second_final"
    by (rule hs_exec_reach [OF reuse_second_run])
qed (simp_all add: reuse_first_final_def reuse_second_final_def)

theorem hs_safe_witness:
  "prefix (hs_fwd race_final) [1, 2, 3] \<and>
   sem_proxy_ready (hs_pay race_final) + sem_cache_ready (hs_pay race_final) \<le> 1"
  using hs_safe [OF race_reach fresh_zero_payload] by (simp add: payload_header_size_def)

theorem hs_done_witness:
  "hs_hdr race_final = Some 3 \<and> hs_fwd race_final @ chunk_bytes (hs_pay race_final) = [1, 2, 3]"
proof -
  have "ppc race_final = PDone" by (simp add: race_final_def)
  note d = hs_done [OF race_reach fresh_zero_payload _ _ this]
  then show ?thesis by (simp_all add: payload_header_size_def race_final_def)
qed

theorem hs_residual_witness:
  "sem_proxy_ready (hs_pay reuse_first_final) + sem_cache_ready (hs_pay reuse_first_final) = 1"
proof -
  have w: "wpc reuse_first_final = WExit" and p: "ppc reuse_first_final = PDone"
    by (simp_all add: reuse_first_final_def)
  have "unat (max_chunk_size 89) dvd length [7::byte]"
    by (simp add: max_chunk_size_def payload_header_size_def)
  with hs_residual [OF reuse_first_reach fresh_zero_payload _ _ w p] show ?thesis
    by (simp add: payload_header_size_def)
qed

end
