(* ===== verification/HandshakeSync.thy ===== *)
theory HandshakeSync
  imports Handshake
begin

text \<open>
  The synchronous schedule of the handshake of \<open>Handshake\<close>, the one that
  \<open>Delivery\<close> assumes: each side runs while the other waits. The worker fills
  the chunk; the proxy takes it, sends it, posts and reads the flag; the worker
  takes the post and reads the flag; and so on. Every such round is a run of
  \<open>hs_next\<close>, so of \<open>hs_step\<close>, and the rounds reach, for every non-empty file
  and every usable buffer, a state in which both sides are finished and the
  client has the whole file: the interleaving semantics does not block the
  transfer that \<open>Delivery\<close> describes.
\<close>

subsection \<open>Properties\<close>

lemma hs_exec_append:
  "hs_exec segsize content (as @ bs) s =
     (case hs_exec segsize content as s of None \<Rightarrow> None | Some s' \<Rightarrow> hs_exec segsize content bs s')"
  by (induction as arbitrary: s) (auto split: option.split)

lemma chunk_fits_segment:
  assumes "payload_header_size < segsize" and "n \<le> unat (max_chunk_size segsize)"
  shows "\<not> segsize - payload_header_size < (word_of_nat n :: size_t)"
proof -
  have "unat (word_of_nat n :: size_t) = n" using assms(2) by (rule unat_of_nat_chunk)
  then show ?thesis using assms(2) by (simp add: max_chunk_size_def word_less_nat_alt)
qed

text \<open>The last round when the file ends on a chunk boundary: the worker publishes the empty chunk.\<close>

lemma hs_round_eof:
  assumes "wpc s = WFill" "ppc s = PWait" "sem_proxy_ready (hs_pay s) = 0" "sem_cache_ready (hs_pay s) = 0"
    and "hs_off s = length content" and "hs_fwd s = take (hs_off s) content"
    and "payload_header_size < segsize"
  shows "\<exists>s'. hs_exec segsize content [Worker, Proxy, Proxy, Proxy, Proxy] s = Some s' \<and>
              wpc s' = WExit \<and> ppc s' = PDone \<and> hs_fwd s' = content \<and> hs_hdr s' = hs_hdr s"
  using assms chunk_fits_segment [OF assms(7), of 0]
  by (simp add: pread_def chunk_bytes_def Let_def)

text \<open>A round from a filled buffer: the chunk of \<open>buf\<close> bytes is forwarded and both sides read its flag.\<close>

lemma hs_round_chunk:
  assumes "wpc s = WFill" "ppc s = PWait" "sem_proxy_ready (hs_pay s) = 0" "sem_cache_ready (hs_pay s) = 0"
    and "hs_fwd s = take (hs_off s) content" and "hs_off s < length content"
    and hdr: "payload_header_size < segsize" and small: "unat segsize < 2 ^ 63"
  defines "buf \<equiv> pread content (max_chunk_size segsize) (hs_off s)"
  shows "\<exists>s'. hs_exec segsize content [Worker, Proxy, Proxy, Proxy, Proxy, Worker, Worker] s = Some s' \<and>
              ppc s' = (if length buf < unat (max_chunk_size segsize) then PDone else PWait) \<and>
              wpc s' = (if length buf < unat (max_chunk_size segsize) then WExit else WFill) \<and>
              sem_proxy_ready (hs_pay s') = 0 \<and> sem_cache_ready (hs_pay s') = 0 \<and>
              hs_off s' = hs_off s + length buf \<and> hs_fwd s' = take (hs_off s') content \<and>
              hs_hdr s' = hs_hdr s \<and> 0 < length buf \<and> hs_off s' \<le> length content \<and>
              (length buf < unat (max_chunk_size segsize) \<longrightarrow> hs_fwd s' = content)"
proof -
  note mb = max_chunk_size_bounds [OF hdr small]
  have ne: "buf \<noteq> []" using assms(6) mb(1) by (simp add: buf_def pread_def)
  note pc = pread_chunk [OF mb meta_eq_to_obj_eq [OF buf_def] ne]
  show ?thesis
    using assms(1-6) chunk_fits_segment [OF hdr pc(2)] pc(2-7) ne
    by (simp add: buf_def [symmetric] chunk_bytes_def Let_def)
qed

text \<open>The first round, from the start of the transfer: it also passes the proxy's first wait and the header.\<close>

lemma hs_round_first:
  assumes fresh: "hs_fresh p" and "content \<noteq> []"
    and hdr: "payload_header_size < segsize" and small: "unat segsize < 2 ^ 63"
  defines "buf \<equiv> pread content (max_chunk_size segsize) 0"
  shows "\<exists>s'. hs_exec segsize content [Worker, Proxy, Proxy, Proxy, Proxy, Proxy, Worker, Worker]
                (hs_start content p) = Some s' \<and>
              ppc s' = (if length buf < unat (max_chunk_size segsize) then PDone else PWait) \<and>
              wpc s' = (if length buf < unat (max_chunk_size segsize) then WExit else WFill) \<and>
              sem_proxy_ready (hs_pay s') = 0 \<and> sem_cache_ready (hs_pay s') = 0 \<and>
              hs_off s' = length buf \<and> hs_fwd s' = take (hs_off s') content \<and>
              hs_hdr s' = Some (word_of_nat (length content)) \<and> hs_off s' \<le> length content \<and>
              (length buf < unat (max_chunk_size segsize) \<longrightarrow> hs_fwd s' = content)"
proof -
  note mb = max_chunk_size_bounds [OF hdr small]
  have ne: "buf \<noteq> []" using assms(2) mb(1) by (simp add: buf_def pread_def)
  note pc = pread_chunk [OF mb meta_eq_to_obj_eq [OF buf_def] ne]
  have nz: "(word_of_nat (length buf) :: size_t) \<noteq> 0"
    using pc(6) ne by (metis length_0_conv unat_0)
  have whole: "length buf < unat (max_chunk_size segsize) \<Longrightarrow> buf = content"
    using pc(4,5) by simp
  show ?thesis
    using fresh chunk_fits_segment [OF hdr pc(2)] pc(2-7) ne nz whole
    by (simp add: buf_def [symmetric] hs_start_def hs_fresh_def chunk_bytes_def Let_def)
qed

lemma hs_sync_loop:
  assumes "wpc s = WFill" "ppc s = PWait" "sem_proxy_ready (hs_pay s) = 0" "sem_cache_ready (hs_pay s) = 0"
    and "hs_fwd s = take (hs_off s) content" and "hs_off s \<le> length content"
    and hdr: "payload_header_size < segsize" and small: "unat segsize < 2 ^ 63"
  shows "\<exists>s'. (hs_step segsize content)\<^sup>*\<^sup>* s s' \<and> wpc s' = WExit \<and> ppc s' = PDone \<and>
              hs_fwd s' = content \<and> hs_hdr s' = hs_hdr s"
  using assms(1-6)
proof (induction "length content - hs_off s" arbitrary: s rule: less_induct)
  case less
  show ?case
  proof (cases "hs_off s < length content")
    case False
    with less.prems(6) have "hs_off s = length content" by simp
    from hs_round_eof [OF less.prems(1-4) this less.prems(5) hdr] obtain s' where
      "hs_exec segsize content [Worker, Proxy, Proxy, Proxy, Proxy] s = Some s'"
      "wpc s' = WExit \<and> ppc s' = PDone \<and> hs_fwd s' = content \<and> hs_hdr s' = hs_hdr s" by blast
    then show ?thesis using hs_exec_reach by blast
  next
    case True
    from hs_round_chunk [OF less.prems(1-5) True hdr small] obtain s1 where
      ex: "hs_exec segsize content [Worker, Proxy, Proxy, Proxy, Proxy, Worker, Worker] s = Some s1"
      and s1: "ppc s1 = (if length (pread content (max_chunk_size segsize) (hs_off s)) < unat (max_chunk_size segsize)
                         then PDone else PWait)"
        "wpc s1 = (if length (pread content (max_chunk_size segsize) (hs_off s)) < unat (max_chunk_size segsize)
                   then WExit else WFill)"
        "sem_proxy_ready (hs_pay s1) = 0" "sem_cache_ready (hs_pay s1) = 0"
        "hs_off s1 = hs_off s + length (pread content (max_chunk_size segsize) (hs_off s))"
        "hs_fwd s1 = take (hs_off s1) content" "hs_hdr s1 = hs_hdr s"
        "0 < length (pread content (max_chunk_size segsize) (hs_off s))" "hs_off s1 \<le> length content"
        "length (pread content (max_chunk_size segsize) (hs_off s)) < unat (max_chunk_size segsize) \<longrightarrow>
         hs_fwd s1 = content"
      by blast
    have r1: "(hs_step segsize content)\<^sup>*\<^sup>* s s1" using ex by (rule hs_exec_reach)
    show ?thesis
    proof (cases "length (pread content (max_chunk_size segsize) (hs_off s)) < unat (max_chunk_size segsize)")
      case True
      with s1 r1 show ?thesis by auto
    next
      case False
      with s1 have "wpc s1 = WFill" "ppc s1 = PWait" by simp_all
      moreover have "length content - hs_off s1 < length content - hs_off s"
        using s1(8,9) unfolding s1(5) by arith
      ultimately obtain s' where "(hs_step segsize content)\<^sup>*\<^sup>* s1 s'" "wpc s' = WExit" "ppc s' = PDone"
        "hs_fwd s' = content" "hs_hdr s' = hs_hdr s1"
        using less.hyps [of s1] s1(3,4,6,9) by blast
      with r1 s1(7) show ?thesis by (metis rtranclp_trans)
    qed
  qed
qed

text \<open>
  C10: the transfer can always complete: for every non-empty file, every usable
  buffer (a capacity above the header, below \<open>2^63\<close>) and a fresh channel,
  the synchronous schedule is a run of the interleaving semantics after which
  the worker has exited, the proxy has left its loop normally, the client has
  the \<open>GF_OK\<close> header announcing the file size and exactly the file.
\<close>

theorem hs_sync_completes:
  assumes "hs_fresh p" and "content \<noteq> []"
    and "payload_header_size < segsize" and "unat segsize < 2 ^ 63"
  shows "\<exists>s. (hs_step segsize content)\<^sup>*\<^sup>* (hs_start content p) s \<and> wpc s = WExit \<and> ppc s = PDone \<and>
             hs_fwd s = content \<and> hs_hdr s = Some (word_of_nat (length content))"
proof -
  from hs_round_first [OF assms] obtain s1 where
    ex: "hs_exec segsize content [Worker, Proxy, Proxy, Proxy, Proxy, Proxy, Worker, Worker]
           (hs_start content p) = Some s1"
    and s1: "ppc s1 = (if length (pread content (max_chunk_size segsize) 0) < unat (max_chunk_size segsize)
                       then PDone else PWait)"
      "wpc s1 = (if length (pread content (max_chunk_size segsize) 0) < unat (max_chunk_size segsize)
                 then WExit else WFill)"
      "sem_proxy_ready (hs_pay s1) = 0" "sem_cache_ready (hs_pay s1) = 0"
      "hs_fwd s1 = take (hs_off s1) content" "hs_hdr s1 = Some (word_of_nat (length content))"
      "hs_off s1 \<le> length content"
      "length (pread content (max_chunk_size segsize) 0) < unat (max_chunk_size segsize) \<longrightarrow> hs_fwd s1 = content"
    by blast
  have r1: "(hs_step segsize content)\<^sup>*\<^sup>* (hs_start content p) s1" using ex by (rule hs_exec_reach)
  show ?thesis
  proof (cases "length (pread content (max_chunk_size segsize) 0) < unat (max_chunk_size segsize)")
    case True
    with s1 r1 show ?thesis by auto
  next
    case False
    with s1 have "wpc s1 = WFill" "ppc s1 = PWait" by simp_all
    from hs_sync_loop [OF this s1(3,4,5,7) assms(3,4)] r1 s1(6) show ?thesis
      by (metis rtranclp_trans)
  qed
qed

theorem hs_sync_completes_witness:
  "\<exists>s. (hs_step 90 [1, 2, 3, 4, 5])\<^sup>*\<^sup>* (hs_start [1, 2, 3, 4, 5] (zero_payload 90)) s \<and>
       ppc s = PDone \<and> hs_fwd s = [1, 2, 3, 4, 5]"
  using hs_sync_completes [OF fresh_zero_payload, of "[1, 2, 3, 4, 5]" 90]
  by (auto simp: payload_header_size_def)

end
