(* ===== verification/OwnerLists.thy ===== *)
theory OwnerLists
  imports Prelude "HOL-Library.Multiset"
begin

text \<open>
  Lists of (owner, item) pairs, as the channel pool keeps the channels its
  handlers hold and the cache daemon keeps the task each busy worker holds:
  removing one pair takes its item out of the multiset of items and keeps the
  owners distinct.
\<close>

lemma mset_map_remove1: "x \<in> set xs \<Longrightarrow> mset (map f xs) = mset (map f (remove1 x xs)) + {#f x#}"
  by (induction xs) auto

lemma distinct_map_fst_remove1: "distinct (map fst xs) \<Longrightarrow> distinct (map fst (remove1 x xs))"
proof (induction xs)
  case (Cons a xs)
  have "fst ` set (remove1 x xs) \<subseteq> fst ` set xs" using set_remove1_subset by (rule image_mono)
  with Cons show ?case by auto
qed simp

end
