(* ===== verification/ChannelPool.thy ===== *)
theory ChannelPool
  imports ProxyHandler OwnerLists
begin

text \<open>
  The pool of channels shared by the proxy's request handlers
  (\<open>src/cache/handle_with_cache.c\<close>): a free list (a \<open>steque\<close>) under a mutex,
  from which a handler pops a channel at its start and to whose back it pushes
  the channel on every return. Handlers run concurrently, so the pool is a
  labelled transition system in the style of iterated system calls: each
  operation is one critical section of one handler (numbered by \<open>nat\<close>), and
  \<open>pool_run\<close> strings them together. The state also records which handler
  holds which channel. \<open>handle_with_cache\<close> run on its own is one of these runs
  (\<open>handle_with_cache_pool_run\<close>); a handler blocked for ever on a wait never
  releases.
\<close>

record pool_state =
  pool_free :: "shm_segment list"
  pool_held :: "(nat \<times> shm_segment) list"

datatype pool_op = Acquire nat | NoChannel nat | Release nat

inductive pool_step :: "pool_state \<Rightarrow> pool_op \<Rightarrow> pool_state \<Rightarrow> bool" where
  acquire:
    "i \<notin> fst ` set (pool_held st) \<Longrightarrow> pool_free st = seg # rest \<Longrightarrow>
     pool_step st (Acquire i) (st\<lparr>pool_free := rest, pool_held := (i, seg) # pool_held st\<rparr>)"
| no_channel:
    "i \<notin> fst ` set (pool_held st) \<Longrightarrow> pool_free st = [] \<Longrightarrow> pool_step st (NoChannel i) st"
| release:
    "(i, seg) \<in> set (pool_held st) \<Longrightarrow>
     pool_step st (Release i)
       (st\<lparr>pool_free := pool_free st @ [seg], pool_held := remove1 (i, seg) (pool_held st)\<rparr>)"

inductive pool_run :: "pool_state \<Rightarrow> pool_op list \<Rightarrow> pool_state \<Rightarrow> bool" where
  nil: "pool_run st [] st"
| cons: "pool_step st x st' \<Longrightarrow> pool_run st' xs st'' \<Longrightarrow> pool_run st (x # xs) st''"

text \<open>The pool \<open>create_n_segments\<close> hands to the framework: every channel free.\<close>

definition pool_init :: "shm_segment list \<Rightarrow> pool_state" where
  "pool_init chans = \<lparr>pool_free = chans, pool_held = []\<rparr>"

text \<open>
  The invariant: the free channels and the held ones together are exactly the
  channels created, counted with multiplicity, and no handler holds two.
\<close>

definition pool_inv :: "shm_segment list \<Rightarrow> pool_state \<Rightarrow> bool" where
  "pool_inv chans st \<longleftrightarrow>
     mset (pool_free st) + mset (map snd (pool_held st)) = mset chans \<and> distinct (map fst (pool_held st))"

text \<open>The critical sections as an executable function on the pool, for concrete runs.\<close>

fun pool_next :: "pool_op \<Rightarrow> pool_state \<Rightarrow> pool_state option" where
  "pool_next (Acquire i) st =
     (if i \<in> fst ` set (pool_held st) then None
      else case pool_free st of [] \<Rightarrow> None
           | seg # rest \<Rightarrow> Some (st\<lparr>pool_free := rest, pool_held := (i, seg) # pool_held st\<rparr>))"
| "pool_next (NoChannel i) st =
     (if i \<notin> fst ` set (pool_held st) \<and> pool_free st = [] then Some st else None)"
| "pool_next (Release i) st =
     (case map_of (pool_held st) i of None \<Rightarrow> None
      | Some seg \<Rightarrow>
          Some (st\<lparr>pool_free := pool_free st @ [seg], pool_held := remove1 (i, seg) (pool_held st)\<rparr>))"

fun pool_exec :: "pool_op list \<Rightarrow> pool_state \<Rightarrow> pool_state option" where
  "pool_exec [] st = Some st"
| "pool_exec (x # xs) st = (case pool_next x st of None \<Rightarrow> None | Some st' \<Rightarrow> pool_exec xs st')"

definition two_channels :: "shm_segment list" where
  "two_channels = [fresh_segment\<lparr>shm_name := ''/proxy_shm_0''\<rparr>, fresh_segment\<lparr>shm_name := ''/proxy_shm_1''\<rparr>]"

subsection \<open>Properties\<close>

inductive_cases pool_run_NilE [elim!]: "pool_run st [] st'"
inductive_cases pool_run_ConsE [elim!]: "pool_run st (x # xs) st'"

lemma pool_run_append:
  "pool_run st xs st' \<Longrightarrow> pool_run st' ys st'' \<Longrightarrow> pool_run st (xs @ ys) st''"
  by (induction rule: pool_run.induct) (auto intro: pool_run.intros)

lemma pool_run_single: "pool_step st x st' \<Longrightarrow> pool_run st [x] st'"
  by (blast intro: pool_run.intros)

lemma pool_inv_step:
  assumes "pool_step st x st'" and "pool_inv chans st"
  shows "pool_inv chans st'"
  using assms
proof cases
  case (release i seg)
  with assms(2) show ?thesis
    using mset_map_remove1 [OF release(3), of snd]
    by (simp add: pool_inv_def distinct_map_fst_remove1 add.assoc)
qed (use assms(2) in \<open>auto simp: pool_inv_def\<close>)

lemma pool_inv_run: "pool_run st xs st' \<Longrightarrow> pool_inv chans st \<Longrightarrow> pool_inv chans st'"
  by (induction rule: pool_run.induct) (blast dest: pool_inv_step)+

lemma pool_next_step: "pool_next x st = Some st' \<Longrightarrow> pool_step st x st'"
  by (cases x) (auto intro: pool_step.intros map_of_SomeD split: if_splits list.splits option.splits)

lemma pool_exec_run: "pool_exec xs st = Some st' \<Longrightarrow> pool_run st xs st'"
proof (induction xs arbitrary: st)
  case Nil
  then show ?case by (auto intro: pool_run.nil)
next
  case (Cons x xs)
  then obtain st1 where "pool_next x st = Some st1" and "pool_exec xs st1 = Some st'"
    by (auto split: option.splits)
  with Cons.IH show ?case by (blast intro: pool_run.cons pool_next_step)
qed

lemma pool_inv_init: "pool_inv chans (pool_init chans)"
  by (simp add: pool_inv_def pool_init_def)

lemma pool_init_reach:
  "pool_run (pool_init chans) ops st \<Longrightarrow>
   mset (pool_free st @ map snd (pool_held st)) = mset chans"
  using pool_inv_run [OF _ pool_inv_init] by (simp add: pool_inv_def)

text \<open>
  C7: exclusive use of channels. In every state the handlers reach from the
  initial pool of distinct channels, whatever their interleaving, each channel
  is either free or held by exactly one handler, none is lost or duplicated,
  and the free ones plus the held ones are as many as were created.
\<close>

theorem pool_exclusive:
  assumes "pool_run (pool_init chans) ops st" and "distinct chans"
  shows "distinct (pool_free st @ map snd (pool_held st)) \<and>
         set (pool_free st @ map snd (pool_held st)) = set chans \<and>
         length (pool_free st) + length (pool_held st) = length chans"
proof -
  have m: "mset (pool_free st @ map snd (pool_held st)) = mset chans"
    using assms(1) by (rule pool_init_reach)
  have "length (pool_free st @ map snd (pool_held st)) = length chans"
    using m by (rule mset_eq_length)
  moreover have "distinct (pool_free st @ map snd (pool_held st))"
    using assms(2) mset_eq_imp_distinct_iff [OF m] by blast
  moreover have "set (pool_free st @ map snd (pool_held st)) = set chans"
    using m by (rule mset_eq_setD)
  ultimately show ?thesis by simp
qed

text \<open>
  C16: \<open>handle_with_cache\<close>, as far as the pool is concerned, is a run of the
  critical sections of its own handler only: \<open>NoChannel\<close> when the free list is
  empty, otherwise \<open>Acquire\<close> of the head, followed by \<open>Release\<close> to the back
  unless the handler blocks for ever, in which case the channel stays held.
\<close>

theorem handle_with_cache_pool_run:
  assumes "i \<notin> fst ` set (pool_held st)"
  shows "\<exists>ops. set ops \<subseteq> {Acquire i, NoChannel i, Release i} \<and>
           pool_run st ops
             \<lparr>pool_free = h_pool (handle_with_cache env segsize path (pool_free st)),
              pool_held = (if h_outcome (handle_with_cache env segsize path (pool_free st)) = Blocked
                           then (i, hd (pool_free st)) # pool_held st else pool_held st)\<rparr>"
proof -
  obtain fr h where st: "st = \<lparr>pool_free = fr, pool_held = h\<rparr>" by (cases st)
  with assms have i: "i \<notin> fst ` set h" by simp
  show ?thesis
  proof (cases fr)
    case Nil
    have "pool_run st [NoChannel i] st"
      using pool_step.no_channel [OF assms] Nil st by (simp add: pool_run_single)
    then show ?thesis
      using Nil by (intro exI [of _ "[NoChannel i]"]) (simp add: st handle_with_cache_exhausted)
  next
    case (Cons seg rest)
    let ?r = "handle_with_cache env segsize path (seg # rest)"
    have acq: "pool_step st (Acquire i) \<lparr>pool_free = rest, pool_held = (i, seg) # h\<rparr>"
      using pool_step.acquire [of i st seg rest] i st Cons by simp
    have rel: "pool_step \<lparr>pool_free = rest, pool_held = (i, seg) # h\<rparr> (Release i)
                 \<lparr>pool_free = rest @ [seg], pool_held = h\<rparr>"
      using pool_step.release [of i seg "\<lparr>pool_free = rest, pool_held = (i, seg) # h\<rparr>"] by simp
    from handle_with_cache_pool [of env segsize path seg rest]
    show ?thesis
    proof
      assume "h_pool ?r = rest @ [seg] \<and> h_outcome ?r \<noteq> Blocked"
      with Cons st acq rel show ?thesis
        by (intro exI [of _ "[Acquire i, Release i]"]) (auto intro: pool_run.intros)
    next
      assume "h_pool ?r = rest \<and> h_outcome ?r = Blocked"
      with Cons st acq show ?thesis
        by (intro exI [of _ "[Acquire i]"]) (auto intro: pool_run_single)
    qed
  qed
qed

text \<open>
  C17: handlers that never return keep their channels: once every channel is held
  (for example by handlers blocked on a chunk that never comes), every new
  request finds the free list empty and is answered \<open>GF_ERROR\<close> at once.
\<close>

lemma two_channels_run:
  "pool_exec [Acquire 0, Acquire 1, Release 0] (pool_init two_channels) =
     Some \<lparr>pool_free = [fresh_segment\<lparr>shm_name := ''/proxy_shm_0''\<rparr>],
           pool_held = [(1, fresh_segment\<lparr>shm_name := ''/proxy_shm_1''\<rparr>)]\<rparr>"
  by (simp add: two_channels_def pool_init_def)

theorem pool_exclusive_witness:
  "distinct [fresh_segment\<lparr>shm_name := ''/proxy_shm_0''\<rparr>, fresh_segment\<lparr>shm_name := ''/proxy_shm_1''\<rparr>] \<and>
   length [fresh_segment\<lparr>shm_name := ''/proxy_shm_0''\<rparr>] + 1 = length two_channels"
proof -
  have d: "distinct two_channels" by (simp add: two_channels_def fresh_segment_def)
  note r = pool_exec_run [OF two_channels_run]
  from pool_exclusive [OF r d] show ?thesis by (simp add: two_channels_def fresh_segment_def)
qed

theorem handle_with_cache_pool_run_witness:
  "\<exists>ops. set ops \<subseteq> {Acquire 0, NoChannel 0, Release 0} \<and>
     pool_run (pool_init two_channels) ops \<lparr>pool_free = rev two_channels, pool_held = []\<rparr>"
proof -
  have h: "h_pool (handle_with_cache small_env 4088 ''/a.txt'' two_channels) = rev two_channels"
    "h_outcome (handle_with_cache small_env 4088 ''/a.txt'' two_channels) \<noteq> Blocked"
    by (simp_all add: handle_with_cache_def small_env_def proxy_loop.simps chunk_bytes_def
        payload_header_size_def Let_def two_channels_def)
  have "0 \<notin> fst ` set (pool_held (pool_init two_channels))" by (simp add: pool_init_def)
  from handle_with_cache_pool_run [OF this, of small_env 4088 "''/a.txt''"] h
  show ?thesis by (simp add: pool_init_def)
qed

end
