(* ===== verification/CacheDaemon.thy ===== *)
theory CacheDaemon
  imports CacheWorker OwnerLists
begin

text \<open>
  The cache daemon as a whole (\<open>main\<close> and \<open>_worker_thread\<close> of
  \<open>src/cache/simplecached.c\<close>): the boss turns each control line into a task
  and enqueues it on \<open>request_queue\<close>; a worker woken on \<open>queue_not_empty\<close> pops
  the front task under \<open>queue_lock\<close>, releases the lock, and only then sets
  the task up. The queue is a \<open>steque\<close>, a library outside the sources; its
  three operations are modelled from the specification's contract of the task
  queue (unbounded, first in first out). The daemon is a labelled transition
  system: the boss accepting a line (\<open>Accept\<close>, one critical section), worker
  \<open>w\<close> popping a task (\<open>Pop w\<close>, lines 58-65), and worker \<open>w\<close> setting up the
  task it popped (\<open>Setup w\<close>, lines 67-103, outside the lock), so pops and
  set-ups of different workers interleave freely. A set-up is one step: the
  interleaving of two set-ups statement by statement is not modelled, only
  their order. The state records, besides the queue and the shared-memory
  namespace, the tasks enqueued, the tasks popped in pop order, the task each
  busy worker holds, and the tasks set up in set-up order. A line on which the
  boss dereferences a NULL key kills the process.
\<close>

definition steque_enqueue :: "'a list \<Rightarrow> 'a \<Rightarrow> 'a list" where
  "steque_enqueue q x = q @ [x]"

definition steque_isempty :: "'a list \<Rightarrow> bool" where
  "steque_isempty q \<longleftrightarrow> q = []"

definition steque_pop :: "'a list \<Rightarrow> 'a \<times> 'a list" where
  "steque_pop q = (hd q, tl q)"

record daemon_state =
  d_queue :: "cache_task list"
  d_alive :: bool
  d_os :: shm_os
  d_accepted :: "cache_task list"
  d_taken :: "cache_task list"
  d_pending :: "(nat \<times> cache_task) list"
  d_served :: "(cache_task \<times> worker_result) list"

datatype daemon_op = Accept string | Pop nat | Setup nat

inductive daemon_step :: "content_store \<Rightarrow> daemon_state \<Rightarrow> daemon_op \<Rightarrow> daemon_state \<Rightarrow> bool"
  for store :: content_store where
  accept_skip:
    "d_alive st \<Longrightarrow> boss_handle msg = BossSkip \<Longrightarrow> daemon_step store st (Accept msg) st"
| accept_crash:
    "d_alive st \<Longrightarrow> boss_handle msg = BossCrash \<Longrightarrow>
     daemon_step store st (Accept msg) (st\<lparr>d_alive := False\<rparr>)"
| accept_task:
    "d_alive st \<Longrightarrow> boss_handle msg = BossTask t \<Longrightarrow>
     daemon_step store st (Accept msg)
       (st\<lparr>d_queue := steque_enqueue (d_queue st) t, d_accepted := d_accepted st @ [t]\<rparr>)"
| worker_pop:
    "d_alive st \<Longrightarrow> w \<notin> set (map fst (d_pending st)) \<Longrightarrow> \<not> steque_isempty (d_queue st) \<Longrightarrow>
     steque_pop (d_queue st) = (t, q) \<Longrightarrow>
     daemon_step store st (Pop w)
       (st\<lparr>d_queue := q, d_taken := d_taken st @ [t], d_pending := d_pending st @ [(w, t)]\<rparr>)"
| worker_setup:
    "d_alive st \<Longrightarrow> map_of (d_pending st) w = Some t \<Longrightarrow> worker_task store t (d_os st) = (r, os') \<Longrightarrow>
     daemon_step store st (Setup w)
       (st\<lparr>d_pending := remove1 (w, t) (d_pending st), d_os := os', d_served := d_served st @ [(t, r)]\<rparr>)"

inductive daemon_run :: "content_store \<Rightarrow> daemon_state \<Rightarrow> daemon_op list \<Rightarrow> daemon_state \<Rightarrow> bool"
  for store :: content_store where
  nil: "daemon_run store st [] st"
| cons: "daemon_step store st x st' \<Longrightarrow> daemon_run store st' xs st'' \<Longrightarrow> daemon_run store st (x # xs) st''"

definition daemon_init :: "shm_os \<Rightarrow> daemon_state" where
  "daemon_init os =
     \<lparr>d_queue = [], d_alive = True, d_os = os, d_accepted = [], d_taken = [], d_pending = [], d_served = []\<rparr>"

text \<open>
  The abstract contract of the boss: the tasks it builds from a sequence of
  control lines, in order, skipping empty reads and ending at a line that makes
  it crash.
\<close>

fun boss_tasks :: "string list \<Rightarrow> cache_task list" where
  "boss_tasks [] = []"
| "boss_tasks (m # ms) =
     (case boss_handle m of BossSkip \<Rightarrow> boss_tasks ms | BossCrash \<Rightarrow> [] | BossTask t \<Rightarrow> t # boss_tasks ms)"

fun accepted_lines :: "daemon_op list \<Rightarrow> string list" where
  "accepted_lines [] = []"
| "accepted_lines (Accept m # xs) = m # accepted_lines xs"
| "accepted_lines (Pop w # xs) = accepted_lines xs"
| "accepted_lines (Setup w # xs) = accepted_lines xs"

text \<open>The operations as an executable function, for concrete runs.\<close>

fun daemon_next :: "content_store \<Rightarrow> daemon_op \<Rightarrow> daemon_state \<Rightarrow> daemon_state option" where
  "daemon_next store (Accept msg) st =
     (if \<not> d_alive st then None
      else case boss_handle msg of
             BossSkip \<Rightarrow> Some st
           | BossCrash \<Rightarrow> Some (st\<lparr>d_alive := False\<rparr>)
           | BossTask t \<Rightarrow>
               Some (st\<lparr>d_queue := steque_enqueue (d_queue st) t, d_accepted := d_accepted st @ [t]\<rparr>))"
| "daemon_next store (Pop w) st =
     (if \<not> d_alive st \<or> w \<in> set (map fst (d_pending st)) \<or> steque_isempty (d_queue st) then None
      else let (t, q) = steque_pop (d_queue st)
           in Some (st\<lparr>d_queue := q, d_taken := d_taken st @ [t], d_pending := d_pending st @ [(w, t)]\<rparr>))"
| "daemon_next store (Setup w) st =
     (if \<not> d_alive st then None
      else case map_of (d_pending st) w of
             None \<Rightarrow> None
           | Some t \<Rightarrow>
               let (r, os') = worker_task store t (d_os st)
               in Some (st\<lparr>d_pending := remove1 (w, t) (d_pending st), d_os := os',
                          d_served := d_served st @ [(t, r)]\<rparr>))"

fun daemon_exec :: "content_store \<Rightarrow> daemon_op list \<Rightarrow> daemon_state \<Rightarrow> daemon_state option" where
  "daemon_exec store [] st = Some st"
| "daemon_exec store (x # xs) st =
     (case daemon_next store x st of None \<Rightarrow> None | Some st' \<Rightarrow> daemon_exec store xs st')"

text \<open>A store with one file, and two control lines: a well-formed one, then one without a key.\<close>

definition daemon_store :: content_store where
  "daemon_store = [''/a.txt'' \<mapsto> replicate 100 7]"

definition good_line :: string where
  "good_line = ''/proxy_shm_0 /a.txt 4088\<newline>''"

definition bad_line :: string where
  "bad_line = ''/proxy_shm_1\<newline>''"


definition crash_final :: daemon_state where
  "crash_final =
     \<lparr>d_queue = [\<lparr>task_shm_name = strncpy SHM_NAME_LEN ''/proxy_shm_0'',
                    task_key = strncpy TASK_KEY_LEN ''/a.txt'', task_segment_size = 4088\<rparr>],
      d_alive = False, d_os = leak_os,
      d_accepted = [\<lparr>task_shm_name = strncpy SHM_NAME_LEN ''/proxy_shm_0'',
                     task_key = strncpy TASK_KEY_LEN ''/a.txt'', task_segment_size = 4088\<rparr>],
      d_taken = [], d_pending = [], d_served = []\<rparr>"

subsection \<open>Properties\<close>

inductive_cases daemon_run_NilE [elim!]: "daemon_run store st [] st'"
inductive_cases daemon_run_ConsE [elim!]: "daemon_run store st (x # xs) st'"
inductive_cases daemon_step_AcceptE: "daemon_step store st (Accept msg) st'"
inductive_cases daemon_step_PopE: "daemon_step store st (Pop w) st'"
inductive_cases daemon_step_SetupE: "daemon_step store st (Setup w) st'"

lemma daemon_next_step: "daemon_next store x st = Some st' \<Longrightarrow> daemon_step store st x st'"
proof (cases x)
  case (Accept msg)
  assume "daemon_next store x st = Some st'"
  with Accept show ?thesis
    by (cases "boss_handle msg") (auto intro: daemon_step.intros split: if_splits)
next
  case (Pop w)
  assume n: "daemon_next store x st = Some st'"
  obtain t q where p: "steque_pop (d_queue st) = (t, q)" by (cases "steque_pop (d_queue st)")
  from n Pop p show ?thesis
    by (auto intro: daemon_step.worker_pop split: if_splits)
next
  case (Setup w)
  assume n: "daemon_next store x st = Some st'"
  then obtain t where t: "map_of (d_pending st) w = Some t" by (auto simp: Setup split: if_splits option.splits)
  obtain r os' where wt: "worker_task store t (d_os st) = (r, os')" by (cases "worker_task store t (d_os st)")
  from n Setup t wt show ?thesis
    by (auto intro: daemon_step.worker_setup split: if_splits)
qed

lemma daemon_exec_run: "daemon_exec store xs st = Some st' \<Longrightarrow> daemon_run store st xs st'"
proof (induction xs arbitrary: st)
  case Nil
  then show ?case by (auto intro: daemon_run.nil)
next
  case (Cons x xs)
  then obtain st1 where "daemon_next store x st = Some st1" and "daemon_exec store xs st1 = Some st'"
    by (auto split: option.splits)
  with Cons.IH show ?case by (blast intro: daemon_run.cons daemon_next_step)
qed

lemma daemon_dead_stuck: "\<not> d_alive st \<Longrightarrow> \<not> daemon_step store st x st'"
  by (auto elim: daemon_step.cases)

lemma daemon_run_dead: "daemon_run store st xs st' \<Longrightarrow> \<not> d_alive st \<Longrightarrow> xs = [] \<and> st' = st"
  by (cases rule: daemon_run.cases) (auto dest: daemon_dead_stuck)

lemma daemon_run_tasks:
  "daemon_run store st ops st' \<Longrightarrow> d_alive st \<Longrightarrow>
   d_taken st' @ d_queue st' = d_taken st @ d_queue st @ boss_tasks (accepted_lines ops)"
proof (induction rule: daemon_run.induct)
  case (nil st)
  then show ?case by simp
next
  case (cons st x st1 xs st2)
  from cons.hyps(1) show ?case
  proof cases
    case (accept_crash msg)
    with daemon_run_dead [OF cons.hyps(2)] show ?thesis by simp
  qed (use cons in \<open>auto simp: steque_enqueue_def steque_pop_def steque_isempty_def neq_Nil_conv\<close>)
qed



text \<open>
  C8: the task queue is first in, first out and loses nothing while the daemon
  lives: under every interleaving of the boss and the workers, the tasks taken
  by workers followed by the tasks still queued are exactly the tasks the boss
  builds from the lines it has read, in order (its contract \<open>boss_tasks\<close>).
\<close>

theorem daemon_fifo:
  assumes "daemon_run store (daemon_init os) ops st"
  shows "d_taken st @ d_queue st = boss_tasks (accepted_lines ops)"
  using daemon_run_tasks [OF assms] by (simp add: daemon_init_def)


lemma daemon_lines_run:
  "daemon_exec daemon_store [Accept good_line, Accept bad_line] (daemon_init leak_os) =
     Some crash_final"
proof -
  have g: "boss_handle good_line =
     BossTask \<lparr>task_shm_name = strncpy SHM_NAME_LEN ''/proxy_shm_0'',
               task_key = strncpy TASK_KEY_LEN ''/a.txt'', task_segment_size = 4088\<rparr>"
    unfolding good_line_def by code_simp
  have b: "boss_handle bad_line = BossCrash"
    unfolding bad_line_def by code_simp
  show ?thesis by (simp add: g b daemon_init_def steque_enqueue_def crash_final_def)
qed

text \<open>
  C18: a control line without a key, read while another proxy's task is still
  queued, kills the daemon: the queued task is never served (its proxy waits for
  ever), and nothing the daemon could do next exists.
\<close>

theorem daemon_crash_strands_queue:
  "\<exists>ops st. daemon_run daemon_store (daemon_init leak_os) ops st \<and> d_queue st \<noteq> [] \<and>
     \<not> (\<exists>x st'. daemon_step daemon_store st x st')"
proof (intro exI conjI)
  show "daemon_run daemon_store (daemon_init leak_os) [Accept good_line, Accept bad_line] crash_final"
    by (rule daemon_exec_run [OF daemon_lines_run])
  show "\<not> (\<exists>x st'. daemon_step daemon_store crash_final x st')"
    using daemon_dead_stuck by (simp add: crash_final_def)
  show "d_queue crash_final \<noteq> []" by (simp add: crash_final_def)
qed

theorem daemon_fifo_witness:
  "boss_tasks [good_line, bad_line] =
     [\<lparr>task_shm_name = strncpy SHM_NAME_LEN ''/proxy_shm_0'',
       task_key = strncpy TASK_KEY_LEN ''/a.txt'', task_segment_size = 4088\<rparr>]"
proof -
  note r = daemon_exec_run [OF daemon_lines_run]
  have a: "accepted_lines [Accept good_line, Accept bad_line] = [good_line, bad_line]" by simp
  have c: "d_taken crash_final @ d_queue crash_final =
     [\<lparr>task_shm_name = strncpy SHM_NAME_LEN ''/proxy_shm_0'',
       task_key = strncpy TASK_KEY_LEN ''/a.txt'', task_segment_size = 4088\<rparr>]"
    by (simp add: crash_final_def)
  from daemon_fifo [OF r] show ?thesis unfolding a c by (rule sym)
qed


end
