(* ===== verification/Config.thy ===== *)
theory Config
  imports CacheDaemon
begin

text \<open>
  The start-up of both programs: the option loops and range checks of
  \<open>main\<close> in \<open>src/cache/simplecached.c\<close> and \<open>src/server/webproxy.c\<close>, with the C
  conversions they perform. \<open>getopt_long\<close> is a library routine: what it returns
  (the option character or \<open>'?'\<close>, with \<open>optarg\<close>) is the input of the model, a
  list of results after which it returns \<open>-1\<close>. What the C library does with
  the value: \<open>atoi\<close> is \<open>(int) strtol\<close>, the 64-bit \<open>atol\<close> cut to 32 bits; an
  \<open>int\<close> stored into an \<open>unsigned short\<close> or \<open>unsigned long\<close> is reduced
  modulo \<open>2^16\<close> or \<open>2^64\<close>; stored into a \<open>char\<close> it is reduced modulo \<open>2^8\<close>
  and read back signed or unsigned as the platform's \<open>char\<close> is.
  Exit statuses \<open>exit(__LINE__)\<close> are the line numbers of the sources.
\<close>

type_synonym getopt_results = "(int \<times> string) list"

definition atoi :: "string \<Rightarrow> int" where
  "atoi s = sint (word_of_int (atol s) :: 32 word)"

definition opt :: "char \<Rightarrow> int" where
  "opt c = of_char c"

definition c_char :: "bool \<Rightarrow> int \<Rightarrow> int" where
  "c_char char_signed r =
     (if char_signed then sint (word_of_int r :: 8 word) else uint (word_of_int r :: 8 word))"

datatype exit_status = Status int | Failure

subsection \<open>The cache daemon\<close>

record daemon_conf =
  dc_nthreads :: int
  dc_cachedir :: string
  dc_delay :: "64 word"

definition daemon_defaults :: daemon_conf where
  "daemon_defaults = \<lparr>dc_nthreads = 8, dc_cachedir = ''locals.txt'', dc_delay = 0\<rparr>"

fun daemon_opts :: "bool \<Rightarrow> getopt_results \<Rightarrow> daemon_conf \<Rightarrow> exit_status + daemon_conf" where
  "daemon_opts sg [] c = (if c_char sg (-1) \<noteq> -1 then Inl (Status 1) else Inr c)"
| "daemon_opts sg ((r, arg) # rs) c =
     (let oc = c_char sg r in
      if oc = -1 then Inr c
      else if oc = opt CHR ''t'' then daemon_opts sg rs (c\<lparr>dc_nthreads := atoi arg\<rparr>)
      else if oc = opt CHR ''h'' then Inl (Status 0)
      else if oc = opt CHR ''c'' then daemon_opts sg rs (c\<lparr>dc_cachedir := arg\<rparr>)
      else if oc = opt CHR ''d'' then daemon_opts sg rs (c\<lparr>dc_delay := word_of_int (atoi arg)\<rparr>)
      else if oc \<in> {opt CHR ''i'', opt CHR ''o'', opt CHR ''a''} then daemon_opts sg rs c
      else Inl (Status 1))"

definition daemon_checks :: "daemon_conf \<Rightarrow> exit_status + daemon_conf" where
  "daemon_checks c =
     (if 2500000 < unat (dc_delay c) then Inl (Status 202)
      else if 100 < dc_nthreads c \<or> dc_nthreads c < 1 then Inl (Status 207)
      else Inr c)"

subsection \<open>The web proxy\<close>

record proxy_conf =
  pc_port :: "16 word"
  pc_threads :: "16 word"
  pc_server :: "string option"

definition proxy_defaults :: proxy_conf where
  "proxy_defaults =
     \<lparr>pc_port = 16642, pc_threads = 8,
      pc_server = Some ''https://raw.githubusercontent.com/gt-cs6200/image_data''\<rparr>"

fun proxy_opts :: "getopt_results \<Rightarrow> proxy_conf \<Rightarrow> exit_status + proxy_conf" where
  "proxy_opts [] c = Inr c"
| "proxy_opts ((r, arg) # rs) c =
     (if r = -1 then Inr c
      else if r \<in> {opt CHR ''a'', opt CHR ''d'', opt CHR ''L'', opt CHR ''u''} then proxy_opts rs c
      else if r = opt CHR ''p'' then proxy_opts rs (c\<lparr>pc_port := word_of_int (atoi arg)\<rparr>)
      else if r = opt CHR ''s'' then proxy_opts rs (c\<lparr>pc_server := Some arg\<rparr>)
      else if r = opt CHR ''t'' then proxy_opts rs (c\<lparr>pc_threads := word_of_int (atoi arg)\<rparr>)
      else if r = opt CHR ''h'' then Inl (Status 0)
      else Inl (Status 1))"

definition proxy_checks :: "proxy_conf \<Rightarrow> exit_status + proxy_conf" where
  "proxy_checks c =
     (if pc_server c = None then Inl (Status 86)
      else if 61286 < unat (pc_port c) then Inl (Status 91)
      else if unat (pc_threads c) < 1 \<or> 80 < unat (pc_threads c) then Inl (Status 96)
      else Inr c)"

datatype gfs_call =
    GfsInit nat
  | GfsMaxNPending nat
  | GfsWorkerFunc string
  | GfsPort "16 word"
  | GfsWorkerArg nat string

definition proxy_setup :: "proxy_conf \<Rightarrow> gfs_call list" where
  "proxy_setup c =
     [GfsInit (unat (pc_threads c)), GfsMaxNPending 90, GfsWorkerFunc ''handle_with_curl'',
      GfsPort (pc_port c)] @
     map (\<lambda>i. GfsWorkerArg i (the (pc_server c))) [0..<unat (pc_threads c)]"

record signal_env =
  sigint_ok :: bool
  sigterm_ok :: bool

definition signals_ok :: signal_env where
  "signals_ok = \<lparr>sigint_ok = True, sigterm_ok = True\<rparr>"

definition proxy_main :: "signal_env \<Rightarrow> getopt_results \<Rightarrow> exit_status + gfs_call list" where
  "proxy_main env args =
     (if \<not> sigint_ok env \<or> \<not> sigterm_ok env then Inl Failure
      else case proxy_opts args proxy_defaults of
        Inl e \<Rightarrow> Inl e
      | Inr c \<Rightarrow> (case proxy_checks c of Inl e \<Rightarrow> Inl e | Inr c \<Rightarrow> Inr (proxy_setup c)))"

subsection \<open>The cache daemon's start-up\<close>

record daemon_env = signal_env +
  bind_ok :: bool
  listen_ok :: bool

record daemon_boot =
  db_workers :: nat
  db_cachedir :: string
  db_delay :: "64 word"
  db_state :: daemon_state

definition daemon_main :: "bool \<Rightarrow> daemon_env \<Rightarrow> shm_os \<Rightarrow> getopt_results \<Rightarrow> exit_status + daemon_boot" where
  "daemon_main sg env os args =
     (case daemon_opts sg args daemon_defaults of
        Inl e \<Rightarrow> Inl e
      | Inr c \<Rightarrow> (case daemon_checks c of
          Inl e \<Rightarrow> Inl e
        | Inr c \<Rightarrow>
            if \<not> sigint_ok env \<or> \<not> sigterm_ok env then Inl Failure
            else if \<not> bind_ok env \<or> \<not> listen_ok env then Inl Failure
            else Inr \<lparr>db_workers = nat (dc_nthreads c), db_cachedir = dc_cachedir c,
                      db_delay = dc_delay c, db_state = daemon_init os\<rparr>))"

definition daemon_env_ok :: daemon_env where
  "daemon_env_ok = \<lparr>sigint_ok = True, sigterm_ok = True, bind_ok = True, listen_ok = True\<rparr>"

subsection \<open>Signal handlers\<close>

text \<open>
  Both programs install their handler for \<open>SIGINT\<close> and \<open>SIGTERM\<close> only
  (Linux numbers). The effects of a handler are listed in order; \<open>Exit\<close>
  ends the process.
\<close>

definition SIGINT :: int where "SIGINT = 2"

definition SIGTERM :: int where "SIGTERM = 15"

definition SOCKET_PATH :: string where
  "SOCKET_PATH = ''/tmp/cache_socket''"

datatype sig_effect = Unlink string | CloseFd int | SimplecacheDestroy | GfserverStop | Exit int

definition daemon_sig_handler :: "int \<Rightarrow> int \<Rightarrow> sig_effect list" where
  "daemon_sig_handler server_fd signo =
     (if signo = SIGTERM \<or> signo = SIGINT
      then Unlink SOCKET_PATH # (if 0 < server_fd then [CloseFd server_fd] else []) @
           [SimplecacheDestroy, Exit signo]
      else [])"

definition proxy_sig_handler :: "int \<Rightarrow> sig_effect list" where
  "proxy_sig_handler signo =
     (if signo = SIGTERM \<or> signo = SIGINT then [GfserverStop, Exit signo] else [])"

subsection \<open>Properties\<close>

lemma c_char_unsigned: "c_char False r \<noteq> -1"
proof -
  have "0 \<le> r mod 256" by simp
  then show ?thesis by (simp add: c_char_def uint_word_of_int)
qed

lemma daemon_opts_unsigned:
  "\<not> sg \<Longrightarrow> daemon_opts sg args c = Inl (Status 0) \<or> daemon_opts sg args c = Inl (Status 1)"
  by (induction sg args c rule: daemon_opts.induct) (auto simp: c_char_unsigned Let_def opt_def)

lemma negative_delay_wraps:
  fixes x :: int
  assumes "- (2 ^ 31) \<le> x" "x < 0"
  shows "2500000 < unat (word_of_int x :: 64 word)"
proof -
  have "unat (word_of_int x :: 64 word) = nat (x mod 2 ^ 64)"
    by (simp add: unat_eq_nat_uint uint_word_of_int)
  moreover have "x mod 2 ^ 64 = (x + 2 ^ 64) mod 2 ^ 64" by simp
  moreover have "(x + 2 ^ 64) mod 2 ^ 64 = x + 2 ^ 64"
    using assms by (intro mod_pos_pos_trivial) simp_all
  ultimately show ?thesis using assms by simp
qed

lemma atoi_lower: "- (2 ^ 31) \<le> atoi s"
  using sint_ge [of "word_of_int (atol s) :: 32 word"] by (simp add: atoi_def)

lemma c_char_eof: "c_char True (-1) = -1"
  by (simp add: c_char_def)

lemma c_char_ascii: "0 \<le> r \<Longrightarrow> r < 128 \<Longrightarrow> c_char True r = r"
  by (simp add: c_char_def int_word_sint)

lemma atoi_small:
  "atoi s = atol s" if "- (2 ^ 31) \<le> atol s" "atol s < 2 ^ 31"
  using that by (simp add: atoi_def int_word_sint)

lemma opt_letters [simp]:
  "opt CHR ''a'' = 97" "opt CHR ''c'' = 99" "opt CHR ''d'' = 100" "opt CHR ''h'' = 104"
  "opt CHR ''i'' = 105" "opt CHR ''o'' = 111" "opt CHR ''p'' = 112" "opt CHR ''s'' = 115"
  "opt CHR ''t'' = 116" "opt CHR ''u'' = 117" "opt CHR ''L'' = 76"
  by (simp_all add: opt_def)

lemma atoi_digits: "atoi ''70000'' = 70000" "atoi ''16'' = 16" "atoi ''-1'' = -1"
  by (simp_all add: atoi_def atol_def is_space_def is_digit_def digits_val_def digit_val_def LONG_MAX_def)

text \<open>
  C19: on a platform whose \<open>char\<close> is unsigned the cache daemon never starts:
  \<open>option_char\<close> holds the result of \<open>getopt_long\<close> reduced to a byte, the
  end-of-options value \<open>-1\<close> becomes 255, never compares equal to \<open>-1\<close>, and
  falls to the \<open>default\<close> branch: whatever the arguments, the program exits
  with status 1 (or 0 for \<open>-h\<close>).
\<close>

theorem daemon_unsigned_char_exits:
  "daemon_main False env os args = Inl (Status 0) \<or> daemon_main False env os args = Inl (Status 1)"
  using daemon_opts_unsigned [of False args daemon_defaults]
  by (auto simp: daemon_main_def)

text \<open>
  C22: when the cache daemon starts, it runs between 1 and 100 worker threads,
  its delay is at most 2500000 microseconds, and the boss starts from an empty
  task queue (\<open>daemon_init\<close> of \<open>CacheDaemon\<close>).
\<close>

text \<open>
  C21: a negative \<open>-d\<close> delay is refused: \<open>(unsigned long) atoi(optarg)\<close>
  turns it into a value above \<open>2^64 - 2^31\<close>, so the check
  \<open>cache_delay > 2500000\<close> exits at line 202.
\<close>

theorem daemon_negative_delay_exits:
  assumes "atoi s < 0"
  shows "daemon_main True env os [(opt CHR ''d'', s)] = Inl (Status 202)"
  using assms negative_delay_wraps [OF atoi_lower, of s]
  by (simp add: daemon_main_def daemon_defaults_def daemon_checks_def c_char_ascii c_char_eof)

theorem daemon_negative_delay_exits_witness:
  "daemon_main True daemon_env_ok leak_os [(opt CHR ''d'', ''-1'')] = Inl (Status 202)"
  using daemon_negative_delay_exits [of "''-1''"] by (simp add: atoi_digits)

text \<open>
  C20: the proxy checks the port after it has been cut to 16 bits: \<open>-p s\<close> is
  accepted exactly when \<open>atoi(s) mod 2^16\<close> is at most 61286, and the server
  then listens on that residue (\<open>-p 70000\<close> listens on 4464).
\<close>

theorem proxy_port_wraps:
  "proxy_main signals_ok [(opt CHR ''p'', s)] =
     (if atoi s mod 65536 \<le> 61286
      then Inr (proxy_setup (proxy_defaults\<lparr>pc_port := word_of_int (atoi s)\<rparr>))
      else Inl (Status 91))"
  by (simp add: proxy_main_def signals_ok_def proxy_checks_def proxy_defaults_def
                unat_eq_nat_uint uint_word_of_int zless_nat_eq_int_zless not_le)

lemma proxy_port_70000:
  "proxy_main signals_ok [(opt CHR ''p'', ''70000'')] = Inr (proxy_setup (proxy_defaults\<lparr>pc_port := 4464\<rparr>))"
proof -
  have w: "(70000 :: 16 word) = 4464" by simp
  show ?thesis by (simp add: w proxy_main_def signals_ok_def proxy_checks_def proxy_defaults_def atoi_digits)
qed

text \<open>
  C25: the proxy's check for a NULL server name is dead code: the default is a
  literal and \<open>-s\<close> always comes with its argument, so the proxy never exits
  with status 86.
\<close>

lemma sig_handlers_exit:
  assumes "signo \<in> {SIGINT, SIGTERM}"
  shows "last (daemon_sig_handler fd signo) = Exit signo" and "hd (daemon_sig_handler fd signo) = Unlink SOCKET_PATH"
    and "proxy_sig_handler signo = [GfserverStop, Exit signo]"
  using assms by (auto simp: daemon_sig_handler_def proxy_sig_handler_def)

end
