(* ===== verification/CurlHandler.thy ===== *)
theory CurlHandler
  imports ProxyHandler "HOL-Library.Monad_Syntax"
begin

text \<open>
  The origin-fetching handler of the web proxy, \<open>handle_with_curl\<close>
  (\<open>src/server/handle_with_curl.c\<close>), run by the same framework as
  \<open>handle_with_cache\<close>. It builds the URL \<open>base_url ++ path\<close> in 1024 bytes,
  downloads it with libcurl into a growing buffer (\<open>write_callback\<close>), answers
  \<open>GF_FILE_NOT_FOUND\<close> unless the transfer succeeded with HTTP 200, and
  otherwise sends \<open>GF_OK\<close> and the buffer in a loop that resends what
  \<open>gfs_send\<close> did not take. libcurl is an input: \<open>curl_env\<close> gives whether
  \<open>curl_easy_init\<close> succeeds, the pieces of data the transfer hands to the
  callback (each with whether its \<open>realloc\<close> succeeds), whether the transfer
  itself succeeds and the response code. libcurl aborts the transfer with
  \<open>CURLE_WRITE_ERROR\<close> when the callback returns less than it was given
  (\<open>curl_perform\<close>). The framework is \<open>proxy_env\<close> of \<open>ProxyHandler\<close>
  (\<open>header_ret\<close>, \<open>send_ret\<close>); a body event records the bytes \<open>gfs_send\<close>
  reports sent, the first \<open>sent\<close> bytes of the buffer it was given. Since
  \<open>gfs_send\<close> may report 0 bytes, the send loop need not end: it is a
  \<open>partial_function (option)\<close>, \<open>None\<close> when it runs for ever.
\<close>

datatype curl_ret = CurlReturned int | CurlServerFailure

record curl_env =
  curl_init_ok :: bool
  curl_pieces :: "(byte list \<times> bool) list"
  curl_transfer_ok :: bool
  curl_http_code :: int

definition write_callback :: "byte list \<Rightarrow> bool \<Rightarrow> byte list \<Rightarrow> size_t \<times> byte list" where
  "write_callback contents realloc_ok mem =
     (if realloc_ok then (word_of_nat (length contents), mem @ contents) else (0, mem))"

fun curl_perform :: "(byte list \<times> bool) list \<Rightarrow> byte list \<Rightarrow> bool \<times> byte list" where
  "curl_perform [] mem = (True, mem)"
| "curl_perform ((b, ok) # ps) mem =
     (case write_callback b ok mem of
        (n, mem') \<Rightarrow> if unat n \<noteq> length b then (False, mem') else curl_perform ps mem')"

definition curl_url :: "string \<Rightarrow> string \<Rightarrow> string" where
  "curl_url base path = take 1023 (cstr base @ cstr path)"

partial_function (option) send_all ::
  "proxy_env \<Rightarrow> byte list \<Rightarrow> nat \<Rightarrow> nat \<Rightarrow> (curl_ret \<times> client_event list) option" where
  "send_all env mem i tot =
     (if tot < length mem then
        let sent = send_ret env i (length mem - tot) in
        if sent < 0 then Some (CurlServerFailure, [])
        else do {
          (r, evs) \<leftarrow> send_all env mem (Suc i) (tot + nat sent);
          Some (r, SendBody (take (nat sent) (drop tot mem)) # evs)
        }
      else Some (CurlReturned (int tot), []))"

definition handle_with_curl ::
  "proxy_env \<Rightarrow> curl_env \<Rightarrow> string \<Rightarrow> string \<Rightarrow> (string option \<times> curl_ret \<times> client_event list) option" where
  "handle_with_curl env cenv path base =
     (let url = curl_url base path in
      if \<not> curl_init_ok cenv then Some (None, CurlServerFailure, [])
      else case curl_perform (curl_pieces cenv) [] of
        (ok, mem) \<Rightarrow>
          if \<not> (curl_transfer_ok cenv \<and> ok) \<or> curl_http_code cenv \<noteq> 200
          then Some (Some url, CurlReturned (header_ret env GF_FILE_NOT_FOUND),
                     [SendHeader GF_FILE_NOT_FOUND 0])
          else do {
            (r, evs) \<leftarrow> send_all env mem 0 0;
            Some (Some url, r, SendHeader GF_OK (word_of_nat (length mem)) # evs)
          })"

definition handle_with_file ::
  "proxy_env \<Rightarrow> curl_env \<Rightarrow> string \<Rightarrow> string \<Rightarrow> (string option \<times> curl_ret \<times> client_event list) option" where
  "handle_with_file env cenv path base = handle_with_curl env cenv path base"

text \<open>A framework whose \<open>gfs_send\<close> takes at most 4 bytes, and a download in two pieces.\<close>

definition slow_client :: proxy_env where
  "slow_client = \<lparr>connect_ok = (\<lambda>_. True), write_ok = True, header_ret = (\<lambda>_. 0),
                  send_ret = (\<lambda>i n. int (min n 4)), waits = []\<rparr>"

definition two_pieces :: curl_env where
  "two_pieces = \<lparr>curl_init_ok = True, curl_pieces = [([1, 2, 3], True), ([4, 5, 6, 7, 8, 9], True)],
                 curl_transfer_ok = True, curl_http_code = 200\<rparr>"

text \<open>A framework whose second \<open>gfs_send\<close> fails after the first took 4 bytes.\<close>

definition fail_after_4 :: proxy_env where
  "fail_after_4 = slow_client\<lparr>send_ret := (\<lambda>i n. if i = 0 then int (min n 4) else -1)\<rparr>"

subsection \<open>Properties\<close>

lemma curl_perform_ok:
  "list_all (\<lambda>(b, ok). ok \<and> length b < 2 ^ 64) ps \<Longrightarrow> curl_perform ps mem = (True, mem @ concat (map fst ps))"
  by (induction ps arbitrary: mem) (auto simp: write_callback_def unat_of_nat)

lemma curl_perform_fail:
  "(b, False) \<in> set ps \<Longrightarrow> b \<noteq> [] \<Longrightarrow> fst (curl_perform ps mem) = False"
  by (induction ps arbitrary: mem) (auto simp: write_callback_def split: if_splits)

lemma send_all_done: "\<not> tot < length mem \<Longrightarrow> send_all env mem i tot = Some (CurlReturned (int tot), [])"
  by (subst send_all.simps) simp

lemma send_all_step:
  assumes "tot < length mem" and "0 \<le> send_ret env i (length mem - tot)"
  shows "send_all env mem i tot =
           do { (r, evs) \<leftarrow> send_all env mem (Suc i) (tot + nat (send_ret env i (length mem - tot)));
                Some (r, SendBody (take (nat (send_ret env i (length mem - tot))) (drop tot mem)) # evs) }"
  using assms by (subst send_all.simps) (simp add: Let_def)

lemma send_all_fail:
  "tot < length mem \<Longrightarrow> send_ret env i (length mem - tot) < 0 \<Longrightarrow> send_all env mem i tot = Some (CurlServerFailure, [])"
  by (subst send_all.simps) simp

lemma send_all_progress:
  assumes prog: "\<forall>i n. 0 < n \<longrightarrow> 0 < send_ret env i n \<and> send_ret env i n \<le> int n"
    and "tot \<le> length mem"
  shows "\<exists>bs. send_all env mem i tot = Some (CurlReturned (int (length mem)), map SendBody bs) \<and>
              concat bs = drop tot mem"
  using assms(2)
proof (induction "length mem - tot" arbitrary: i tot rule: less_induct)
  case less
  show ?case
  proof (cases "tot < length mem")
    case True
    define k where "k = nat (send_ret env i (length mem - tot))"
    have "0 < length mem - tot" using True by simp
    note pl = prog [rule_format, OF this, of i]
    have pos: "0 < send_ret env i (length mem - tot)" and le: "send_ret env i (length mem - tot) \<le> int (length mem - tot)"
      using pl by simp_all
    then have k: "0 < k" "tot + k \<le> length mem" by (auto simp: k_def)
    then have lt: "length mem - (tot + k) < length mem - tot" using True by simp
    then obtain bs where bs: "send_all env mem (Suc i) (tot + k) = Some (CurlReturned (int (length mem)), map SendBody bs)"
      "concat bs = drop (tot + k) mem"
      using less.hyps [OF lt] k by auto
    have "send_all env mem i tot = Some (CurlReturned (int (length mem)), map SendBody (take k (drop tot mem) # bs))"
      using send_all_step [OF True] pos bs(1) by (simp add: k_def)
    moreover have "concat (take k (drop tot mem) # bs) = drop tot mem"
      using bs(2) take_drop_add [of k tot mem] by simp
    ultimately show ?thesis by blast
  next
    case False
    with less.prems have "tot = length mem" by simp
    then show ?thesis using send_all_done [of tot mem env i] by (intro exI [of _ "[]"]) simp
  qed
qed

lemma send_all_stalled:
  assumes ret: "send_all env mem i tot = Some r"
  shows "length mem \<le> tot \<or> (\<exists>j n. send_ret env j n \<noteq> 0)"
proof (rule send_all.raw_induct [where P = "\<lambda>env mem i tot r. length mem \<le> tot \<or> (\<exists>j n. send_ret env j n \<noteq> 0)", OF _ ret])
  fix f env mem i tot r
  assume IH: "\<And>env mem i tot r. f env mem i tot = Some r \<Longrightarrow> length mem \<le> tot \<or> (\<exists>j n. send_ret env j n \<noteq> 0)"
    and eq: "(if tot < length mem then
        let sent = send_ret env i (length mem - tot) in
        if sent < 0 then Some (CurlServerFailure, [])
        else do {
          (r, evs) \<leftarrow> f env mem (Suc i) (tot + nat sent);
          Some (r, SendBody (take (nat sent) (drop tot mem)) # evs)
        }
      else Some (CurlReturned (int tot), [])) = Some r"
  show "length mem \<le> tot \<or> (\<exists>j n. send_ret env j n \<noteq> 0)"
  proof (cases "\<forall>j n. send_ret env j n = 0 \<and> tot < length mem")
    case True
    with eq obtain r' where "f env mem (Suc i) tot = Some r'"
      by (auto simp: Let_def split: Option.bind_splits)
    from IH [OF this] show ?thesis by blast
  qed auto
qed

lemma handle_with_curl_fetched:
  assumes "curl_init_ok cenv" "curl_transfer_ok cenv" "curl_http_code cenv = 200"
    and "list_all (\<lambda>(b, ok). ok \<and> length b < 2 ^ 64) (curl_pieces cenv)"
  shows "handle_with_curl env cenv path base =
           do { (r, evs) \<leftarrow> send_all env (concat (map fst (curl_pieces cenv))) 0 0;
                Some (Some (curl_url base path), r,
                      SendHeader GF_OK (word_of_nat (length (concat (map fst (curl_pieces cenv))))) # evs) }"
  using assms by (simp add: handle_with_curl_def curl_perform_ok)

text \<open>
  C22: the origin handler returns, and delivers the file: when libcurl fetches
  the pieces with HTTP 200 and every \<open>gfs_send\<close> takes at least one and at most
  the asked bytes, the loop ends, the client gets \<open>GF_OK\<close> with the size of
  the download and bodies that concatenate to it, and the handler returns that
  size.
\<close>

theorem curl_delivers:
  assumes "curl_init_ok cenv" "curl_transfer_ok cenv" "curl_http_code cenv = 200"
    and "list_all (\<lambda>(b, ok). ok \<and> length b < 2 ^ 64) (curl_pieces cenv)"
    and "\<forall>i n. 0 < n \<longrightarrow> 0 < send_ret env i n \<and> send_ret env i n \<le> int n"
  shows "\<exists>bs. handle_with_curl env cenv path base =
               Some (Some (curl_url base path), CurlReturned (int (length (concat (map fst (curl_pieces cenv))))),
                     SendHeader GF_OK (word_of_nat (length (concat (map fst (curl_pieces cenv))))) # map SendBody bs) \<and>
             concat bs = concat (map fst (curl_pieces cenv))"
proof -
  obtain bs where "send_all env (concat (map fst (curl_pieces cenv))) 0 0 =
      Some (CurlReturned (int (length (concat (map fst (curl_pieces cenv))))), map SendBody bs)"
    and "concat bs = concat (map fst (curl_pieces cenv))"
    using send_all_progress [OF assms(5), of 0 "concat (map fst (curl_pieces cenv))" 0] by auto
  then show ?thesis using handle_with_curl_fetched [OF assms(1-4)] by auto
qed

theorem curl_delivers_witness:
  "\<exists>bs. handle_with_curl slow_client two_pieces ''/a.txt'' ''http://origin'' =
        Some (Some (curl_url ''http://origin'' ''/a.txt''), CurlReturned 9, SendHeader GF_OK 9 # map SendBody bs) \<and>
        concat bs = [1, 2, 3, 4, 5, 6, 7, 8, 9]"
  using curl_delivers [of two_pieces slow_client "''/a.txt''" "''http://origin''"]
  by (simp add: two_pieces_def slow_client_def)

lemma send_all_partial:
  assumes "send_all env mem i tot = Some res"
  shows "\<exists>bs. snd res = map SendBody bs \<and> prefix (concat bs) (drop tot mem) \<and>
              (fst res = CurlServerFailure \<longrightarrow> (\<exists>j n. send_ret env j n < 0))"
proof (rule send_all.raw_induct [where P = "\<lambda>env mem i tot res. \<exists>bs. snd res = map SendBody bs \<and>
          prefix (concat bs) (drop tot mem) \<and> (fst res = CurlServerFailure \<longrightarrow> (\<exists>j n. send_ret env j n < 0))",
        OF _ assms])
  fix f env mem i tot res
  assume IH: "\<And>env mem i tot res. f env mem i tot = Some res \<Longrightarrow> \<exists>bs. snd res = map SendBody bs \<and>
          prefix (concat bs) (drop tot mem) \<and> (fst res = CurlServerFailure \<longrightarrow> (\<exists>j n. send_ret env j n < 0))"
    and eq: "(if tot < length mem then
        let sent = send_ret env i (length mem - tot) in
        if sent < 0 then Some (CurlServerFailure, [])
        else do {
          (r, evs) \<leftarrow> f env mem (Suc i) (tot + nat sent);
          Some (r, SendBody (take (nat sent) (drop tot mem)) # evs)
        }
      else Some (CurlReturned (int tot), [])) = Some res"
  show "\<exists>bs. snd res = map SendBody bs \<and> prefix (concat bs) (drop tot mem) \<and>
          (fst res = CurlServerFailure \<longrightarrow> (\<exists>j n. send_ret env j n < 0))"
  proof (cases "tot < length mem \<and> 0 \<le> send_ret env i (length mem - tot)")
    case True
    define k where "k = nat (send_ret env i (length mem - tot))"
    from eq True obtain r evs where rec: "f env mem (Suc i) (tot + k) = Some (r, evs)"
      and res: "res = (r, SendBody (take k (drop tot mem)) # evs)"
      by (auto simp: Let_def k_def split: Option.bind_splits)
    from IH [OF rec] obtain bs where "evs = map SendBody bs" and p: "prefix (concat bs) (drop (tot + k) mem)"
      and fl: "r = CurlServerFailure \<longrightarrow> (\<exists>j n. send_ret env j n < 0)" by auto
    moreover have "prefix (take k (drop tot mem) @ concat bs) (drop tot mem)"
      using p take_drop_add [of k tot mem] by (metis same_prefix_prefix)
    ultimately show ?thesis using res by (intro exI [of _ "take k (drop tot mem) # bs"]) simp
  next
    case False
    have "send_ret env i (length mem - tot) < 0 \<Longrightarrow> \<exists>j n. send_ret env j n < 0" by blast
    with False eq show ?thesis by (auto simp: Let_def split: if_splits)
  qed
qed

text \<open>
  C23: a failing \<open>gfs_send\<close>, after any number of partial sends, ends the origin
  handler with \<open>SERVER_FAILURE\<close> and no second header, unlike
  \<open>handle_with_cache\<close>, whose error label sends \<open>GF_ERROR\<close> after \<open>GF_OK\<close>:
  whenever the handler of a fetched file returns \<open>SERVER_FAILURE\<close>, some
  \<open>gfs_send\<close> failed, and the client got exactly one header, \<open>GF_OK\<close> with the
  size of the download, followed by bodies that are a prefix of the download.
\<close>

theorem curl_send_failure:
  assumes "curl_init_ok cenv" "curl_transfer_ok cenv" "curl_http_code cenv = 200"
    and "list_all (\<lambda>(b, ok). ok \<and> length b < 2 ^ 64) (curl_pieces cenv)"
    and ret: "handle_with_curl env cenv path base = Some (u, CurlServerFailure, evs)"
  shows "(\<exists>j n. send_ret env j n < 0) \<and>
         (\<exists>bs. evs = SendHeader GF_OK (word_of_nat (length (concat (map fst (curl_pieces cenv))))) # map SendBody bs \<and>
               prefix (concat bs) (concat (map fst (curl_pieces cenv))))"
proof -
  from ret obtain evs' where s: "send_all env (concat (map fst (curl_pieces cenv))) 0 0 = Some (CurlServerFailure, evs')"
    and e: "evs = SendHeader GF_OK (word_of_nat (length (concat (map fst (curl_pieces cenv))))) # evs'"
    by (auto simp: handle_with_curl_fetched [OF assms(1-4)] split: Option.bind_splits)
  from send_all_partial [OF s] e show ?thesis by auto
qed

theorem curl_send_failure_witness:
  "(\<exists>j n. send_ret fail_after_4 j n < 0) \<and>
   (\<exists>bs. [SendHeader GF_OK 9, SendBody [1, 2, 3, 4]] = SendHeader GF_OK 9 # map SendBody bs \<and>
         prefix (concat bs) [1, 2, 3, 4, 5, 6, 7, 8, 9])"
proof -
  have "handle_with_curl fail_after_4 two_pieces ''/a.txt'' ''http://origin'' =
          Some (Some (curl_url ''http://origin'' ''/a.txt''), CurlServerFailure,
                [SendHeader GF_OK 9, SendBody [1, 2, 3, 4]])"
    by (simp add: handle_with_curl_fetched two_pieces_def fail_after_4_def slow_client_def
                  send_all_step send_all_fail)
  from curl_send_failure [OF _ _ _ _ this] show ?thesis by (simp add: two_pieces_def)
qed

text \<open>
  C24: when the buffer cannot grow (\<open>realloc\<close> fails on a non-empty piece) the
  callback returns 0, libcurl aborts the transfer, and the client is told
  \<open>GF_FILE_NOT_FOUND\<close>: an allocation failure of the proxy is reported as a
  missing file.
\<close>

theorem curl_oom_not_found:
  assumes "curl_init_ok cenv" and "(b, False) \<in> set (curl_pieces cenv)" and "b \<noteq> []"
  shows "handle_with_curl env cenv path base =
           Some (Some (curl_url base path), CurlReturned (header_ret env GF_FILE_NOT_FOUND),
                 [SendHeader GF_FILE_NOT_FOUND 0])"
proof -
  obtain ok mem where p: "curl_perform (curl_pieces cenv) [] = (ok, mem)" by fastforce
  with curl_perform_fail [OF assms(2,3), of "[]"] have "\<not> ok" by simp
  with assms(1) p show ?thesis by (simp add: handle_with_curl_def)
qed

theorem curl_oom_not_found_witness:
  "handle_with_curl slow_client (two_pieces\<lparr>curl_pieces := [([1, 2, 3], True), ([4, 5], False)]\<rparr>)
     ''/a.txt'' ''http://origin'' =
   Some (Some (curl_url ''http://origin'' ''/a.txt''), CurlReturned 0, [SendHeader GF_FILE_NOT_FOUND 0])"
  using curl_oom_not_found [of "two_pieces\<lparr>curl_pieces := [([1, 2, 3], True), ([4, 5], False)]\<rparr>" "[4, 5]"
                               slow_client "''/a.txt''" "''http://origin''"]
  by (simp add: two_pieces_def slow_client_def)

text \<open>
  C25: a client that takes no bytes hangs the origin handler: when every
  \<open>gfs_send\<close> reports 0 bytes sent, \<open>total_sent\<close> never grows and the
  handler never returns (its worker thread is lost) for any non-empty download.
\<close>

theorem curl_stall_hangs:
  assumes "curl_init_ok cenv" "curl_transfer_ok cenv" "curl_http_code cenv = 200"
    and "list_all (\<lambda>(b, ok). ok \<and> length b < 2 ^ 64) (curl_pieces cenv)"
    and "concat (map fst (curl_pieces cenv)) \<noteq> []"
    and "\<forall>i n. send_ret env i n = 0"
  shows "handle_with_curl env cenv path base = None"
proof -
  have "send_all env (concat (map fst (curl_pieces cenv))) 0 0 = None"
  proof (rule ccontr)
    assume "send_all env (concat (map fst (curl_pieces cenv))) 0 0 \<noteq> None"
    then obtain r where "send_all env (concat (map fst (curl_pieces cenv))) 0 0 = Some r" by blast
    from send_all_stalled [OF this] assms(5,6) show False by simp
  qed
  then show ?thesis by (simp add: handle_with_curl_fetched [OF assms(1-4)])
qed

theorem curl_stall_hangs_witness:
  "handle_with_curl (slow_client\<lparr>send_ret := (\<lambda>_ _. 0)\<rparr>) two_pieces ''/a.txt'' ''http://origin'' = None"
  using curl_stall_hangs [of two_pieces "slow_client\<lparr>send_ret := (\<lambda>_ _. 0)\<rparr>" "''/a.txt''" "''http://origin''"]
  by (simp add: two_pieces_def)

end
