(* ===== verification/Spec2Isabelle.thy ===== *)
theory Spec2Isabelle
  imports Delivery HandshakeSync ChannelPool Config CurlHandler
begin

text \<open>
  \<^bold>\<open>Verification development of the shared-memory content cache.\<close>

  \<^bold>\<open>The program.\<close> Two processes. The proxy (\<open>src/cache/handle_with_cache.c\<close>,
  run by a request-serving framework) owns a pool of named POSIX shared-memory
  channels (\<open>src/cache/shm_channel.c\<close>, \<open>create_n_segments\<close>). For each client
  request a handler pops a channel, writes the line
  \<open>"<channel> <path> <capacity>\n"\<close> to the daemon's local socket, and then
  consumes chunks from the channel: it waits on the payload's
  \<open>sem_proxy_ready\<close>, forwards \<open>datalen\<close> bytes to the client, posts
  \<open>sem_cache_ready\<close>, and stops after the chunk flagged last; on every return it
  pushes the channel back. The cache daemon (\<open>src/cache/simplecached.c\<close>) has a
  boss thread that turns each connection into a \<open>cache_task_t\<close> on a queue, and
  worker threads that attach the named channel, look the key up in the content
  store and publish the file chunk by chunk, each chunk handed over by
  \<open>sem_post(sem_proxy_ready)\<close> / \<open>sem_wait(sem_cache_ready)\<close>.

  \<^bold>\<open>Theories and what they model.\<close>
  \<^item> \<open>Prelude\<close>: the C types (\<open>size_t\<close> as \<open>64 word\<close>, bytes as \<open>8 word\<close>), C
    strings (\<open>cstr\<close>, \<open>strncpy\<close>) and decimal printing (\<open>decimal\<close>, for \<open>%d\<close>
    and \<open>%zu\<close>), with their lemmas. \<open>OwnerLists\<close>: lemmas on lists of (owner,
    item) pairs, shared by the channel pool and the task queue.
  \<^item> \<open>ShmChannel\<close>: \<open>shm_channel.h\<close>/\<open>shm_channel.c\<close>. The payload
    \<open>shm_payload_t\<close> and the segment \<open>shm_segment_t\<close> are records; the OS
    shared-memory namespace is explicit state \<open>shm_os\<close> (objects by name, open
    descriptors against a limit, live mappings). \<open>shm_segment_create\<close>,
    \<open>shm_segment_attach\<close>, \<open>shm_segment_destroy\<close>, \<open>create_n_segments\<close> are state
    transformers returning the C return value. Lemmas: the success and failure
    branches of create and attach, creation followed by attachment from the
    other process, the channels \<open>create_n_segments\<close> makes.
  \<^item> \<open>Control\<close>: the control line. \<open>format_request\<close> is the proxy's \<open>snprintf\<close>
    into 1024 bytes; \<open>boss_handle\<close> is one iteration of the boss loop of
    \<open>main\<close> (one \<open>read\<close>, three \<open>strtok\<close> calls, \<open>atol\<close>, the fallback size, the
    newline trim, the task). \<open>tokens\<close> is a reference tokenisation (split at
    every blank, drop empty pieces), independent of \<open>strtok\<close>; \<open>strtok\<close> is
    shown to enumerate its tokens. Lemmas: the round trip proxy line to daemon
    task, and the exact set of lines on which the boss dereferences a NULL key
    (fewer than two blank-separated tokens).
  \<^item> \<open>CacheWorker\<close>: \<open>_worker_thread\<close>. \<open>worker_task\<close> is the set-up of one task
    (attach, lookup, \<open>dup\<close>, file size) ending in a \<open>worker_result\<close>;
    \<open>worker_stream\<close> is the \<open>pread\<close> loop as the sequence of payloads it
    publishes, a \<open>function\<close> whose termination is proved by the measure
    \<open>length content - offset\<close>; \<open>worker_run\<close> is the worker serving tasks in
    turn. Lemmas: chunk sizes, last flags and the byte round trip of the loop (by
    one induction rule for the loop, \<open>worker_stream_rule\<close>), and the descriptor
    leak that stops the daemon after \<open>fd_limit\<close> tasks.
  \<^item> \<open>ProxyHandler\<close>: \<open>handle_with_cache\<close> in full, with the pool operations
    (\<open>steque_pop\<close> at the head, \<open>steque_enqueue\<close> at the back) and the chunk loop
    \<open>proxy_loop\<close>. What the handler does not compute (connect and write results,
    framework return values, what each semaphore wait yields) is the record
    \<open>proxy_env\<close>; running out of wait results is \<open>Blocked\<close>: the wait has no
    timeout, so the handler never returns. Lemmas: the channel goes back exactly
    once on every returning path; only chunks that passed the length check are
    forwarded; a failure after the OK header sends a second header.
  \<^item> \<open>Delivery\<close>: one request served end to end in the synchronous schedule
    of the handshake (each side runs while the other waits). \<open>daemon_waits\<close>
    is what the handler's waits return when the daemon serves its line: boss
    parse, hand-off of the task, worker set-up, the chunk stream; \<open>serve\<close>
    runs \<open>handle_with_cache\<close> against it for a client given by the values
    \<open>gfs_sendheader\<close> and \<open>gfs_send\<close> return. Lemmas: a stored non-empty
    file reaches the client whole behind a \<open>GF_OK\<close> header announcing its size
    and the channel returns to the pool; a miss and an empty file are both a lone
    \<open>GF_ERROR\<close>; a file whose size the buffer divides ends with a zero-length
    send. The scenario of the specification (a 10000-byte file through a
    4000-byte buffer, a missing file) is evaluated as witnesses.
  \<^item> \<open>Handshake\<close>: one channel shared by a worker and a proxy handler under
    every interleaving. \<open>hs_step\<close> is an \<open>inductive\<close> step relation over both
    program counters (\<open>worker_pc\<close>: the \<open>pread\<close> loop of \<open>_worker_thread\<close>;
    \<open>proxy_pc\<close>: \<open>handle_with_cache\<close> from its first \<open>sem_wait\<close>), the worker's
    offset, the payload with its two semaphore counts, and what the client has
    been sent; each step is one statement that touches shared state, a
    \<open>sem_wait\<close> is enabled on a positive count, and interrupted waits and failed
    sends are steps to the error label. \<open>hs_next\<close>/\<open>hs_exec\<close> is an executable
    scheduler whose runs are runs of \<open>hs_step\<close>. The invariant \<open>hs_inv\<close>
    (\<open>hs_sync\<close>, \<open>hs_data\<close>, \<open>hs_hdr_ok\<close>) is preserved by every step (one
    lemma per rule) and holds in every state reachable from a channel with both
    counts at zero. Lemmas: safety (a prefix of the file is sent, at most one
    count positive, the worker blocked while the proxy reads the chunk); what
    the client has when the proxy finishes; the counts left behind; and two
    concrete reachable runs: the \<open>is_last_chunk\<close> race that truncates the file
    and blocks the worker, and a reused channel whose left-over count corrupts
    the next transfer.
  \<^item> \<open>HandshakeSync\<close>: the synchronous schedule that \<open>Delivery\<close> assumes, as
    rounds of \<open>hs_exec\<close> (fill; wait, send, post, check; wait, check), each
    evaluated symbolically (\<open>hs_round_first\<close>, \<open>hs_round_chunk\<close>,
    \<open>hs_round_eof\<close>) and iterated by induction on the bytes left
    (\<open>hs_sync_loop\<close>). Lemma: for every non-empty file and usable buffer
    there is a run of \<open>hs_step\<close> after which both sides are finished and
    the client has the header and exactly the file.
  \<^item> \<open>ChannelPool\<close>: the free list shared by the handlers, as a labelled
    transition system of their critical sections (\<open>pool_step\<close>: \<open>Acquire\<close>,
    \<open>NoChannel\<close>, \<open>Release\<close>) iterated by \<open>pool_run\<close>, with \<open>pool_exec\<close> its
    executable counterpart. Lemmas: by rule induction, with the multiset of free
    and held channels, every channel is free or held by exactly one handler;
    \<open>handle_with_cache\<close> is a run of its own critical sections.
  \<^item> In \<open>CacheWorker\<close> also: the worker loop computes the reference chunking
    \<open>chunks_ref\<close>, and it never writes outside the data area of the segment
    (\<open>payload_wf\<close>).
  \<^item> \<open>CacheDaemon\<close>: the daemon as a whole, boss and workers over the task
    queue \<open>request_queue\<close> (\<open>steque\<close>, a library outside the sources, modelled from
    the specification's FIFO contract). \<open>daemon_step\<close> has one rule per step:
    the boss accepting a line (skip, crash or enqueue, under the lock), worker
    \<open>w\<close> popping the front task under the lock (\<open>Pop w\<close>), and worker \<open>w\<close>
    setting up the task it popped after releasing the lock (\<open>Setup w\<close>), so
    set-ups may happen in another order than the pops. A set-up is one step:
    two set-ups are interleaved as wholes, not statement by statement.
    \<open>daemon_run\<close> iterates the steps and \<open>daemon_exec\<close> is their executable
    counterpart. Lemmas: under every interleaving the popped tasks followed by the
    queue are the tasks of the boss contract \<open>boss_tasks\<close>; no task is lost or
    set up twice and no worker holds two tasks; a line without a key kills the
    daemon with tasks still queued.
  \<^item> \<open>Config\<close>: \<open>main\<close> of \<open>simplecached.c\<close> and of
    \<open>src/server/webproxy.c\<close> up to their serving loops. The results of
    \<open>getopt_long\<close> are the input; \<open>atoi\<close> is the 64-bit \<open>atol\<close> cut to 32 bits,
    and the stores into \<open>char\<close> (\<open>c_char\<close>, signed or unsigned by platform),
    \<open>unsigned short\<close> and \<open>unsigned long\<close> are reductions modulo \<open>2^8\<close>,
    \<open>2^16\<close>, \<open>2^64\<close>. \<open>daemon_main\<close> ends in \<open>daemon_init\<close> of \<open>CacheDaemon\<close>,
    \<open>proxy_main\<close> in the list of \<open>gfserver\<close> set-up calls. \<open>optarg\<close> is a
    string: the option string and the long options, which make every argument
    of \<open>-s\<close>, \<open>-p\<close> and \<open>-t\<close> required, are not modelled. Lemmas: the
    unsigned-\<open>char\<close> daemon never starts; the proxy range-checks the port
    after the 16-bit cut; a negative delay exits at line 202. The two
    \<open>_sig_handler\<close>s are the ordered lists of their effects
    (\<open>daemon_sig_handler\<close>, \<open>proxy_sig_handler\<close>).

  \<^item> \<open>CurlHandler\<close>: \<open>src/server/handle_with_curl.c\<close>, the handler the web
    proxy registers (\<open>GfsWorkerFunc\<close> of \<open>proxy_setup\<close>). \<open>write_callback\<close>
    grows the download buffer; libcurl's results are the input \<open>curl_env\<close>
    and \<open>curl_perform\<close> is its rule of aborting on a short callback return;
    \<open>handle_with_curl\<close> builds the URL in 1024 bytes (\<open>curl_url\<close>), answers
    \<open>GF_FILE_NOT_FOUND\<close> unless the transfer succeeded with HTTP 200, and
    otherwise sends \<open>GF_OK\<close> and the buffer by \<open>send_all\<close>, a
    \<open>partial_function (option)\<close> because \<open>gfs_send\<close> may make no progress.
    Lemmas: the loop returns and delivers the download when every send takes at
    least one byte (by induction on the bytes left); it never returns when every
    send reports 0 (by the fixpoint induction \<open>send_all.raw_induct\<close>); a
    failed send, after any partial sends, is \<open>SERVER_FAILURE\<close> with a single
    header and a prefix of the download sent; a failed
    \<open>realloc\<close> is answered as a missing file.

  \<^bold>\<open>Bounds and assumptions.\<close> Interleavings are analysed on a channel whose
  semaphore counts are both zero at the start of the transfer, as
  \<open>shm_segment_create\<close> leaves them (\<open>hs_fresh\<close>); a full send of each chunk is
  assumed in \<open>Handshake\<close>, partial sends are analysed in \<open>ProxyHandler\<close>.
  \<open>sizeof(shm_payload_t)\<close> is 88 (LP64 glibc:
  two 32-byte \<open>sem_t\<close>, \<open>size_t\<close>, padded \<open>int\<close>, \<open>size_t\<close>). The chunk loop is
  analysed for a usable buffer \<open>0 < M < 2^63\<close>, where the signed comparison
  \<open>n < (ssize_t)max_chunk_size\<close> agrees with the unsigned one; capacities below
  the header wrap around and are outside these lemmas. \<open>pread\<close> of a regular
  file returns \<open>min(count, size - offset)\<close> bytes and never fails, and
  \<open>fstat\<close> of the descriptor just duplicated from it never fails (its error
  branch, \<open>simplecached.c\<close> lines 97-102, is not modelled); the boss receives
  each control line in one \<open>read\<close>.

  \<^bold>\<open>Not modelled.\<close> The usage texts of both \<open>main\<close> functions and the
  header's prototypes (their definitions are modelled); the framework
  \<open>gfserver\<close>, the content store \<open>simplecache\<close> and libcurl (libraries the
  sources only call, here inputs of the model); \<open>getopt_long\<close> and
  \<open>strtol\<close> of the C library, whose results are inputs or written out
  (\<open>atol\<close>).
\<close>

end
